(* ===== verification/RK_Prelude.thy ===== *)
theory RK_Prelude
  imports Main "HOL-Library.Word"
begin

text \<open>
  What the component theories share: the collections of simplification facts, C arrays with
  checked accesses, the early-exit loops of the source as functions over index lists, C
  integer division, and C strings.

  An array access outside the array is the value \<open>None\<close> of the whole computation, so
  \<open>Some\<close> results state memory safety. A loop \<open>for (i = a; i < b; i++)\<close> runs over the list
  \<open>[a..b - 1]\<close>: empty when \<open>b \<le> a\<close>, as in C.
\<close>

named_theorems loop_simps \<open>rewriting of the loop combinators\<close>
named_theorems access_simps \<open>array reads and writes inside the bounds\<close>

subsection \<open>Integers of fixed width\<close>

type_synonym u8 = "8 word"
type_synonym u16 = "16 word"
type_synonym u32 = "32 word"

text \<open>C's \<open>/\<close> and \<open>%\<close> on signed operands round towards zero.\<close>

definition c_div :: "int \<Rightarrow> int \<Rightarrow> int" where
  "c_div a b = sgn a * sgn b * (\<bar>a\<bar> div \<bar>b\<bar>)"

definition c_mod :: "int \<Rightarrow> int \<Rightarrow> int" where
  "c_mod a b = a - b * c_div a b"

lemma c_div_nonneg [simp]: "0 \<le> a \<Longrightarrow> 0 < b \<Longrightarrow> c_div a b = a div b"
  by (cases "a = 0") (auto simp: c_div_def)

lemma c_mod_nonneg [simp]: "0 \<le> a \<Longrightarrow> 0 < b \<Longrightarrow> c_mod a b = a mod b"
  by (simp add: c_mod_def minus_mult_div_eq_mod)

subsection \<open>Arrays with checked accesses\<close>

definition rd :: "'a list \<Rightarrow> int \<Rightarrow> 'a option" where
  "rd m k = (if 0 \<le> k \<and> k < int (length m) then Some (m ! nat k) else None)"

definition wr :: "'a list \<Rightarrow> int \<Rightarrow> 'a \<Rightarrow> 'a list option" where
  "wr m k v = (if 0 \<le> k \<and> k < int (length m) then Some (m[nat k := v]) else None)"

lemma rd_in [access_simps]: "0 \<le> k \<Longrightarrow> k < int (length m) \<Longrightarrow> rd m k = Some (m ! nat k)"
  by (simp add: rd_def)

lemma wr_in [access_simps]: "0 \<le> k \<Longrightarrow> k < int (length m) \<Longrightarrow> wr m k v = Some (m[nat k := v])"
  by (simp add: wr_def)

lemma wr_length: "wr m k v = Some m' \<Longrightarrow> length m' = length m"
  by (auto simp: wr_def split: if_splits)

lemma rd_wr:
  assumes "wr m k v = Some m'"
  shows "rd m' j = (if j = k then Some v else rd m j)"
proof -
  from assms have k: "0 \<le> k" "k < int (length m)" and m': "m' = m[nat k := v]"
    by (auto simp: wr_def split: if_splits)
  then show ?thesis
    by (cases "j < 0") (auto simp: rd_def nth_list_update eq_nat_nat_iff)
qed

subsection \<open>Loops\<close>

text \<open>
  \<open>forall_c\<close> is a loop that returns 0 at the first element failing the test and 1 after the
  last; \<open>find_c\<close> stops at the first element passing it; \<open>each_c\<close> runs a body that updates
  a state. All stop with \<open>None\<close> at an access outside an array.
\<close>

fun forall_c :: "('a \<Rightarrow> bool option) \<Rightarrow> 'a list \<Rightarrow> bool option" where
  "forall_c P [] = Some True"
| "forall_c P (x # xs) =
     (case P x of None \<Rightarrow> None | Some False \<Rightarrow> Some False | Some True \<Rightarrow> forall_c P xs)"

fun find_c :: "('a \<Rightarrow> bool option) \<Rightarrow> 'a list \<Rightarrow> 'a option option" where
  "find_c P [] = Some None"
| "find_c P (x # xs) =
     (case P x of None \<Rightarrow> None | Some True \<Rightarrow> Some (Some x) | Some False \<Rightarrow> find_c P xs)"

fun each_c :: "('a \<Rightarrow> 's \<Rightarrow> 's option) \<Rightarrow> 'a list \<Rightarrow> 's \<Rightarrow> 's option" where
  "each_c f [] s = Some s"
| "each_c f (x # xs) s = (case f x s of None \<Rightarrow> None | Some s' \<Rightarrow> each_c f xs s')"

lemma forall_c_total [loop_simps]:
  "(\<And>x. x \<in> set xs \<Longrightarrow> P x = Some (Q x)) \<Longrightarrow> forall_c P xs = Some (\<forall>x \<in> set xs. Q x)"
  by (induction xs) (auto split: bool.splits)

text \<open>The same where an element need only be tested after all before it have passed.\<close>

lemma forall_c_upto:
  assumes "\<And>k. a \<le> k \<Longrightarrow> k \<le> b \<Longrightarrow> \<forall>l \<in> {a..<k}. Q l \<Longrightarrow> P k = Some (Q k)"
  shows "forall_c P [a..b] = Some (\<forall>k \<in> {a..b}. Q k)"
  using assms
proof (induction a b rule: upto.induct)
  case (1 i j)
  show ?case
  proof (cases "i \<le> j")
    case True
    then have split: "[i..j] = i # [i + 1..j]" "{i..j} = insert i {i + 1..j}"
      by (auto simp: upto_rec1)
    have Pi: "P i = Some (Q i)" using "1.prems" [of i] True by simp
    show ?thesis
    proof (cases "Q i")
      case Q: True
      have "forall_c P [i + 1..j] = Some (\<forall>k \<in> {i + 1..j}. Q k)"
      proof (rule "1.IH" [OF True])
        fix k
        assume k: "i + 1 \<le> k" "k \<le> j" "\<forall>l \<in> {i + 1..<k}. Q l"
        have "\<forall>l \<in> {i..<k}. Q l"
        proof
          fix l
          assume "l \<in> {i..<k}"
          with k(3) Q show "Q l" by (cases "l = i") auto
        qed
        with "1.prems" k show "P k = Some (Q k)" by simp
      qed
      with Pi Q split show ?thesis by simp
    next
      case False
      with Pi split show ?thesis by simp
    qed
  qed simp
qed

lemma find_c_total [loop_simps]:
  "(\<And>x. x \<in> set xs \<Longrightarrow> P x = Some (Q x)) \<Longrightarrow> find_c P xs = Some (List.find Q xs)"
  by (induction xs) (auto split: bool.splits)

lemma find_c_cong:
  "(\<And>x. x \<in> set xs \<Longrightarrow> P x = P' x) \<Longrightarrow> find_c P xs = find_c P' xs"
  by (induction xs) (auto split: option.splits bool.splits)

lemma each_c_append [simp]:
  "each_c f (xs @ ys) s = (case each_c f xs s of None \<Rightarrow> None | Some s' \<Rightarrow> each_c f ys s')"
  by (induction xs arbitrary: s) (auto split: option.splits)

text \<open>A loop keeps what each run of its body keeps, and runs to its end where no run fails.\<close>

lemma each_c_invariant:
  assumes "I s" and "\<And>x s. x \<in> set xs \<Longrightarrow> I s \<Longrightarrow> \<exists>s'. f x s = Some s' \<and> I s'"
  shows "\<exists>s'. each_c f xs s = Some s' \<and> I s'"
  using assms
proof (induction xs arbitrary: s)
  case Nil
  then show ?case by simp
next
  case (Cons x xs)
  from Cons.prems obtain s1 where "f x s = Some s1" and s1: "I s1" by force
  moreover from s1 Cons.prems(2) have "\<exists>s'. each_c f xs s1 = Some s' \<and> I s'"
    by (intro Cons.IH) auto
  ultimately show ?case by simp
qed

text \<open>
  A loop that adds the set \<open>A x\<close> for each \<open>x\<close> it visits: \<open>R S s\<close> reads \<open>s implements S\<close>.
\<close>

lemma each_c_collect:
  assumes "R S s"
    and "\<And>x S s. x \<in> set xs \<Longrightarrow> R S s \<Longrightarrow> \<exists>s'. f x s = Some s' \<and> R (S \<union> A x) s'"
  shows "\<exists>s'. each_c f xs s = Some s' \<and> R (S \<union> \<Union> (A ` set xs)) s'"
  using assms
proof (induction xs arbitrary: S s)
  case Nil
  then show ?case by simp
next
  case (Cons x xs)
  from Cons.prems obtain s1 where f: "f x s = Some s1" and s1: "R (S \<union> A x) s1" by force
  moreover from s1 Cons.prems(2)
  have "\<exists>s'. each_c f xs s1 = Some s' \<and> R (S \<union> A x \<union> \<Union> (A ` set xs)) s'"
    by (intro Cons.IH) auto
  ultimately show ?case by (auto simp: Un_assoc)
qed

text \<open>A counting loop whose state after \<open>i\<close> turns is \<open>S i\<close>.\<close>

lemma each_c_count:
  assumes "\<And>i. i < n \<Longrightarrow> f (int i) (S i) = Some (S (Suc i))"
  shows "each_c f [0..int n - 1] (S 0) = Some (S n)"
  using assms
proof (induction n)
  case 0
  then show ?case by simp
next
  case (Suc n)
  have "[0..int (Suc n) - 1] = [0..int n - 1] @ [int n]"
    by (simp add: upto_rec2)
  with Suc show ?case by simp
qed

lemma find_SomeD:
  "List.find P xs = Some x \<Longrightarrow> x \<in> set xs \<and> P x"
  by (auto simp: find_Some_iff in_set_conv_nth)

lemma find_map_upt:
  assumes "n < N" "Q (f n)" "\<And>k. k < n \<Longrightarrow> \<not> Q (f k)"
  shows "List.find Q (map f [0..<N]) = Some (f n)"
  using assms by (auto simp: find_Some_iff intro!: exI [of _ n])

lemma find_NoneD:
  "List.find P xs = None \<Longrightarrow> x \<in> set xs \<Longrightarrow> \<not> P x"
  by (auto simp: find_None_iff)

subsection \<open>C strings\<close>

text \<open>A string is the list of its characters before the terminating NUL.\<close>

fun is_prefix_of :: "string \<Rightarrow> string \<Rightarrow> bool" where
  "is_prefix_of [] _ = True"
| "is_prefix_of (_ # _) [] = False"
| "is_prefix_of (a # as) (b # bs) = (a = b \<and> is_prefix_of as bs)"

text \<open>\<open>strstr (hay, needle) != NULL\<close>\<close>

fun strstr_b :: "string \<Rightarrow> string \<Rightarrow> bool" where
  "strstr_b [] needle = (needle = [])"
| "strstr_b (c # hay) needle = (is_prefix_of needle (c # hay) \<or> strstr_b hay needle)"

text \<open>\<open>strncmp (a, b, n) == 0\<close>\<close>

definition strncmp_eq :: "string \<Rightarrow> string \<Rightarrow> nat \<Rightarrow> bool" where
  "strncmp_eq a b n = (take n a = take n b)"

lemma is_prefix_of_iff: "is_prefix_of xs ys = (\<exists>zs. ys = xs @ zs)"
  by (induction xs ys rule: is_prefix_of.induct) auto

lemma strstr_b_iff: "strstr_b hay needle = (\<exists>us vs. hay = us @ needle @ vs)"
proof (induction hay)
  case Nil
  then show ?case by simp
next
  case IH: (Cons c hay)
  show ?case
  proof
    assume "strstr_b (c # hay) needle"
    then consider zs where "c # hay = needle @ zs" | us vs where "hay = us @ needle @ vs"
      using IH by (auto simp: is_prefix_of_iff)
    then show "\<exists>us vs. c # hay = us @ needle @ vs"
    proof cases
      case 1
      then show ?thesis by (metis append_Nil)
    next
      case 2
      then show ?thesis by (metis append_Cons)
    qed
  next
    assume "\<exists>us vs. c # hay = us @ needle @ vs"
    then obtain us vs where *: "c # hay = us @ needle @ vs" by blast
    show "strstr_b (c # hay) needle"
    proof (cases us)
      case Nil
      with * have "is_prefix_of needle (c # hay)" by (auto simp: is_prefix_of_iff)
      then show ?thesis by simp
    next
      case (Cons u us')
      with * have "\<exists>us vs. hay = us @ needle @ vs" by auto
      with IH show ?thesis by simp
    qed
  qed
qed

end
