(* ===== verification/Grid_Alloc.thy ===== *)
theory Grid_Alloc
  imports RK_Prelude
begin

text \<open>
  The contract the two grid allocators of the program share: the button matrix
  (\<open>ui_btnmatrix.c\<close>) and the tile layout (\<open>layout/tile_layout.c\<close>) both keep a map of
  occupied cells, look for the first free rectangle row by row and mark it. The locale
  \<open>grid\<close> states what the map operations promise over the set of occupied cells; its
  sublocale \<open>placer\<close> states what one placement promises; the clients of both rest on the
  lemmas proved here once.
\<close>

subsection \<open>Rectangles of cells\<close>

type_synonym cell = "int \<times> int"
type_synonym placement = "int \<times> int \<times> int \<times> int"

definition rect :: "int \<Rightarrow> int \<Rightarrow> int \<Rightarrow> int \<Rightarrow> cell set" where
  "rect x y w h = {x..<x + w} \<times> {y..<y + h}"

definition prect :: "placement \<Rightarrow> cell set" where
  "prect p = (case p of (x, y, w, h) \<Rightarrow> rect x y w h)"

lemma mem_rect [simp]: "(a, b) \<in> rect x y w h \<longleftrightarrow> x \<le> a \<and> a < x + w \<and> y \<le> b \<and> b < y + h"
  by (auto simp: rect_def)

lemma rect_subset_origin:
  assumes "0 < w" "0 < h"
  shows "rect x y w h \<subseteq> rect 0 0 C R \<longleftrightarrow> 0 \<le> x \<and> 0 \<le> y \<and> x + w \<le> C \<and> y + h \<le> R"
proof
  assume *: "rect x y w h \<subseteq> rect 0 0 C R"
  from assms have "(x, y) \<in> rect x y w h" "(x + w - 1, y + h - 1) \<in> rect x y w h" by auto
  with * have "(x, y) \<in> rect 0 0 C R" "(x + w - 1, y + h - 1) \<in> rect 0 0 C R" by blast+
  then show "0 \<le> x \<and> 0 \<le> y \<and> x + w \<le> C \<and> y + h \<le> R" by auto
qed auto

lemma rect_decompose:
  "(\<forall>i \<in> {0..h - 1}. \<forall>j \<in> {0..w - 1}. P (x + j) (y + i)) \<longleftrightarrow> (\<forall>(a, b) \<in> rect x y w h. P a b)"
    (is "?L \<longleftrightarrow> ?R")
proof
  assume L: ?L
  show ?R
  proof clarify
    fix a b
    assume "(a, b) \<in> rect x y w h"
    then have "b - y \<in> {0..h - 1}" "a - x \<in> {0..w - 1}" by auto
    with L have "P (x + (a - x)) (y + (b - y))" by blast
    then show "P a b" by simp
  qed
qed auto

text \<open>
  A placed list of rectangles: all inside the grid, no two sharing a cell, and together
  exactly the occupied cells.
\<close>

definition tiling :: "cell set \<Rightarrow> cell set \<Rightarrow> placement list \<Rightarrow> bool" where
  "tiling cells occ ps \<longleftrightarrow>
     (\<forall>p \<in> set ps. prect p \<subseteq> cells) \<and>
     sorted_wrt (\<lambda>p q. prect p \<inter> prect q = {}) ps \<and>
     occ = \<Union> (prect ` set ps)"

lemma tiling_Nil [simp]: "tiling cells {} []"
  by (simp add: tiling_def)

lemma tiling_snoc:
  assumes "tiling cells occ ps" and "prect p \<subseteq> cells" and "prect p \<inter> occ = {}"
  shows "tiling cells (occ \<union> prect p) (ps @ [p])"
  using assms by (auto simp: tiling_def sorted_wrt_append)

lemma tiling_disjoint:
  assumes "tiling cells occ ps" and "i < j" and "j < length ps"
  shows "prect (ps ! i) \<inter> prect (ps ! j) = {}"
  using assms by (auto simp: tiling_def sorted_wrt_iff_nth_less)

subsection \<open>Loops over the cells of a rectangle\<close>

text \<open>
  A test of the cells row by row that reports failure at the first cell outside the grid
  needs to be defined on the grid and its border only.
\<close>

lemma forall_c_rect:
  assumes w: "0 < w" and xy: "x < C" "y < R"
    and P: "\<And>i j. 0 \<le> i \<Longrightarrow> 0 \<le> j \<Longrightarrow> x + j \<le> C \<Longrightarrow> y + i \<le> R \<Longrightarrow>
      P i j = Some (x + j < C \<and> y + i < R \<and> F i j)"
  shows "forall_c (\<lambda>i. forall_c (P i) [0..w - 1]) [0..h - 1] =
    Some (\<forall>i \<in> {0..h - 1}. \<forall>j \<in> {0..w - 1}. x + j < C \<and> y + i < R \<and> F i j)"
proof -
  have row: "forall_c (P i) [0..w - 1] =
      Some (\<forall>j \<in> {0..w - 1}. x + j < C \<and> y + i < R \<and> F i j)" if "0 \<le> i" "y + i \<le> R" for i
  proof (rule forall_c_upto)
    fix k
    assume k: "0 \<le> k" "k \<le> w - 1" and "\<forall>l \<in> {0..<k}. x + l < C \<and> y + i < R \<and> F i l"
    then have "x + k \<le> C" using xy by (cases "k = 0") (auto dest!: bspec [of _ _ "k - 1"])
    with P that k show "P i k = Some (x + k < C \<and> y + i < R \<and> F i k)" by simp
  qed
  show ?thesis
  proof (rule forall_c_upto)
    fix k
    assume k: "0 \<le> k" "k \<le> h - 1"
      and *: "\<forall>l \<in> {0..<k}. \<forall>j \<in> {0..w - 1}. x + j < C \<and> y + l < R \<and> F l j"
    have "y + k \<le> R"
    proof (cases "k = 0")
      case False
      with k have "k - 1 \<in> {0..<k}" by simp
      with * have "\<forall>j \<in> {0..w - 1}. y + (k - 1) < R" by blast
      moreover have "0 \<in> {0..w - 1}" using w by simp
      ultimately have "y + (k - 1) < R" by blast
      then show ?thesis by simp
    qed (use xy in simp)
    with k row show "forall_c (P k) [0..w - 1] =
        Some (\<forall>j \<in> {0..w - 1}. x + j < C \<and> y + k < R \<and> F k j)" by simp
  qed
qed

lemma each_c_rect:
  assumes "R S m"
    and step: "\<And>i j S m. 0 \<le> i \<Longrightarrow> i < h \<Longrightarrow> 0 \<le> j \<Longrightarrow> j < w \<Longrightarrow> R S m \<Longrightarrow>
      \<exists>m'. f i j m = Some m' \<and> R (S \<union> {(x + j, y + i)}) m'"
  shows "\<exists>m'. each_c (\<lambda>i. each_c (f i) [0..w - 1]) [0..h - 1] m = Some m' \<and> R (S \<union> rect x y w h) m'"
proof -
  have row: "\<exists>m'. each_c (f i) [0..w - 1] m = Some m' \<and> R (S \<union> (\<Union>j \<in> set [0..w - 1]. {(x + j, y + i)})) m'"
    if "i \<in> set [0..h - 1]" "R S m" for i S m
    by (rule each_c_collect [where R = R, OF that(2)]) (use that(1) step in auto)
  have "\<exists>m'. each_c (\<lambda>i. each_c (f i) [0..w - 1]) [0..h - 1] m = Some m' \<and>
      R (S \<union> (\<Union>i \<in> set [0..h - 1]. \<Union>j \<in> set [0..w - 1]. {(x + j, y + i)})) m'"
    by (rule each_c_collect [where R = R]) (use assms(1) row in auto)
  moreover have "(\<Union>i \<in> set [0..h - 1]. \<Union>j \<in> set [0..w - 1]. {(x + j, y + i)}) = rect x y w h"
  proof -
    have "(a, b) \<in> (\<Union>i \<in> set [0..h - 1]. \<Union>j \<in> set [0..w - 1]. {(x + j, y + i)}) \<longleftrightarrow>
        (a, b) \<in> rect x y w h" for a b
      by (force intro: bexI [of _ "b - y"] bexI [of _ "a - x"])
    then show ?thesis by (intro set_eqI) (metis surj_pair)
  qed
  ultimately show ?thesis by simp
qed

subsection \<open>One placement\<close>

text \<open>
  The search both allocators run: the first candidate whose rectangle is free is marked and
  returned; \<open>None\<close> is an access outside the map, \<open>Some None\<close> is no room.
\<close>

definition grid_place ::
  "('g \<Rightarrow> int \<Rightarrow> int \<Rightarrow> int \<Rightarrow> int \<Rightarrow> bool option) \<Rightarrow> ('g \<Rightarrow> int \<Rightarrow> int \<Rightarrow> int \<Rightarrow> int \<Rightarrow> 'g option) \<Rightarrow>
   ('g \<Rightarrow> int \<Rightarrow> int \<Rightarrow> cell list) \<Rightarrow> 'g \<Rightarrow> int \<Rightarrow> int \<Rightarrow> (cell \<times> 'g) option option" where
  "grid_place is_free fill cands g w h =
     (case find_c (\<lambda>(x, y). is_free g x y w h) (cands g w h) of
        None \<Rightarrow> None
      | Some None \<Rightarrow> Some None
      | Some (Some (x, y)) \<Rightarrow>
          (case fill g x y w h of None \<Rightarrow> None | Some g' \<Rightarrow> Some (Some ((x, y), g'))))"

locale placer =
  fixes ok :: "'g \<Rightarrow> bool"
    and cells :: "'g \<Rightarrow> cell set"
    and occ :: "'g \<Rightarrow> cell set"
    and place :: "'g \<Rightarrow> int \<Rightarrow> int \<Rightarrow> (cell \<times> 'g) option option"
  assumes place_total: "ok g \<Longrightarrow> 0 < w \<Longrightarrow> 0 < h \<Longrightarrow> place g w h \<noteq> None"
    and place_None: "ok g \<Longrightarrow> 0 < w \<Longrightarrow> 0 < h \<Longrightarrow> place g w h = Some None \<Longrightarrow>
      rect x y w h \<subseteq> cells g \<Longrightarrow> rect x y w h \<inter> occ g \<noteq> {}"
    and place_Some: "ok g \<Longrightarrow> 0 < w \<Longrightarrow> 0 < h \<Longrightarrow> place g w h = Some (Some ((x, y), g')) \<Longrightarrow>
      rect x y w h \<subseteq> cells g \<and> rect x y w h \<inter> occ g = {} \<and>
      ok g' \<and> cells g' = cells g \<and> occ g' = occ g \<union> rect x y w h"
begin

lemma place_tiling:
  assumes "ok g" "0 < w" "0 < h" and "place g w h = Some (Some ((x, y), g'))"
    and "tiling (cells g) (occ g) ps"
  shows "tiling (cells g') (occ g') (ps @ [(x, y, w, h)])"
  using place_Some [OF assms(1-4)] tiling_snoc [OF assms(5), of "(x, y, w, h)"]
  by (simp add: prect_def)

lemma place_fits_empty:
  assumes "ok g" "0 < w" "0 < h" "occ g = {}" and "rect x y w h \<subseteq> cells g"
  shows "\<exists>p g'. place g w h = Some (Some (p, g'))"
proof (cases "place g w h")
  case None
  then show ?thesis using place_total [OF assms(1-3)] by simp
next
  case (Some r)
  then show ?thesis
    using place_None [OF assms(1-3), of x y] assms(4,5) by (cases r) auto
qed

lemma place_too_large:
  assumes "ok g" "0 < w" "0 < h" and "\<And>x y. \<not> rect x y w h \<subseteq> cells g"
  shows "place g w h = Some None"
proof (cases "place g w h")
  case None
  then show ?thesis using place_total [OF assms(1-3)] by simp
next
  case (Some r)
  show ?thesis
  proof (cases r)
    case None
    with Some show ?thesis by simp
  next
    case (Some p)
    with \<open>place g w h = Some r\<close> obtain x y g' where "place g w h = Some (Some ((x, y), g'))"
      by (cases p) auto
    then show ?thesis using place_Some [OF assms(1-3)] assms(4) by blast
  qed
qed

end

locale grid =
  fixes ok :: "'g \<Rightarrow> bool"
    and cells :: "'g \<Rightarrow> cell set"
    and occ :: "'g \<Rightarrow> cell set"
    and is_free :: "'g \<Rightarrow> int \<Rightarrow> int \<Rightarrow> int \<Rightarrow> int \<Rightarrow> bool option"
    and fill :: "'g \<Rightarrow> int \<Rightarrow> int \<Rightarrow> int \<Rightarrow> int \<Rightarrow> 'g option"
    and cands :: "'g \<Rightarrow> int \<Rightarrow> int \<Rightarrow> cell list"
  assumes is_free: "ok g \<Longrightarrow> 0 < w \<Longrightarrow> 0 < h \<Longrightarrow> (x, y) \<in> set (cands g w h) \<Longrightarrow>
      is_free g x y w h = Some (rect x y w h \<subseteq> cells g \<and> rect x y w h \<inter> occ g = {})"
    and fill: "ok g \<Longrightarrow> 0 < w \<Longrightarrow> 0 < h \<Longrightarrow> rect x y w h \<subseteq> cells g \<Longrightarrow>
      \<exists>g'. fill g x y w h = Some g' \<and> ok g' \<and> cells g' = cells g \<and> occ g' = occ g \<union> rect x y w h"
    and cands: "ok g \<Longrightarrow> 0 < w \<Longrightarrow> 0 < h \<Longrightarrow> rect x y w h \<subseteq> cells g \<Longrightarrow> (x, y) \<in> set (cands g w h)"
begin

lemma search:
  assumes "ok g" "0 < w" "0 < h"
  shows "find_c (\<lambda>(x, y). is_free g x y w h) (cands g w h) =
    Some (List.find (\<lambda>(x, y). rect x y w h \<subseteq> cells g \<and> rect x y w h \<inter> occ g = {}) (cands g w h))"
  using is_free [OF assms] by (intro find_c_total) auto

lemma placed:
  assumes ok: "ok g" "0 < w" "0 < h"
    and "grid_place is_free fill cands g w h = Some (Some ((x, y), g'))"
  shows "rect x y w h \<subseteq> cells g \<and> rect x y w h \<inter> occ g = {} \<and>
      ok g' \<and> cells g' = cells g \<and> occ g' = occ g \<union> rect x y w h"
proof -
  from assms(4) have f: "List.find (\<lambda>(x, y). rect x y w h \<subseteq> cells g \<and> rect x y w h \<inter> occ g = {})
      (cands g w h) = Some (x, y)" and g': "fill g x y w h = Some g'"
    by (auto simp: grid_place_def search [OF ok] split: option.splits)
  from find_SomeD [OF f] have "rect x y w h \<subseteq> cells g" "rect x y w h \<inter> occ g = {}" by auto
  with fill [OF ok] g' show ?thesis by force
qed

lemma not_placed:
  assumes ok: "ok g" "0 < w" "0 < h" and "grid_place is_free fill cands g w h = Some None"
    and "rect x y w h \<subseteq> cells g"
  shows "rect x y w h \<inter> occ g \<noteq> {}"
proof -
  from assms(4) have f: "List.find (\<lambda>(x, y). rect x y w h \<subseteq> cells g \<and> rect x y w h \<inter> occ g = {})
      (cands g w h) = None"
    by (auto simp: grid_place_def search [OF ok] split: option.splits)
  from find_NoneD [OF f cands [OF ok assms(5)]] assms(5) show ?thesis by auto
qed

lemma place_defined:
  assumes ok: "ok g" "0 < w" "0 < h"
  shows "grid_place is_free fill cands g w h \<noteq> None"
proof -
  have "\<exists>g'. fill g x y w h = Some g'"
    if "List.find (\<lambda>(x, y). rect x y w h \<subseteq> cells g \<and> rect x y w h \<inter> occ g = {})
      (cands g w h) = Some (x, y)" for x y
    using find_SomeD [OF that] fill [OF ok] by fastforce
  then show ?thesis
    by (fastforce simp: grid_place_def search [OF ok] split: option.splits)
qed

end

sublocale grid \<subseteq> placer ok cells occ "grid_place is_free fill cands"
  by unfold_locales (use place_defined not_placed placed in auto)

end
