(* ===== verification/Btn_Matrix.thy ===== *)
theory Btn_Matrix
  imports Grid_Alloc
begin

text \<open>
  \<open>ui_btnmatrix.c\<close>: the button matrix. The map of occupied cells is the C array \<open>map\<close>,
  \<open>cols * rows\<close> integers, addressed from a base offset with a stride as the C pointers are.
  LVGL is not part of the repository: the objects and calls it receives are recorded as the
  result, one entry per button (what creates the object, its grid cell, the callback that
  is registered, the draw function called), and the template terminator
  \<open>LV_GRID_TEMPLATE_LAST\<close> is the parameter \<open>tmpl_last\<close>.
\<close>

subsection \<open>Data\<close>

record btn_desc =
  bd_area :: "int \<times> int \<times> int \<times> int"
  bd_w :: int
  bd_h :: int
  bd_create :: "nat option"
  bd_draw :: "nat option"
  bd_cb :: "nat option"
  bd_user_data :: int

record btn_matrix_desc =
  col_dsc :: "int list"
  row_dsc :: "int list"
  bm_pad :: int
  bm_gap :: int
  bm_desc :: "btn_desc list"

record placed_btn =
  pb_index :: nat
  pb_create :: "nat option"
  pb_cell :: placement
  pb_event :: "(nat \<times> int) option"
  pb_draw :: "nat option"

record bmap =
  bm_cols :: int
  bm_rows :: int
  bm_map :: "int list"

subsection \<open>Counting the template entries\<close>

text \<open>
  The loop \<open>while (*tmp != LV_GRID_TEMPLATE_LAST)\<close>. Running over the end of the array is
  \<open>Overrun\<close>; more than 100 entries is the error return.
\<close>

datatype dsc_count = Count int | Invalid_dsc | Overrun

fun count_dsc :: "int \<Rightarrow> int list \<Rightarrow> int \<Rightarrow> dsc_count" where
  "count_dsc tmpl_last [] n = Overrun"
| "count_dsc tmpl_last (d # ds) n =
     (if d = tmpl_last then Count n
      else if n + 1 > 100 then Invalid_dsc
      else count_dsc tmpl_last ds (n + 1))"

subsection \<open>The map of cells\<close>

definition area_empty :: "int list \<Rightarrow> int \<Rightarrow> int \<Rightarrow> int \<Rightarrow> int \<Rightarrow> bool option" where
  "area_empty m base w h stride =
     forall_c (\<lambda>i. forall_c (\<lambda>j. map_option (\<lambda>v. v = 0) (rd m (base + (i * stride + j))))
       [0..w - 1]) [0..h - 1]"

definition area_fill :: "int list \<Rightarrow> int \<Rightarrow> int \<Rightarrow> int \<Rightarrow> int \<Rightarrow> int list option" where
  "area_fill m base w h stride =
     each_c (\<lambda>i. each_c (\<lambda>j m. wr m (base + (i * stride + j)) 1) [0..w - 1]) [0..h - 1] m"

definition bmap_free :: "bmap \<Rightarrow> int \<Rightarrow> int \<Rightarrow> int \<Rightarrow> int \<Rightarrow> bool option" where
  "bmap_free g c r w h = area_empty (bm_map g) (r * bm_cols g + c) w h (bm_cols g)"

definition bmap_fill :: "bmap \<Rightarrow> int \<Rightarrow> int \<Rightarrow> int \<Rightarrow> int \<Rightarrow> bmap option" where
  "bmap_fill g x y w h =
     map_option (\<lambda>m. g\<lparr>bm_map := m\<rparr>)
       (area_fill (bm_map g) (y * bm_cols g + x) w h (bm_cols g))"

text \<open>The order of the two nested loops over \<open>r\<close> and \<open>c\<close>.\<close>

definition bmap_cands :: "bmap \<Rightarrow> int \<Rightarrow> int \<Rightarrow> cell list" where
  "bmap_cands g w h =
     map (\<lambda>(r, c). (c, r)) (List.product [0..bm_rows g - h] [0..bm_cols g - w])"

definition bmap_place :: "bmap \<Rightarrow> int \<Rightarrow> int \<Rightarrow> (cell \<times> bmap) option option" where
  "bmap_place = grid_place bmap_free bmap_fill bmap_cands"

subsection \<open>The loop over the buttons\<close>

text \<open>What is done once the cell of button \<open>i\<close> is known (lines 151 to 188).\<close>

definition emit_btn :: "nat \<Rightarrow> btn_desc \<Rightarrow> placement \<Rightarrow> placed_btn" where
  "emit_btn i d p = \<lparr>pb_index = i, pb_create = bd_create d, pb_cell = p,
     pb_event = map_option (\<lambda>cb. (cb, bd_user_data d)) (bd_cb d), pb_draw = bd_draw d\<rparr>"

definition create_btn :: "nat \<Rightarrow> btn_desc \<Rightarrow> bmap \<Rightarrow> (placed_btn option \<times> bmap) option" where
  "create_btn i d g =
     (if bd_w d > bm_cols g \<or> bd_h d > bm_rows g then Some (None, g)
      else if bd_w d \<noteq> 0 \<or> bd_h d \<noteq> 0 then
        (case bmap_place g (bd_w d) (bd_h d) of
           None \<Rightarrow> None
         | Some None \<Rightarrow> Some (None, g)
         | Some (Some ((x, y), g')) \<Rightarrow>
             Some (Some (emit_btn i d (x, y, bd_w d, bd_h d)), g'))
      else
        (case bd_area d of (x1, y1, x2, y2) \<Rightarrow>
           Some (Some (emit_btn i d (x1, y1, x2 - x1, y2 - y1)), g)))"

fun create_btns :: "nat \<Rightarrow> btn_desc list \<Rightarrow> bmap \<Rightarrow> (placed_btn list \<times> bmap) option" where
  "create_btns i [] g = Some ([], g)"
| "create_btns i (d # ds) g =
     (case create_btn i d g of
        None \<Rightarrow> None
      | Some (r, g') \<Rightarrow>
          (case create_btns (Suc i) ds g' of
             None \<Rightarrow> None
           | Some (bs, g'') \<Rightarrow>
               Some ((case r of None \<Rightarrow> bs | Some b \<Rightarrow> b # bs), g'')))"

text \<open>\<open>calloc (cols * rows, sizeof (lv_coord_t))\<close>\<close>

definition empty_bmap :: "int \<Rightarrow> int \<Rightarrow> bmap" where
  "empty_bmap cols rows = \<lparr>bm_cols = cols, bm_rows = rows, bm_map = replicate (nat (cols * rows)) 0\<rparr>"

lemma empty_bmap_sel [simp]: "bm_cols (empty_bmap c r) = c" "bm_rows (empty_bmap c r) = r"
  by (simp_all add: empty_bmap_def)

datatype btnmatrix_result =
    Null_return
  | Memory_fault
  | Matrix "placed_btn list"

definition ui_btnmatrix_create :: "int \<Rightarrow> btn_matrix_desc \<Rightarrow> btnmatrix_result" where
  "ui_btnmatrix_create tmpl_last desc =
     (case count_dsc tmpl_last (col_dsc desc) 0 of
        Overrun \<Rightarrow> Memory_fault
      | Invalid_dsc \<Rightarrow> Null_return
      | Count cols \<Rightarrow>
          (case count_dsc tmpl_last (row_dsc desc) 0 of
             Overrun \<Rightarrow> Memory_fault
           | Invalid_dsc \<Rightarrow> Null_return
           | Count rows \<Rightarrow>
               (case create_btns 0 (bm_desc desc) (empty_bmap cols rows) of
                  None \<Rightarrow> Memory_fault
                | Some (bs, g) \<Rightarrow> Matrix bs)))"

subsection \<open>The map implements a set of cells\<close>

definition bmap_ok :: "bmap \<Rightarrow> bool" where
  "bmap_ok g \<longleftrightarrow> 0 \<le> bm_cols g \<and> 0 \<le> bm_rows g \<and> int (length (bm_map g)) = bm_cols g * bm_rows g"

definition bmap_cells :: "bmap \<Rightarrow> cell set" where
  "bmap_cells g = rect 0 0 (bm_cols g) (bm_rows g)"

lemma bmap_cells_map [simp]: "bmap_cells (g\<lparr>bm_map := m\<rparr>) = bmap_cells g"
  by (simp add: bmap_cells_def)

definition bmap_occ :: "bmap \<Rightarrow> cell set" where
  "bmap_occ g = {(x, y) \<in> bmap_cells g. rd (bm_map g) (y * bm_cols g + x) \<noteq> Some 0}"

lemma cell_index_bounds:
  assumes "0 \<le> x" "x < (C::int)" "0 \<le> y" "y < R"
  shows "0 \<le> y * C + x" and "y * C + x < C * R"
proof -
  from assms show "0 \<le> y * C + x" by simp
  from assms have "y * C + x < (y + 1) * C" by (simp add: algebra_simps)
  also from assms have "\<dots> \<le> R * C" by (intro mult_right_mono) auto
  finally show "y * C + x < C * R" by (simp add: mult.commute)
qed

lemma cell_index_inj:
  assumes "0 \<le> x" "x < (C::int)" "0 \<le> x'" "x' < C" and "y * C + x = y' * C + x'"
  shows "x = x' \<and> y = y'"
proof -
  have "(y * C + x) mod C = x" "(y' * C + x') mod C = x'" using assms(1-4) by auto
  with assms(5) have x: "x = x'" by metis
  with assms(1,2,5) show ?thesis by simp
qed

lemma bmap_rd:
  assumes "bmap_ok g" and "(x, y) \<in> bmap_cells g"
  shows "rd (bm_map g) (y * bm_cols g + x) = Some (bm_map g ! nat (y * bm_cols g + x))"
proof -
  have "0 \<le> y * bm_cols g + x" "y * bm_cols g + x < bm_cols g * bm_rows g"
    using cell_index_bounds [of x "bm_cols g" y "bm_rows g"] assms(2)
    by (auto simp: bmap_cells_def)
  with assms(1) show ?thesis by (simp add: bmap_ok_def access_simps)
qed

lemma area_empty_eq:
  "area_empty m (r * C + c) w h C =
     forall_c (\<lambda>i. forall_c (\<lambda>j. map_option (\<lambda>v. v = 0) (rd m ((r + i) * C + (c + j))))
       [0..w - 1]) [0..h - 1]"
  by (simp add: area_empty_def algebra_simps)

lemma bmap_free_eq:
  assumes ok: "bmap_ok g" and inside: "rect x y w h \<subseteq> bmap_cells g"
  shows "bmap_free g x y w h = Some (rect x y w h \<inter> bmap_occ g = {})"
proof -
  let ?free = "\<lambda>a b. rd (bm_map g) (b * bm_cols g + a) = Some 0"
  have row: "map_option (\<lambda>v. v = 0) (rd (bm_map g) ((y + i) * bm_cols g + (x + j)))
      = Some (?free (x + j) (y + i))"
    if "i \<in> set [0..h - 1]" "j \<in> set [0..w - 1]" for i j
  proof -
    from that have "(x + j, y + i) \<in> rect x y w h" by auto
    then have "(x + j, y + i) \<in> bmap_cells g" using inside by blast
    from bmap_rd [OF ok this] show ?thesis by auto
  qed
  have "bmap_free g x y w h =
      Some (\<forall>i \<in> set [0..h - 1]. \<forall>j \<in> set [0..w - 1]. ?free (x + j) (y + i))"
    unfolding bmap_free_def area_empty_eq
    by (intro forall_c_total forall_c_total row) auto
  also have "\<dots> = Some (\<forall>(a, b) \<in> rect x y w h. ?free a b)"
    using rect_decompose [where P = ?free and x = x and y = y and w = w and h = h] by simp
  also have "\<dots> = Some (rect x y w h \<inter> bmap_occ g = {})"
    using inside by (auto simp: bmap_occ_def)
  finally show ?thesis .
qed

lemma bmap_cands_mem:
  "(c, r) \<in> set (bmap_cands g w h) \<longleftrightarrow> 0 \<le> c \<and> c \<le> bm_cols g - w \<and> 0 \<le> r \<and> r \<le> bm_rows g - h"
  by (auto simp: bmap_cands_def image_iff)

lemma bmap_mark_cell:
  assumes ok: "bmap_ok g" and inside: "(a, b) \<in> bmap_cells g"
  shows "\<exists>m. wr (bm_map g) (b * bm_cols g + a) 1 = Some m \<and> bmap_ok (g\<lparr>bm_map := m\<rparr>) \<and>
      bmap_occ (g\<lparr>bm_map := m\<rparr>) = bmap_occ g \<union> {(a, b)}"
proof -
  have "0 \<le> b * bm_cols g + a" "b * bm_cols g + a < int (length (bm_map g))"
    using cell_index_bounds [of a "bm_cols g" b "bm_rows g"] inside ok
    by (auto simp: bmap_cells_def bmap_ok_def)
  then obtain m where m: "wr (bm_map g) (b * bm_cols g + a) 1 = Some m"
    by (simp add: access_simps)
  have eq: "d * bm_cols g + c = b * bm_cols g + a \<longleftrightarrow> c = a \<and> d = b"
    if "(c, d) \<in> bmap_cells g" for c d
    using that inside cell_index_inj [of c "bm_cols g" a d b] by (auto simp: bmap_cells_def)
  have "bmap_occ (g\<lparr>bm_map := m\<rparr>) = bmap_occ g \<union> {(a, b)}"
    using inside by (auto simp: bmap_occ_def rd_wr [OF m] eq)
  with m ok wr_length [OF m] show ?thesis by (auto simp: bmap_ok_def)
qed

lemma area_fill_eq:
  "area_fill m (r * C + c) w h C =
     each_c (\<lambda>i. each_c (\<lambda>j m. wr m ((r + i) * C + (c + j)) 1) [0..w - 1]) [0..h - 1] m"
  by (simp add: area_fill_def algebra_simps)

lemma bmap_fill_eq:
  assumes ok: "bmap_ok g" and inside: "rect x y w h \<subseteq> bmap_cells g"
  shows "\<exists>g'. bmap_fill g x y w h = Some g' \<and> bmap_ok g' \<and> bmap_cells g' = bmap_cells g \<and>
      bmap_occ g' = bmap_occ g \<union> rect x y w h"
proof -
  let ?R = "\<lambda>S m. bmap_ok (g\<lparr>bm_map := m\<rparr>) \<and> bmap_occ (g\<lparr>bm_map := m\<rparr>) = S"
  have "\<exists>m'. each_c (\<lambda>i. each_c (\<lambda>j m. wr m ((y + i) * bm_cols g + (x + j)) 1) [0..w - 1])
      [0..h - 1] (bm_map g) = Some m' \<and> ?R (bmap_occ g \<union> rect x y w h) m'"
  proof (rule each_c_rect [where R = ?R])
    fix i j S m
    assume ij: "0 \<le> i" "i < h" "0 \<le> j" "j < w" and R: "?R S m"
    then have "(x + j, y + i) \<in> rect x y w h" by auto
    with inside have "(x + j, y + i) \<in> bmap_cells (g\<lparr>bm_map := m\<rparr>)" by auto
    from bmap_mark_cell [OF _ this] R
    show "\<exists>m'. wr m ((y + i) * bm_cols g + (x + j)) 1 = Some m' \<and> ?R (S \<union> {(x + j, y + i)}) m'" by auto
  qed (use ok in auto)
  then show ?thesis
    by (auto simp: bmap_fill_def area_fill_eq bmap_cells_def)
qed

interpretation bm: grid bmap_ok bmap_cells bmap_occ bmap_free bmap_fill bmap_cands
proof
  fix g :: bmap and x y w h :: int
  assume ok: "bmap_ok g" and wh: "0 < w" "0 < h"
  show "bmap_free g x y w h = Some (rect x y w h \<subseteq> bmap_cells g \<and> rect x y w h \<inter> bmap_occ g = {})"
    if "(x, y) \<in> set (bmap_cands g w h)"
  proof -
    from that wh have "rect x y w h \<subseteq> bmap_cells g"
      by (simp add: bmap_cands_mem bmap_cells_def rect_subset_origin)
    with bmap_free_eq [OF ok this] show ?thesis by simp
  qed
  show "\<exists>g'. bmap_fill g x y w h = Some g' \<and> bmap_ok g' \<and> bmap_cells g' = bmap_cells g \<and>
      bmap_occ g' = bmap_occ g \<union> rect x y w h" if "rect x y w h \<subseteq> bmap_cells g"
    using that by (rule bmap_fill_eq [OF ok])
  show "(x, y) \<in> set (bmap_cands g w h)" if "rect x y w h \<subseteq> bmap_cells g"
    using that wh by (simp add: bmap_cands_mem bmap_cells_def rect_subset_origin)
qed

lemmas bmap_place_laws =
  bm.place_total [folded bmap_place_def] bm.place_None [folded bmap_place_def]
  bm.place_Some [folded bmap_place_def] bm.place_fits_empty [folded bmap_place_def]

subsection \<open>Memory safety and disjointness of the buttons\<close>

definition sized :: "btn_desc \<Rightarrow> bool" where
  "sized d \<longleftrightarrow> 0 < bd_w d \<and> 0 < bd_h d"

definition by_area :: "btn_desc \<Rightarrow> bool" where
  "by_area d \<longleftrightarrow> bd_w d = 0 \<and> bd_h d = 0"

lemma emit_btn_sel [simp]:
  "pb_cell (emit_btn i d p) = p" "pb_index (emit_btn i d p) = i"
  "pb_draw (emit_btn i d p) = bd_draw d" "pb_create (emit_btn i d p) = bd_create d"
  "pb_event (emit_btn i d p) = map_option (\<lambda>cb. (cb, bd_user_data d)) (bd_cb d)"
  by (simp_all add: emit_btn_def)

lemma create_btn_area:
  "bmap_ok g \<Longrightarrow> by_area d \<Longrightarrow> \<exists>b. create_btn i d g = Some (Some b, g)"
  by (cases "bd_area d") (auto simp: create_btn_def by_area_def bmap_ok_def)

text \<open>One sized button: placed on free cells of the grid, or left out for want of room.\<close>

lemma create_btn_sized:
  assumes ok: "bmap_ok g" and d: "sized d"
  obtains (skipped) "create_btn i d g = Some (None, g)"
      "\<And>x y. rect x y (bd_w d) (bd_h d) \<subseteq> bmap_cells g \<Longrightarrow> rect x y (bd_w d) (bd_h d) \<inter> bmap_occ g \<noteq> {}"
  | (placed) x y g' where
      "create_btn i d g = Some (Some (emit_btn i d (x, y, bd_w d, bd_h d)), g')"
      "rect x y (bd_w d) (bd_h d) \<subseteq> bmap_cells g" "rect x y (bd_w d) (bd_h d) \<inter> bmap_occ g = {}"
      "bmap_ok g'" "bmap_cells g' = bmap_cells g"
      "bmap_occ g' = bmap_occ g \<union> rect x y (bd_w d) (bd_h d)"
proof -
  from d have wh: "0 < bd_w d" "0 < bd_h d" by (auto simp: sized_def)
  show ?thesis
  proof (cases "bd_w d > bm_cols g \<or> bd_h d > bm_rows g")
    case True
    have "\<not> rect x y (bd_w d) (bd_h d) \<subseteq> bmap_cells g" for x y
      using True wh by (auto simp: bmap_cells_def rect_subset_origin)
    with True show ?thesis by (intro skipped) (auto simp: create_btn_def)
  next
    case False
    from bmap_place_laws(1) [OF ok wh] obtain r where r: "bmap_place g (bd_w d) (bd_h d) = Some r"
      by blast
    show ?thesis
    proof (cases r)
      case None
      with r False wh show ?thesis
        by (intro skipped) (simp_all add: create_btn_def bmap_place_laws(2) [OF ok wh])
    next
      case (Some p)
      then obtain x y g' where "r = Some ((x, y), g')" by (cases p) auto
      with r False wh bmap_place_laws(3) [OF ok wh, of x y g'] show ?thesis
        by (intro placed [of x y g']) (simp_all add: create_btn_def)
    qed
  qed
qed

lemma create_btns_safe:
  assumes "bmap_ok g" and "\<forall>d \<in> set ds. sized d \<or> by_area d"
  shows "create_btns i ds g \<noteq> None"
  using assms
proof (induction ds arbitrary: i g)
  case Nil
  then show ?case by simp
next
  case (Cons d ds)
  have "\<exists>r g'. create_btn i d g = Some (r, g') \<and> bmap_ok g'"
  proof (cases "sized d")
    case True
    with Cons.prems(1) show ?thesis
      by (cases rule: create_btn_sized [where i = i]) (use Cons.prems(1) in auto)
  next
    case False
    with Cons.prems create_btn_area [OF Cons.prems(1), of d i] show ?thesis by auto
  qed
  with Cons show ?case by (fastforce split: option.splits)
qed

lemma create_btns_tiling:
  assumes "bmap_ok g" and "\<forall>d \<in> set ds. sized d" and "tiling (bmap_cells g) (bmap_occ g) ps"
    and "create_btns i ds g = Some (bs, g')"
  shows "tiling (bmap_cells g) (bmap_occ g') (ps @ map pb_cell bs)"
  using assms
proof (induction ds arbitrary: i g ps bs)
  case Nil
  then show ?case by simp
next
  case (Cons d ds)
  from Cons.prems(2) have d: "sized d" by simp
  from Cons.prems(1) d show ?case
  proof (cases rule: create_btn_sized [where i = i])
    case skipped
    with Cons show ?thesis by (force split: option.splits)
  next
    case (placed x y g1)
    from placed(1) Cons.prems(4) obtain bs1 where
      bs1: "create_btns (Suc i) ds g1 = Some (bs1, g')"
      and bs: "bs = emit_btn i d (x, y, bd_w d, bd_h d) # bs1"
      by (auto split: option.splits)
    have "tiling (bmap_cells g1) (bmap_occ g1) (ps @ [(x, y, bd_w d, bd_h d)])"
      using tiling_snoc [OF Cons.prems(3), of "(x, y, bd_w d, bd_h d)"] placed
      by (simp add: prect_def)
    from Cons.IH [OF placed(4) _ this bs1] Cons.prems(2) show ?thesis
      by (simp add: placed(5) bs)
  qed
qed

lemma empty_bmap_ok [simp]: "0 \<le> cols \<Longrightarrow> 0 \<le> rows \<Longrightarrow> bmap_ok (empty_bmap cols rows)"
  by (simp add: bmap_ok_def empty_bmap_def)

lemma empty_bmap_occ [simp]:
  assumes "0 \<le> cols" "0 \<le> rows"
  shows "bmap_occ (empty_bmap cols rows) = {}"
proof -
  have "rd (bm_map (empty_bmap cols rows)) (y * cols + x) = Some 0"
    if "(x, y) \<in> bmap_cells (empty_bmap cols rows)" for x y
    using cell_index_bounds [of x cols y rows] that
    by (simp add: bmap_cells_def empty_bmap_def rd_def nat_less_iff)
  then show ?thesis by (auto simp: bmap_occ_def)
qed

lemma count_dsc_terminated:
  assumes "0 \<le> n" "n \<le> 100" "l \<notin> set ds"
  shows "count_dsc l (ds @ l # rest) n =
     (if n + int (length ds) > 100 then Invalid_dsc else Count (n + int (length ds)))"
  using assms by (induction ds arbitrary: n) auto

lemma count_dsc_nonneg: "count_dsc l ds n = Count k \<Longrightarrow> 0 \<le> n \<Longrightarrow> 0 \<le> k"
  by (induction ds arbitrary: n) (auto split: if_splits)

lemma count_dsc_0 [dest]: "count_dsc l ds 0 = Count k \<Longrightarrow> 0 \<le> k"
  by (rule count_dsc_nonneg) auto

lemma count_dsc_overrun: "count_dsc l ds n = Overrun \<Longrightarrow> l \<notin> set ds"
  by (induction ds arbitrary: n) (auto split: if_splits)

text \<open>
  C20. With terminated templates and buttons that have either a positive size or no size at
  all, the matrix is built without any access outside the cell map or the templates.
\<close>

theorem btnmatrix_memory_safe:
  assumes "l \<in> set (col_dsc desc)" and "l \<in> set (row_dsc desc)"
    and "\<forall>d \<in> set (bm_desc desc). sized d \<or> by_area d"
  shows "ui_btnmatrix_create l desc \<noteq> Memory_fault"
proof -
  have "\<exists>p. create_btns 0 (bm_desc desc) (empty_bmap cols rows) = Some p"
    if "count_dsc l (col_dsc desc) 0 = Count cols" "count_dsc l (row_dsc desc) 0 = Count rows"
    for cols rows
    using create_btns_safe [of "empty_bmap cols rows" "bm_desc desc" 0]
      that [THEN count_dsc_0] assms(3) by auto
  with assms(1,2) show ?thesis
    by (cases "count_dsc l (col_dsc desc) 0"; cases "count_dsc l (row_dsc desc) 0")
      (force simp: ui_btnmatrix_create_def dest: count_dsc_overrun)+
qed

text \<open>
  C11. When every button has a positive size, the buttons of the matrix occupy cells of the
  \<open>cols\<close> by \<open>rows\<close> template grid and no two of them share a cell.
\<close>

theorem btnmatrix_no_overlap:
  assumes "count_dsc l (col_dsc desc) 0 = Count cols" and "count_dsc l (row_dsc desc) 0 = Count rows"
    and "\<forall>d \<in> set (bm_desc desc). sized d"
    and "ui_btnmatrix_create l desc = Matrix bs"
  shows "(\<forall>b \<in> set bs. prect (pb_cell b) \<subseteq> rect 0 0 cols rows) \<and>
    sorted_wrt (\<lambda>a b. prect (pb_cell a) \<inter> prect (pb_cell b) = {}) bs"
proof -
  from assms(1,2) have nn: "0 \<le> cols" "0 \<le> rows" by auto
  from assms obtain g where g: "create_btns 0 (bm_desc desc) (empty_bmap cols rows) = Some (bs, g)"
    by (auto simp: ui_btnmatrix_create_def split: option.splits)
  have "tiling (bmap_cells (empty_bmap cols rows)) (bmap_occ g) ([] @ map pb_cell bs)"
    using nn assms(3) g by (intro create_btns_tiling) auto
  then show ?thesis
    by (auto simp: tiling_def bmap_cells_def sorted_wrt_map)
qed

subsection \<open>Unit buttons fill the grid row by row\<close>

definition filled_to :: "bmap \<Rightarrow> nat \<Rightarrow> bool" where
  "filled_to g n \<longleftrightarrow> bmap_ok g \<and>
     bmap_occ g = {(x, y) \<in> bmap_cells g. y * bm_cols g + x < int n}"

lemma unit_cands:
  assumes "0 < bm_cols g"
  shows "bmap_cands g 1 1 =
    map (\<lambda>k. (int k mod bm_cols g, int k div bm_cols g)) [0..<nat (bm_cols g * bm_rows g)]"
proof -
  let ?C = "bm_cols g" and ?R = "bm_rows g"
  have len: "length (bmap_cands g 1 1) = nat (?C * ?R)"
    using assms by (cases "0 \<le> ?R") (auto simp: bmap_cands_def nat_mult_distrib mult.commute mult_nonneg_nonpos)
  have "bmap_cands g 1 1 ! k = (int k mod ?C, int k div ?C)" if "k < nat (?C * ?R)" for k
  proof -
    from that assms have pos: "0 < ?R"
      by (metis mult_nonneg_nonpos not_le not_less_zero nat_0_iff order_less_imp_le)
    with that assms have k: "k < nat ?R * nat ?C" by (simp add: nat_mult_distrib mult.commute)
    with assms have lt: "k div nat ?C < nat ?R" "k mod nat ?C < nat ?C"
      by (auto simp: less_mult_imp_div_less)
    then have "[0..?R - 1] ! (k div nat ?C) = int (k div nat ?C)"
        "[0..?C - 1] ! (k mod nat ?C) = int (k mod nat ?C)"
      by (auto simp: nth_upto)
    with k lt assms show ?thesis
      by (simp add: bmap_cands_def product_nth zdiv_int zmod_int)
  qed
  with len show ?thesis by (intro nth_equalityI) auto
qed

lemma bmap_fill_dims: "bmap_fill g x y w h = Some g' \<Longrightarrow> bm_cols g' = bm_cols g \<and> bm_rows g' = bm_rows g"
  by (auto simp: bmap_fill_def)

lemma rect_unit: "rect x y 1 1 = {(x, y)}"
  by (auto simp: rect_def)

lemma unit_cell:
  assumes "0 \<le> C" "int k < C * R"
  shows "(int k mod C, int k div C) \<in> rect 0 0 C R" "int k div C * C + int k mod C = int k"
proof -
  from assms have "0 < C" by (cases "C = 0") auto
  moreover have "int k div C < R"
  proof -
    have "C * (int k div C) + int k mod C < C * R" using assms(2) by simp
    moreover have "0 \<le> int k mod C" using \<open>0 < C\<close> by simp
    ultimately have "C * (int k div C) < C * R" by linarith
    with \<open>0 < C\<close> show ?thesis by simp
  qed
  ultimately show "(int k mod C, int k div C) \<in> rect 0 0 C R" by (simp add: pos_imp_zdiv_nonneg_iff)
  show "int k div C * C + int k mod C = int k" by simp
qed

lemma unit_place:
  assumes f: "filled_to g n" and n: "int n < bm_cols g * bm_rows g"
  shows "\<exists>g'. bmap_place g 1 1 = Some (Some ((int n mod bm_cols g, int n div bm_cols g), g')) \<and>
    filled_to g' (Suc n) \<and> bm_cols g' = bm_cols g \<and> bm_rows g' = bm_rows g"
proof -
  let ?C = "bm_cols g" and ?R = "bm_rows g"
  let ?f = "\<lambda>k. (int k mod ?C, int k div ?C)"
  let ?Q = "\<lambda>(x, y). rect x y 1 1 \<subseteq> bmap_cells g \<and> rect x y 1 1 \<inter> bmap_occ g = {}"
  from f have ok: "bmap_ok g" and nn: "0 \<le> ?C" by (auto simp: filled_to_def bmap_ok_def)
  with n have C: "0 < ?C" by (cases "?C = 0") auto
  note cell = unit_cell [OF nn, of _ ?R]
  have Q: "?Q (?f k) \<longleftrightarrow> n \<le> k" if "int k < ?C * ?R" for k
    using cell [OF that] f by (auto simp: rect_unit filled_to_def bmap_cells_def)
  have "List.find ?Q (map ?f [0..<nat (?C * ?R)]) = Some (?f n)"
    using n Q by (intro find_map_upt) auto
  moreover have "find_c (\<lambda>(x, y). bmap_free g x y 1 1) (bmap_cands g 1 1) =
      Some (List.find ?Q (bmap_cands g 1 1))"
    by (rule bm.search [OF ok]) auto
  ultimately have find: "find_c (\<lambda>(x, y). bmap_free g x y 1 1) (bmap_cands g 1 1) = Some (Some (?f n))"
    by (simp add: unit_cands [OF C])
  have inside: "rect (int n mod ?C) (int n div ?C) 1 1 \<subseteq> bmap_cells g"
    using Q [OF n] by simp
  from bm.fill [OF ok _ _ this] obtain g' where
    g': "bmap_fill g (int n mod ?C) (int n div ?C) 1 1 = Some g'" "bmap_ok g'"
      "bmap_cells g' = bmap_cells g" "bmap_occ g' = bmap_occ g \<union> rect (int n mod ?C) (int n div ?C) 1 1"
    by auto
  have eq: "y * ?C + x = int n \<longleftrightarrow> (x, y) = ?f n" if "(x, y) \<in> bmap_cells g" for x y
    using that cell [OF n] C cell_index_inj [of x ?C "int n mod ?C" y "int n div ?C"]
    by (auto simp: bmap_cells_def)
  have "bmap_occ g' = {(x, y) \<in> bmap_cells g. y * ?C + x < int (Suc n)}"
  proof -
    have lt: "z < int (Suc n) \<longleftrightarrow> z < int n \<or> z = int n" for z by auto
    show ?thesis
      using f cell(1) [OF n] eq unfolding g'(4) rect_unit filled_to_def lt
      by (auto simp: bmap_cells_def)
  qed
  with g' bmap_fill_dims [OF g'(1)] have "filled_to g' (Suc n)" by (simp add: filled_to_def)
  with find g'(1) bmap_fill_dims [OF g'(1)] show ?thesis
    by (simp add: bmap_place_def grid_place_def)
qed

lemma unit_btns:
  assumes "filled_to g n" and "\<forall>d \<in> set ds. bd_w d = 1 \<and> bd_h d = 1"
    and "int (n + length ds) \<le> bm_cols g * bm_rows g"
  shows "\<exists>bs g'. create_btns i ds g = Some (bs, g') \<and>
    map pb_cell bs = map (\<lambda>k. (int k mod bm_cols g, int k div bm_cols g, 1, 1)) [n..<n + length ds]"
  using assms
proof (induction ds arbitrary: i g n)
  case Nil
  then show ?case by simp
next
  case (Cons d ds)
  let ?C = "bm_cols g"
  from Cons.prems(3) have n: "int n < ?C * bm_rows g" by simp
  from unit_place [OF Cons.prems(1) n] obtain g1 where
    g1: "bmap_place g 1 1 = Some (Some ((int n mod ?C, int n div ?C), g1))" "filled_to g1 (Suc n)"
      "bm_cols g1 = ?C" "bm_rows g1 = bm_rows g" by blast
  from n Cons.prems(1) have "\<not> 1 > ?C" "\<not> 1 > bm_rows g"
    by (auto simp: filled_to_def bmap_ok_def not_less order.order_iff_strict zero_less_mult_iff)
  with g1(1) Cons.prems(2) have c: "create_btn i d g =
      Some (Some (emit_btn i d (int n mod ?C, int n div ?C, 1, 1)), g1)"
    by (simp add: create_btn_def)
  from Cons.IH [OF g1(2), of "Suc i"] Cons.prems g1 obtain bs g' where
    "create_btns (Suc i) ds g1 = Some (bs, g')"
    "map pb_cell bs = map (\<lambda>k. (int k mod ?C, int k div ?C, 1, 1)) [Suc n..<Suc n + length ds]"
    by auto
  moreover have "[n..<n + length (d # ds)] = n # [Suc n..<Suc n + length ds]"
    by (subst upt_conv_Cons) auto
  ultimately show ?case using c by (simp del: upt_Suc)
qed

text \<open>
  A matrix of unit buttons with enough cells shows all of them, button \<open>k\<close> in column
  \<open>k mod cols\<close> and row \<open>k div cols\<close>: the menus appear in the order of their tables.
\<close>

theorem btnmatrix_unit_row_major:
  assumes "count_dsc l (col_dsc desc) 0 = Count cols" and "count_dsc l (row_dsc desc) 0 = Count rows"
    and "\<forall>d \<in> set (bm_desc desc). bd_w d = 1 \<and> bd_h d = 1"
    and "int (length (bm_desc desc)) \<le> cols * rows"
  shows "\<exists>bs. ui_btnmatrix_create l desc = Matrix bs \<and>
    map pb_cell bs = map (\<lambda>k. (int k mod cols, int k div cols, 1, 1)) [0..<length (bm_desc desc)]"
proof -
  from assms(1,2) have nn: "0 \<le> cols" "0 \<le> rows" by auto
  then have "filled_to (empty_bmap cols rows) 0"
    using cell_index_bounds(1) [of _ cols _ rows] by (auto simp: filled_to_def bmap_cells_def not_less)
  from unit_btns [OF this assms(3), of 0] assms(4)
  obtain bs g' where "create_btns 0 (bm_desc desc) (empty_bmap cols rows) = Some (bs, g')"
    "map pb_cell bs = map (\<lambda>k. (int k mod cols, int k div cols, 1, 1)) [0..<length (bm_desc desc)]"
    by auto
  with assms(1,2) show ?thesis by (simp add: ui_btnmatrix_create_def)
qed

subsection \<open>The settings page\<close>

text \<open>
  Cell sizes of the settings page with WiFi and Bluetooth (\<open>setting_ui.c\<close> lines 111 to 191):
  a slider panel two columns wide over five unit buttons, on two columns and four rows.
\<close>

definition unit_btn :: "nat option \<Rightarrow> btn_desc" where
  "unit_btn cb = \<lparr>bd_area = (0, 0, 0, 0), bd_w = 1, bd_h = 1, bd_create = None, bd_draw = Some 0,
     bd_cb = cb, bd_user_data = 0\<rparr>"

definition setting_desc :: "int \<Rightarrow> btn_matrix_desc" where
  "setting_desc l = \<lparr>col_dsc = [200, 200, l], row_dsc = [140, 140, 140, 140, l], bm_pad = 5,
     bm_gap = 20, bm_desc = (unit_btn None)\<lparr>bd_w := 2\<rparr> # replicate 5 (unit_btn (Some 1))\<rparr>"

lemma setting_counts:
  "count_dsc 32767 (col_dsc (setting_desc 32767)) 0 = Count 2"
  "count_dsc 32767 (row_dsc (setting_desc 32767)) 0 = Count 4"
  by (simp_all add: setting_desc_def)

lemma btnmatrix_memory_safe_witness:
  "ui_btnmatrix_create 32767 (setting_desc 32767) \<noteq> Memory_fault"
  by (rule btnmatrix_memory_safe) (auto simp: setting_desc_def unit_btn_def sized_def)

definition matrix_cells :: "btnmatrix_result \<Rightarrow> placement list" where
  "matrix_cells r = (case r of Matrix bs \<Rightarrow> map pb_cell bs | _ \<Rightarrow> [])"

lemma setting_cells:
  "matrix_cells (ui_btnmatrix_create 32767 (setting_desc 32767)) =
     [(0,0,2,1), (0,1,1,1), (1,1,1,1), (0,2,1,1), (1,2,1,1), (0,3,1,1)]"
  by code_simp

lemma btnmatrix_no_overlap_witness:
  "\<exists>bs. ui_btnmatrix_create 32767 (setting_desc 32767) = Matrix bs \<and> bs \<noteq> [] \<and>
     sorted_wrt (\<lambda>a b. prect (pb_cell a) \<inter> prect (pb_cell b) = {}) bs"
proof -
  from setting_cells obtain bs where bs: "ui_btnmatrix_create 32767 (setting_desc 32767) = Matrix bs"
    and "bs \<noteq> []"
    by (auto simp: matrix_cells_def split: btnmatrix_result.splits)
  moreover have "\<forall>d \<in> set (bm_desc (setting_desc 32767)). sized d"
    by (auto simp: setting_desc_def unit_btn_def sized_def)
  ultimately show ?thesis using btnmatrix_no_overlap [OF setting_counts] by blast
qed

lemma btnmatrix_unit_row_major_witness:
  "\<exists>bs. ui_btnmatrix_create 32767 \<lparr>col_dsc = [200, 200, 32767], row_dsc = [200, 200, 32767],
       bm_pad = 5, bm_gap = 20, bm_desc = replicate 4 (unit_btn (Some 1))\<rparr> = Matrix bs \<and>
     map pb_cell bs = [(0,0,1,1), (1,0,1,1), (0,1,1,1), (1,1,1,1)]"
  using btnmatrix_unit_row_major [of 32767 "\<lparr>col_dsc = [200, 200, 32767], row_dsc = [200, 200, 32767],
       bm_pad = 5, bm_gap = 20, bm_desc = replicate 4 (unit_btn (Some 1))\<rparr>" 2 2]
  by (simp add: unit_btn_def upt_rec)

end
