(* ===== verification/C_Float.thy ===== *)
theory C_Float
  imports RK_Prelude Complex_Main "HOL-Library.Log_Nat"
begin

text \<open>
  C's binary floating point, as far as the program uses it: results of one operation on
  numbers that are neither infinite nor subnormal, rounded to nearest, ties to even. \<open>fl p q\<close>
  rounds the rational \<open>q\<close> to \<open>p\<close> significant bits; a \<open>float\<close> has 24 and a \<open>double\<close> 53. The
  locale \<open>rounding\<close> states what the components rely on; it is interpreted on both formats.
\<close>

subsection \<open>Rounding to the nearest integer\<close>

definition round_even :: "rat \<Rightarrow> int" where
  "round_even x =
     (let f = \<lfloor>x\<rfloor>; r = x - of_int f in
      if r < 1 / 2 then f else if 1 / 2 < r then f + 1 else if even f then f else f + 1)"

lemma round_even_int [simp]: "round_even (of_int n) = n"
  by (simp add: round_even_def)

lemma round_even_floor: "\<lfloor>x\<rfloor> \<le> round_even x" "round_even x \<le> \<lfloor>x\<rfloor> + 1"
  by (auto simp: round_even_def Let_def)

lemma round_even_mono:
  assumes "x \<le> y"
  shows "round_even x \<le> round_even y"
proof (cases "\<lfloor>x\<rfloor> = \<lfloor>y\<rfloor>")
  case True
  with assms show ?thesis by (auto simp: round_even_def Let_def)
next
  case False
  with floor_mono [OF assms] have "\<lfloor>x\<rfloor> + 1 \<le> \<lfloor>y\<rfloor>" by simp
  with round_even_floor(2) [of x] round_even_floor(1) [of y] show ?thesis by linarith
qed

lemma round_even_error: "\<bar>of_int (round_even x) - x\<bar> \<le> 1 / 2"
proof -
  have "of_int \<lfloor>x\<rfloor> \<le> x" "x < of_int \<lfloor>x\<rfloor> + 1" by linarith+
  then show ?thesis by (auto simp: round_even_def Let_def abs_le_iff)
qed

subsection \<open>The binary exponent of a positive rational\<close>

definition flog2 :: "rat \<Rightarrow> int" where
  "flog2 q = (case quotient_of q of (n, d) \<Rightarrow>
     let k = bitlen n - bitlen d in if q < 2 powi k then k - 1 else k)"

lemma bitlen_powi:
  assumes "0 < n"
  shows "2 powi (bitlen n - 1) \<le> (of_int n :: rat)" "(of_int n :: rat) < 2 powi (bitlen n)"
proof -
  from bitlen_bounds [OF assms]
  have b: "2 ^ nat (bitlen n - 1) \<le> n" "n < 2 ^ nat (bitlen n)" by auto
  from assms have pos: "1 \<le> bitlen n" using bitlen_eq_zero_iff [of n] bitlen_nonneg [of n] by linarith
  from b(1) have "(of_int (2 ^ nat (bitlen n - 1)) :: rat) \<le> of_int n"
    by (simp only: of_int_le_iff)
  with pos show "2 powi (bitlen n - 1) \<le> (of_int n :: rat)" by (simp add: power_int_def)
  from b(2) have "(of_int n :: rat) < of_int (2 ^ nat (bitlen n))" by (simp only: of_int_less_iff)
  with pos show "(of_int n :: rat) < 2 powi (bitlen n)" by (simp add: power_int_def)
qed

lemma flog2_bounds:
  assumes "0 < q"
  shows "2 powi (flog2 q) \<le> q" and "q < 2 powi (flog2 q + 1)"
proof -
  obtain n d where nd: "quotient_of q = (n, d)" by (cases "quotient_of q")
  from quotient_of_div [OF nd] have q: "q = of_int n / of_int d" .
  from quotient_of_denom_pos [OF nd] have d: "0 < d" .
  with assms q have n: "0 < n" by (simp add: zero_less_divide_iff)
  let ?k = "bitlen n - bitlen d"
  note bn = bitlen_powi [OF n] and bd = bitlen_powi [OF d]
  have "q < 2 powi (bitlen n) / 2 powi (bitlen d - 1)"
    unfolding q using bn bd d n by (intro frac_less) (auto intro: less_imp_le)
  also have "\<dots> = 2 powi (?k + 1)" by (simp add: power_int_diff power_int_add)
  finally have up: "q < 2 powi (?k + 1)" .
  have "2 powi (?k - 1) = (2 powi (bitlen n - 1) / 2 powi (bitlen d) :: rat)"
    by (simp add: power_int_diff)
  also have "\<dots> \<le> q"
    unfolding q using bn bd d n by (intro frac_le) auto
  finally have lo: "2 powi (?k - 1) \<le> q" .
  from up lo show "2 powi (flog2 q) \<le> q" "q < 2 powi (flog2 q + 1)"
    by (auto simp: flog2_def nd Let_def)
qed

lemma flog2_mono:
  assumes "0 < q" "q \<le> q'"
  shows "flog2 q \<le> flog2 q'"
proof (rule ccontr)
  assume "\<not> ?thesis"
  then have "flog2 q' + 1 \<le> flog2 q" by simp
  then have "(2 :: rat) powi (flog2 q' + 1) \<le> 2 powi (flog2 q)" by (intro power_int_increasing) auto
  with flog2_bounds [of q] flog2_bounds [of q'] assms show False by simp
qed

subsection \<open>Rounding to \<open>p\<close> significant bits\<close>

definition fl :: "nat \<Rightarrow> rat \<Rightarrow> rat" where
  "fl p q =
     (if q = 0 then 0
      else let u = 2 powi (flog2 \<bar>q\<bar> + 1 - int p) in
        sgn q * of_int (round_even (\<bar>q\<bar> / u)) * u)"

lemma fl_0 [simp]: "fl p 0 = 0"
  by (simp add: fl_def)

lemma fl_minus: "fl p (- q) = - fl p q"
  by (simp add: fl_def Let_def)

lemma fl_pos:
  assumes "0 < q"
  shows "fl p q = of_int (round_even (q / 2 powi (flog2 q + 1 - int p))) * 2 powi (flog2 q + 1 - int p)"
  using assms by (simp add: fl_def Let_def)

lemma fl_binade:
  assumes "0 < q" "0 < p"
  shows "2 powi (flog2 q) \<le> fl p q" and "fl p q \<le> 2 powi (flog2 q + 1)"
proof -
  let ?e = "flog2 q" and ?u = "2 powi (flog2 q + 1 - int p) :: rat"
  have u: "0 < ?u" by simp
  obtain k where p: "p = Suc k" using assms(2) by (cases p) auto
  have lo: "2 powi ?e = of_int (2 ^ (p - 1)) * ?u"
    by (simp add: p power_int_diff power_int_add)
  have hi: "2 powi (?e + 1) = of_int (2 ^ p) * ?u"
    by (simp add: power_int_diff power_int_add field_simps)
  have "of_int (2 ^ (p - 1)) \<le> q / ?u" "q / ?u \<le> of_int (2 ^ p)"
    using flog2_bounds [OF assms(1)] lo hi u by (simp_all add: pos_le_divide_eq pos_divide_le_eq)
  from this [THEN round_even_mono]
  have "2 ^ (p - 1) \<le> round_even (q / ?u)" "round_even (q / ?u) \<le> 2 ^ p"
    by (simp_all only: round_even_int)
  then have "of_int (2 ^ (p - 1)) \<le> (of_int (round_even (q / ?u)) :: rat)"
      "(of_int (round_even (q / ?u)) :: rat) \<le> of_int (2 ^ p)"
    by (simp_all only: of_int_le_iff)
  then show "2 powi ?e \<le> fl p q" "fl p q \<le> 2 powi (?e + 1)"
    unfolding lo hi fl_pos [OF assms(1)] using u by (simp_all add: mult_right_mono)
qed

lemma fl_mono_pos:
  assumes "0 < q" "q \<le> q'" "0 < p"
  shows "fl p q \<le> fl p q'"
proof (cases "flog2 q = flog2 q'")
  case True
  have "q / 2 powi (flog2 q' + 1 - int p) \<le> q' / 2 powi (flog2 q' + 1 - int p)"
    using assms(2) by (simp add: divide_right_mono)
  from round_even_mono [OF this] show ?thesis
    using assms True by (simp add: fl_pos mult_right_mono)
next
  case False
  with flog2_mono [OF assms(1,2)] have "flog2 q + 1 \<le> flog2 q'" by simp
  then have "(2 :: rat) powi (flog2 q + 1) \<le> 2 powi (flog2 q')" by (intro power_int_increasing) auto
  with fl_binade(2) [OF assms(1,3)] fl_binade(1) [OF _ assms(3), of q'] assms(1,2)
  show ?thesis by simp
qed

lemma fl_sign: "0 < p \<Longrightarrow> 0 \<le> q \<Longrightarrow> 0 \<le> fl p q"
  using fl_binade(1) [of q p] by (cases "q = 0") (auto intro: order_trans [rotated])

lemma fl_mono:
  assumes "q \<le> q'" "0 < p"
  shows "fl p q \<le> fl p q'"
proof -
  consider "0 < q" | "q \<le> 0" "0 \<le> q'" | "q' < 0" using assms(1) by linarith
  then show ?thesis
  proof cases
    case 1
    with assms show ?thesis by (intro fl_mono_pos)
  next
    case 2
    then show ?thesis
      using fl_sign [OF assms(2), of q'] fl_sign [OF assms(2), of "- q"] by (simp add: fl_minus)
  next
    case 3
    with fl_mono_pos [of "- q'" "- q" p] assms show ?thesis by (simp add: fl_minus)
  qed
qed

lemma fl_int_pos:
  assumes "0 < n" "n < 2 ^ p"
  shows "fl p (of_int n) = of_int n"
proof -
  let ?e = "flog2 (of_int n)"
  from assms(2) have "(of_int n :: rat) < of_int (2 ^ p)" by (simp only: of_int_less_iff)
  moreover have "2 powi ?e \<le> (of_int n :: rat)" using assms(1) by (intro flog2_bounds) simp
  ultimately have "(2 :: rat) powi ?e < 2 powi int p"
    unfolding power_int_of_nat by (simp only: of_int_power of_int_numeral)
  then have "?e < int p" by (metis linorder_not_less power_int_increasing one_le_numeral)
  then have "(2 :: rat) powi (?e + 1 - int p) = 1 / 2 ^ nat (int p - ?e - 1)"
    by (simp add: power_int_def field_simps)
  then obtain m where m: "(2 :: rat) powi (?e + 1 - int p) = 1 / of_int (2 ^ m)" by auto
  have "of_int n / (1 / of_int (2 ^ m)) = (of_int (n * 2 ^ m) :: rat)" by simp
  with m show ?thesis using assms(1) by (simp add: fl_pos del: of_int_mult) simp
qed

lemma fl_error:
  assumes "0 < p"
  shows "\<bar>fl p q - q\<bar> \<le> \<bar>q\<bar> / 2 ^ p"
proof -
  have pos: "\<bar>fl p q - q\<bar> \<le> q / 2 ^ p" if q: "0 < q" for q :: rat
  proof -
    let ?u = "2 powi (flog2 q + 1 - int p) :: rat"
    have u: "0 < ?u" by simp
    have "fl p q - q = (of_int (round_even (q / ?u)) - q / ?u) * ?u"
      by (simp add: fl_pos [OF q] left_diff_distrib)
    then have "\<bar>fl p q - q\<bar> = \<bar>of_int (round_even (q / ?u)) - q / ?u\<bar> * ?u"
      using u by (simp only: abs_mult abs_of_pos)
    also have "\<dots> \<le> 1 / 2 * ?u"
      using u round_even_error by (intro mult_right_mono) auto
    also have "\<dots> = 2 powi (flog2 q) / 2 ^ p" by (simp add: power_int_diff power_int_add)
    also have "\<dots> \<le> q / 2 ^ p" using flog2_bounds(1) [OF q] by (intro divide_right_mono) auto
    finally show ?thesis .
  qed
  consider "0 < q" | "q = 0" | "0 < - q" by linarith
  then show ?thesis
  proof cases
    case 3
    with pos [of "- q"] show ?thesis by (simp add: fl_minus abs_minus_commute)
  qed (use pos in auto)
qed

subsection \<open>What the components rely on\<close>

text \<open>\<open>(int) x\<close> drops the fraction.\<close>

definition c_trunc :: "rat \<Rightarrow> int" where
  "c_trunc q = (if 0 \<le> q then \<lfloor>q\<rfloor> else - \<lfloor>- q\<rfloor>)"

locale rounding =
  fixes rnd :: "rat \<Rightarrow> rat" and p :: nat
  assumes rnd_mono: "q \<le> q' \<Longrightarrow> rnd q \<le> rnd q'"
    and rnd_int: "\<bar>n\<bar> < 2 ^ p \<Longrightarrow> rnd (of_int n) = of_int n"
    and rnd_error: "\<bar>rnd q - q\<bar> \<le> \<bar>q\<bar> / 2 ^ p"
begin

lemma rnd_lower: "\<bar>n\<bar> < 2 ^ p \<Longrightarrow> of_int n \<le> q \<Longrightarrow> of_int n \<le> rnd q"
  using rnd_mono [of "of_int n" q] rnd_int [of n] by simp

lemma rnd_upper: "\<bar>n\<bar> < 2 ^ p \<Longrightarrow> q \<le> of_int n \<Longrightarrow> rnd q \<le> of_int n"
  using rnd_mono [of q "of_int n"] rnd_int [of n] by simp

text \<open>The rounded quotient of two integers has the integer part of the exact one.\<close>

lemma floor_quotient:
  assumes "0 \<le> a" "a < 2 ^ p" "0 < b"
  shows "\<lfloor>rnd (of_int a / of_int b)\<rfloor> = a div b"
proof -
  let ?q = "of_int a / of_int b :: rat"
  have fl: "\<lfloor>?q\<rfloor> = a div b" by (simp add: floor_divide_of_int_eq)
  then have lo: "of_int (a div b) \<le> ?q" by linarith
  have b0: "(0 :: rat) < of_int b" using assms(3) by simp
  have le: "a div b \<le> a" using assms by (cases "a = 0") (auto intro: int_div_le_self)
  have nn: "0 \<le> a div b" using assms by (simp add: pos_imp_zdiv_nonneg_iff)
  with le assms(2) have ab: "\<bar>a div b\<bar> < 2 ^ p" by linarith
  from rnd_lower [OF ab lo] have 1: "of_int (a div b) \<le> rnd ?q" .
  have "a < b * (a div b + 1)"
    using assms(3) by (metis add.commute distrib_left mult.right_neutral mult_div_mod_eq pos_mod_bound add_less_cancel_left)
  then have "a \<le> b * (a div b + 1) - 1" by simp
  then have "(of_int a :: rat) \<le> of_int b * of_int (a div b + 1) - 1"
    by (metis of_int_1 of_int_diff of_int_le_iff of_int_mult)
  then have gap: "?q + 1 / of_int b \<le> of_int (a div b + 1)"
    using b0 by (simp add: field_simps)
  have "rnd ?q \<le> ?q + \<bar>?q\<bar> / 2 ^ p" using rnd_error [of ?q] by linarith
  also have "\<bar>?q\<bar> / 2 ^ p < 1 / of_int b"
  proof -
    have "(of_int a :: rat) < of_int (2 ^ p)" using assms(2) by (simp only: of_int_less_iff)
    then have "of_int a / 2 ^ p < (1 :: rat)" by simp
    then have "of_int a / 2 ^ p / of_int b < 1 / (of_int b :: rat)"
      using b0 by (intro divide_strict_right_mono) auto
    then show ?thesis using assms(1,3) by (simp add: mult.commute)
  qed
  finally have "rnd ?q < of_int (a div b + 1)" using gap by linarith
  with 1 show ?thesis by (simp add: floor_eq_iff)
qed

end

lemma fl_int: "0 < p \<Longrightarrow> \<bar>n\<bar> < 2 ^ p \<Longrightarrow> fl p (of_int n) = of_int n"
  using fl_int_pos [of n p] fl_int_pos [of "- n" p] fl_minus [of p "of_int n"]
  by (cases n "0 :: int" rule: linorder_cases) auto

interpretation single: rounding "fl 24" 24
  by unfold_locales (simp_all only: fl_mono fl_int fl_error zero_less_numeral)

interpretation double: rounding "fl 53" 53
  by unfold_locales (simp_all only: fl_mono fl_int fl_error zero_less_numeral)

end
