(* ===== verification/Tile_Layout.thy ===== *)
theory Tile_Layout
  imports Grid_Alloc C_Float
begin

unbundle bit_operations_syntax

text \<open>
  \<open>layout/tile_layout.c\<close>: the tile layout of the smart home and intercom pages. The map keeps
  one bit per cell, eight columns to a byte. The macro \<open>MAP_DATA\<close> does not parenthesise its
  argument \<open>y\<close>, so with the arguments \<open>x + j\<close> and \<open>y + i\<close> it addresses the byte
  \<open>w * y + i + (x + j) / 8\<close>; the model keeps that expression. The LVGL object tree is the
  returned item; the parent's content size and \<open>LV_GRID_TEMPLATE_LAST\<close> are parameters.
\<close>

subsection \<open>Data\<close>

record tile_map =
  tm_data :: "u8 list"
  tm_w :: int
  tm_h :: int

record tile_layout =
  tl_map :: tile_map
  tl_w :: int
  tl_h :: int
  tl_base :: int
  tl_cols :: int
  tl_rows :: int
  tl_col_dsc :: "int list"
  tl_row_dsc :: "int list"

datatype tile_item = Pad_item | Tile_item int int int int

subsection \<open>The macros\<close>

text \<open>\<open>MAP_DATA (m, x + j, y + i)\<close> and \<open>DATA_MASK (x + j)\<close>\<close>

definition map_index :: "tile_map \<Rightarrow> int \<Rightarrow> int \<Rightarrow> int \<Rightarrow> int \<Rightarrow> int" where
  "map_index m x j y i = tm_w m * y + i + drop_bit 3 ((x + j) AND NOT 7)"

definition data_mask :: "int \<Rightarrow> int \<Rightarrow> u8" where
  "data_mask x j = push_bit (nat ((x + j) AND 7)) 1"

definition read_map :: "tile_map \<Rightarrow> int \<Rightarrow> int \<Rightarrow> int \<Rightarrow> int \<Rightarrow> bool option" where
  "read_map m x j y i =
     map_option (\<lambda>b. b AND data_mask x j \<noteq> 0) (rd (tm_data m) (map_index m x j y i))"

definition update_map :: "(u8 \<Rightarrow> u8) \<Rightarrow> tile_map \<Rightarrow> int \<Rightarrow> int \<Rightarrow> int \<Rightarrow> int \<Rightarrow> tile_map option" where
  "update_map f m x j y i =
     (case rd (tm_data m) (map_index m x j y i) of
        None \<Rightarrow> None
      | Some b \<Rightarrow> map_option (\<lambda>d. m\<lparr>tm_data := d\<rparr>) (wr (tm_data m) (map_index m x j y i) (f b)))"

definition mark_map :: "tile_map \<Rightarrow> int \<Rightarrow> int \<Rightarrow> int \<Rightarrow> int \<Rightarrow> tile_map option" where
  "mark_map m x j y i = update_map (\<lambda>b. b OR data_mask x j) m x j y i"

definition unmark_map :: "tile_map \<Rightarrow> int \<Rightarrow> int \<Rightarrow> int \<Rightarrow> int \<Rightarrow> tile_map option" where
  "unmark_map m x j y i = update_map (\<lambda>b. b AND NOT (data_mask x j)) m x j y i"

subsection \<open>Areas\<close>

text \<open>An area is \<open>(x1, y1, x2, y2)\<close>, both corners included (\<open>DEPART_AREA\<close>).\<close>

type_synonym area = "int \<times> int \<times> int \<times> int"

definition unmark_area :: "tile_map \<Rightarrow> area \<Rightarrow> tile_map option" where
  "unmark_area m a = (case a of (x, y, x2, y2) \<Rightarrow> let w = x2 - x + 1; h = y2 - y + 1 in
     each_c (\<lambda>i. each_c (\<lambda>j m. unmark_map m x j y i) [0..w - 1]) [0..h - 1] m)"

definition mark_area :: "tile_map \<Rightarrow> area \<Rightarrow> tile_map option" where
  "mark_area m a = (case a of (x, y, x2, y2) \<Rightarrow> let w = x2 - x + 1; h = y2 - y + 1 in
     each_c (\<lambda>i. each_c (\<lambda>j m. mark_map m x j y i) [0..w - 1]) [0..h - 1] m)"

definition is_free_area :: "tile_layout \<Rightarrow> area \<Rightarrow> bool option" where
  "is_free_area t a = (case a of (x, y, x2, y2) \<Rightarrow> let w = x2 - x + 1; h = y2 - y + 1 in
     forall_c (\<lambda>i. forall_c (\<lambda>j.
       if x + j = tl_cols t \<or> y + i = tl_rows t then Some False
       else map_option Not (read_map (tl_map t) x j y i)) [0..w - 1]) [0..h - 1])"

subsection \<open>Creating a layout\<close>

definition axis_count :: "int \<Rightarrow> int \<Rightarrow> int" where
  "axis_count w base = c_trunc (fl 24 (fl 24 (of_int w) / fl 24 (of_int base)))"

definition tile_layout_create :: "int \<Rightarrow> int \<Rightarrow> int \<Rightarrow> int \<Rightarrow> int \<Rightarrow> int \<Rightarrow> tile_layout option" where
  "tile_layout_create tmpl_last content_w content_h w h base_size =
     (let w = (if w = 0 then content_w else w);
          h = (if h = 0 then content_h else h)
      in if base_size = 0 then None else
        let cols = axis_count w base_size;
            rows = axis_count h base_size;
            mw = \<lceil>fl 53 (fl 24 (of_int cols) / 8)\<rceil>
        in if cols < 0 \<or> rows < 0 then None else
          Some \<lparr>tl_map = \<lparr>tm_data = replicate (nat (mw * rows)) 0, tm_w = mw, tm_h = rows\<rparr>,
                tl_w = cols * base_size, tl_h = rows * base_size, tl_base = base_size,
                tl_cols = cols, tl_rows = rows,
                tl_col_dsc = replicate (nat cols) base_size @ [tmpl_last],
                tl_row_dsc = replicate (nat rows) base_size @ [tmpl_last]\<rparr>)"

subsection \<open>Placing an item\<close>

definition tile_free :: "tile_layout \<Rightarrow> int \<Rightarrow> int \<Rightarrow> int \<Rightarrow> int \<Rightarrow> bool option" where
  "tile_free t j i cols rows = is_free_area t (j, i, j + cols - 1, i + rows - 1)"

definition tile_mark :: "tile_layout \<Rightarrow> int \<Rightarrow> int \<Rightarrow> int \<Rightarrow> int \<Rightarrow> tile_layout option" where
  "tile_mark t j i cols rows =
     map_option (\<lambda>m. t\<lparr>tl_map := m\<rparr>) (mark_area (tl_map t) (j, i, j + cols - 1, i + rows - 1))"

text \<open>The order of the two nested loops over \<open>i\<close> and \<open>j\<close>.\<close>

definition tile_cands :: "tile_layout \<Rightarrow> int \<Rightarrow> int \<Rightarrow> cell list" where
  "tile_cands t cols rows =
     map (\<lambda>(i, j). (j, i)) (List.product [0..tl_rows t - 1] [0..tl_cols t - 1])"

definition tile_place :: "tile_layout \<Rightarrow> int \<Rightarrow> int \<Rightarrow> (cell \<times> tile_layout) option option" where
  "tile_place = grid_place tile_free tile_mark tile_cands"

text \<open>\<open>Some (None, t)\<close> is the result \<open>NULL\<close>; \<open>None\<close> is an access outside the map.\<close>

definition tile_layout_new_item ::
    "tile_layout \<Rightarrow> int \<Rightarrow> int \<Rightarrow> bool \<Rightarrow> (tile_item option \<times> tile_layout) option" where
  "tile_layout_new_item t cols rows pad =
     (case tile_place t cols rows of
        None \<Rightarrow> None
      | Some None \<Rightarrow> Some (None, t)
      | Some (Some ((j, i), t')) \<Rightarrow>
          Some (Some (if pad then Pad_item else Tile_item j cols i rows), t'))"

subsection \<open>Bits of the map\<close>

lemma map_index_eq: "map_index m x j y i = tm_w m * y + i + (x + j) div 8"
proof -
  have "drop_bit 3 ((x + j) AND NOT 7) = drop_bit 3 (x + j) AND drop_bit 3 (NOT (7 :: int))"
    by simp
  also have "drop_bit 3 (NOT (7 :: int)) = NOT 0" by (simp add: drop_bit_eq_div not_int_def)
  finally show ?thesis by (simp add: map_index_def drop_bit_eq_div)
qed

lemma data_mask_eq: "data_mask x j = 2 ^ nat ((x + j) mod 8)"
proof -
  have "(x + j) AND 7 = (x + j) mod 8"
    using take_bit_eq_mask [of 3 "x + j"] by (simp add: take_bit_eq_mod mask_eq_exp_minus_1)
  then show ?thesis by (simp add: data_mask_def push_bit_eq_mult)
qed

lemma read_bit: "read_map m x j y i =
    map_option (\<lambda>b. bit b (nat ((x + j) mod 8))) (rd (tm_data m) (map_index m x j y i))"
  by (simp add: read_map_def data_mask_eq and_exp_eq_0_iff_not_bit)

lemma bit_mark: "k < 8 \<Longrightarrow> bit (b OR data_mask x j) k \<longleftrightarrow> bit b k \<or> k = nat ((x + j) mod 8)"
  by (auto simp: data_mask_eq bit_or_iff bit_exp_iff)

definition tile_wf :: "tile_layout \<Rightarrow> bool" where
  "tile_wf g \<longleftrightarrow> 0 \<le> tl_cols g \<and> 0 \<le> tl_rows g \<and> tm_w (tl_map g) = (tl_cols g + 7) div 8 \<and>
     int (length (tm_data (tl_map g))) = tm_w (tl_map g) * tl_rows g"

definition tile_cells :: "tile_layout \<Rightarrow> cell set" where
  "tile_cells g = rect 0 0 (tl_cols g) (tl_rows g)"

lemma map_index_in:
  assumes wf: "tile_wf g" and "0 \<le> i" "0 \<le> x + j" "x + j < tl_cols g" "0 \<le> y" "y + i < tl_rows g"
  shows "0 \<le> map_index (tl_map g) x j y i"
    "map_index (tl_map g) x j y i < int (length (tm_data (tl_map g)))"
proof -
  let ?w = "tm_w (tl_map g)"
  from assms have q: "0 \<le> (x + j) div 8" "(x + j) div 8 < ?w" "0 < ?w"
    by (auto simp: tile_wf_def)
  with assms show "0 \<le> map_index (tl_map g) x j y i" by (simp add: map_index_eq)
  have "i \<le> ?w * i" using q(3) assms(2) by (simp add: mult_le_cancel_right1)
  then have "map_index (tl_map g) x j y i < ?w * (y + i) + ?w"
    using q by (simp add: map_index_eq distrib_left)
  also have "\<dots> = ?w * (y + i + 1)" by (simp add: algebra_simps)
  also have "\<dots> \<le> ?w * tl_rows g" using q(3) assms(6) by (intro mult_left_mono) auto
  finally show "map_index (tl_map g) x j y i < int (length (tm_data (tl_map g)))"
    using wf by (simp add: tile_wf_def)
qed

lemma is_free_eq:
  assumes wf: "tile_wf g" and w: "0 < w" and xy: "0 \<le> x" "0 \<le> y" "x < tl_cols g" "y < tl_rows g"
  shows "tile_free g x y w h = Some (\<forall>i \<in> {0..h - 1}. \<forall>j \<in> {0..w - 1}.
    x + j < tl_cols g \<and> y + i < tl_rows g \<and> read_map (tl_map g) x j y i = Some False)"
proof -
  have "(if x + j = tl_cols g \<or> y + i = tl_rows g then Some False
      else map_option Not (read_map (tl_map g) x j y i)) =
    Some (x + j < tl_cols g \<and> y + i < tl_rows g \<and> read_map (tl_map g) x j y i = Some False)"
    if "0 \<le> i" "0 \<le> j" "x + j \<le> tl_cols g" "y + i \<le> tl_rows g" for i j
  proof (cases "x + j = tl_cols g \<or> y + i = tl_rows g")
    case False
    with that xy map_index_in [OF wf, of i x j y] show ?thesis
      by (auto simp: read_bit access_simps)
  qed auto
  from forall_c_rect [OF w xy(3,4) this] show ?thesis
    by (simp add: tile_free_def is_free_area_def Let_def)
qed

subsection \<open>Up to eight columns the map is a set of cells\<close>

definition tile_ok :: "tile_layout \<Rightarrow> bool" where
  "tile_ok g \<longleftrightarrow> tile_wf g \<and> tl_cols g \<le> 8"

definition tile_occ :: "tile_layout \<Rightarrow> cell set" where
  "tile_occ g = {(x, y) \<in> tile_cells g. read_map (tl_map g) x 0 y 0 \<noteq> Some False}"

lemma tile_cells_map [simp]: "tile_cells (g\<lparr>tl_map := m\<rparr>) = tile_cells g"
  by (simp add: tile_cells_def)

lemma tile_ok_index:
  assumes "tile_ok g" and "(x, y) \<in> tile_cells g" and "a + j = x" "b + i = y"
  shows "map_index (tl_map g) a j b i = y"
proof -
  from assms have "x div 8 = 0" "(tl_cols g + 7) div 8 = 1"
    by (auto simp: tile_ok_def tile_cells_def)
  with assms show ?thesis by (auto simp: map_index_eq tile_ok_def tile_wf_def)
qed

lemma tile_ok_read:
  assumes "tile_ok g" and "(a + j, b + i) \<in> tile_cells g"
  shows "read_map (tl_map g) a j b i = read_map (tl_map g) (a + j) 0 (b + i) 0"
  using tile_ok_index [OF assms, of a j b i] tile_ok_index [OF assms, of "a + j" 0 "b + i" 0]
  by (simp add: read_bit)

lemma tile_mark_cell:
  assumes ok: "tile_ok g" and inside: "(a + j, b + i) \<in> tile_cells g"
  shows "\<exists>m. mark_map (tl_map g) a j b i = Some m \<and> tile_ok (g\<lparr>tl_map := m\<rparr>) \<and>
    tile_occ (g\<lparr>tl_map := m\<rparr>) = tile_occ g \<union> {(a + j, b + i)}"
proof -
  let ?d = "tm_data (tl_map g)" and ?y = "b + i"
  have idx: "map_index (tl_map g) a j b i = ?y" by (rule tile_ok_index [OF ok inside]) auto
  from inside ok have "(tl_cols g + 7) div 8 = 1" by (auto simp: tile_cells_def tile_ok_def)
  with inside ok have y: "0 \<le> ?y" "?y < int (length ?d)"
    by (auto simp: tile_cells_def tile_ok_def tile_wf_def)
  define v where "v = ?d ! nat ?y OR data_mask a j"
  from y obtain d where d: "wr ?d ?y v = Some d" by (simp add: access_simps)
  let ?m = "(tl_map g)\<lparr>tm_data := d\<rparr>"
  have m: "mark_map (tl_map g) a j b i = Some ?m"
    using y d by (simp add: mark_map_def update_map_def idx v_def access_simps)
  have ok': "tile_ok (g\<lparr>tl_map := ?m\<rparr>)"
    using ok wr_length [OF d] by (simp add: tile_ok_def tile_wf_def)
  have "read_map ?m x 0 y 0 \<noteq> Some False \<longleftrightarrow>
      read_map (tl_map g) x 0 y 0 \<noteq> Some False \<or> (x, y) = (a + j, ?y)"
    if "(x, y) \<in> tile_cells g" for x y
  proof -
    have "map_index (tl_map g) x 0 y 0 = y" "map_index ?m x 0 y 0 = y"
      using tile_ok_index [OF ok that, of x 0 y 0] by (auto simp: map_index_def)
    moreover have "0 \<le> x" "x < 8" "0 \<le> a + j" "a + j < 8"
      using that inside ok by (auto simp: tile_cells_def tile_ok_def)
    ultimately show ?thesis
      using y by (auto simp: read_bit rd_wr [OF d] v_def bit_mark access_simps)
  qed
  then have "tile_occ (g\<lparr>tl_map := ?m\<rparr>) = tile_occ g \<union> {(a + j, ?y)}"
    using inside by (auto simp: tile_occ_def)
  with m ok' show ?thesis by blast
qed

lemma tile_mark_eq:
  assumes ok: "tile_ok g" and inside: "rect x y w h \<subseteq> tile_cells g"
  shows "\<exists>g'. tile_mark g x y w h = Some g' \<and> tile_ok g' \<and> tile_cells g' = tile_cells g \<and>
    tile_occ g' = tile_occ g \<union> rect x y w h"
proof -
  let ?R = "\<lambda>S m. tile_ok (g\<lparr>tl_map := m\<rparr>) \<and> tile_occ (g\<lparr>tl_map := m\<rparr>) = S"
  have "\<exists>m'. each_c (\<lambda>i. each_c (\<lambda>j m. mark_map m x j y i) [0..w - 1]) [0..h - 1] (tl_map g) = Some m' \<and>
      ?R (tile_occ g \<union> rect x y w h) m'"
  proof (rule each_c_rect [where R = ?R])
    fix i j S m
    assume ij: "0 \<le> i" "i < h" "0 \<le> j" "j < w" and R: "?R S m"
    then have "(x + j, y + i) \<in> rect x y w h" by auto
    with inside have "(x + j, y + i) \<in> tile_cells (g\<lparr>tl_map := m\<rparr>)" by auto
    from tile_mark_cell [OF _ this] R
    show "\<exists>m'. mark_map m x j y i = Some m' \<and> ?R (S \<union> {(x + j, y + i)}) m'" by auto
  qed (use ok in auto)
  then show ?thesis by (auto simp: tile_mark_def mark_area_def)
qed

interpretation tile: grid tile_ok tile_cells tile_occ tile_free tile_mark tile_cands
proof
  fix g :: tile_layout and x y w h :: int
  assume ok: "tile_ok g" and wh: "0 < w" "0 < h"
  show "tile_free g x y w h = Some (rect x y w h \<subseteq> tile_cells g \<and> rect x y w h \<inter> tile_occ g = {})"
    if "(x, y) \<in> set (tile_cands g w h)"
  proof -
    let ?C = "tl_cols g" and ?R = "tl_rows g"
    let ?P = "\<lambda>a b. a < ?C \<and> b < ?R \<and> read_map (tl_map g) a 0 b 0 = Some False"
    from that have xy: "0 \<le> x" "x < ?C" "0 \<le> y" "y < ?R" by (auto simp: tile_cands_def)
    then have eq: "x + j < ?C \<and> y + i < ?R \<and> read_map (tl_map g) x j y i = Some False \<longleftrightarrow> ?P (x + j) (y + i)"
      if "i \<in> {0..h - 1}" "j \<in> {0..w - 1}" for i j
      using tile_ok_read [OF ok, of x j y i] that by (auto simp: tile_cells_def)
    have "tile_free g x y w h = Some (\<forall>i \<in> {0..h - 1}. \<forall>j \<in> {0..w - 1}. ?P (x + j) (y + i))"
      using is_free_eq [of g w x y h] ok wh xy eq by (simp add: tile_ok_def)
    also have "\<dots> = Some (\<forall>(a, b) \<in> rect x y w h. ?P a b)"
      using rect_decompose [where P = ?P and x = x and y = y and w = w and h = h] by simp
    also have "\<dots> = Some (rect x y w h \<subseteq> tile_cells g \<and> rect x y w h \<inter> tile_occ g = {})"
      using xy by (fastforce simp: tile_occ_def tile_cells_def)
    finally show ?thesis .
  qed
  show "\<exists>g'. tile_mark g x y w h = Some g' \<and> tile_ok g' \<and> tile_cells g' = tile_cells g \<and>
      tile_occ g' = tile_occ g \<union> rect x y w h" if "rect x y w h \<subseteq> tile_cells g"
    using that by (rule tile_mark_eq [OF ok])
  show "(x, y) \<in> set (tile_cands g w h)" if "rect x y w h \<subseteq> tile_cells g"
    using that wh by (auto simp: tile_cands_def tile_cells_def rect_subset_origin)
qed

lemmas tile_place_laws =
  tile.place_total [folded tile_place_def] tile.place_None [folded tile_place_def]
  tile.place_Some [folded tile_place_def] tile.place_fits_empty [folded tile_place_def]
  tile.place_too_large [folded tile_place_def]

text \<open>At any width the marking of cells that passed the test stays in the map.\<close>

lemma tile_mark_wf:
  assumes wf: "tile_wf g" and xy: "0 \<le> x" "0 \<le> y"
    and free: "\<forall>i \<in> {0..h - 1}. \<forall>j \<in> {0..w - 1}. x + j < tl_cols g \<and> y + i < tl_rows g"
  shows "\<exists>g'. tile_mark g x y w h = Some g' \<and> tile_wf g'"
proof -
  let ?R = "\<lambda>m. tile_wf (g\<lparr>tl_map := m\<rparr>)"
  have cell: "\<exists>m'. mark_map m x j y i = Some m' \<and> ?R m'"
    if "i \<in> set [0..h - 1]" "j \<in> set [0..w - 1]" "?R m" for i j m
  proof -
    have "0 \<le> map_index m x j y i" "map_index m x j y i < int (length (tm_data m))"
      using map_index_in [OF that(3), of i x j y] free that(1,2) xy by auto
    then have "mark_map m x j y i = Some (m\<lparr>tm_data := (tm_data m)
        [nat (map_index m x j y i) := tm_data m ! nat (map_index m x j y i) OR data_mask x j]\<rparr>)"
      by (simp add: mark_map_def update_map_def access_simps)
    with that(3) show ?thesis by (simp add: tile_wf_def)
  qed
  have "\<exists>m'. each_c (\<lambda>i. each_c (\<lambda>j m. mark_map m x j y i) [0..w - 1]) [0..h - 1] (tl_map g) = Some m' \<and> ?R m'"
    by (intro each_c_invariant [where I = ?R] cell) (use wf in auto)
  then show ?thesis by (auto simp: tile_mark_def mark_area_def)
qed

lemma tile_free_none:
  assumes "w \<le> 0 \<or> h \<le> 0"
  shows "tile_free g x y w h = Some True"
proof -
  have "forall_c (\<lambda>i. Some True) xs = Some True" for xs :: "int list" by (induction xs) auto
  with assms show ?thesis by (auto simp: tile_free_def is_free_area_def Let_def)
qed

subsection \<open>Properties\<close>

text \<open>
  C21. On a well-formed layout of any width, asking for an item of any size reads and writes
  inside the map only and leaves the layout well-formed.
\<close>

theorem tile_new_item_safe:
  assumes "tile_wf t"
  shows "\<exists>r t'. tile_layout_new_item t cols rows pad = Some (r, t') \<and> tile_wf t'"
proof -
  let ?F = "\<lambda>x y. \<forall>i \<in> {0..rows - 1}. \<forall>j \<in> {0..cols - 1}. x + j < tl_cols t \<and> y + i < tl_rows t \<and>
    read_map (tl_map t) x j y i = Some False"
  have mem: "(x, y) \<in> set (tile_cands t cols rows) \<Longrightarrow> 0 \<le> x \<and> x < tl_cols t \<and> 0 \<le> y \<and> y < tl_rows t"
    for x y by (auto simp: tile_cands_def)
  have free: "tile_free t x y cols rows = Some (?F x y)"
    if "(x, y) \<in> set (tile_cands t cols rows)" for x y
  proof (cases "0 < cols \<and> 0 < rows")
    case True
    with is_free_eq [OF assms, of cols x y rows] mem [OF that] show ?thesis by simp
  next
    case False
    then show ?thesis using tile_free_none [of cols rows t x y] by auto
  qed
  have "find_c (\<lambda>(x, y). tile_free t x y cols rows) (tile_cands t cols rows) =
      Some (List.find (\<lambda>(x, y). ?F x y) (tile_cands t cols rows))"
    using free by (intro find_c_total) auto
  moreover have "\<exists>t'. tile_mark t x y cols rows = Some t' \<and> tile_wf t'"
    if "List.find (\<lambda>(x, y). ?F x y) (tile_cands t cols rows) = Some (x, y)" for x y
    using find_SomeD [OF that] mem by (intro tile_mark_wf [OF assms]) auto
  ultimately show ?thesis
    using assms by (fastforce simp: tile_layout_new_item_def tile_place_def grid_place_def split: option.splits)
qed


lemma axis_count_div:
  assumes "0 \<le> w" "w < 2 ^ 24" "0 < base" "base < 2 ^ 24"
  shows "axis_count w base = w div base"
proof -
  have "fl 24 (of_int w) = of_int w" "fl 24 (of_int base) = of_int base"
    using assms by (auto intro!: single.rnd_int)
  moreover have "0 \<le> fl 24 (of_int w / of_int base)" using assms by (intro fl_sign) auto
  ultimately show ?thesis
    using single.floor_quotient [OF assms(1,2,3)] by (simp add: axis_count_def c_trunc_def)
qed

lemma fl_eighth:
  assumes "0 \<le> n" "n < 2 ^ 24"
  shows "\<lceil>fl 53 (fl 24 (of_int n) / 8)\<rceil> = (n + 7) div 8"
proof -
  have e: "fl 24 (of_int n) = of_int n" using assms by (intro single.rnd_int) simp
  let ?q = "of_int n / 8 :: rat"
  have lo: "\<lfloor>fl 53 ?q\<rfloor> = n div 8"
    using double.floor_quotient [of n 8] assms by simp
  have up: "fl 53 ?q \<le> of_int ((n + 7) div 8)"
  proof (rule double.rnd_upper)
    have "n \<le> 8 * ((n + 7) div 8)" by linarith
    then have "(of_int n :: rat) \<le> of_int (8 * ((n + 7) div 8))" by (simp only: of_int_le_iff)
    then show "?q \<le> of_int ((n + 7) div 8)" by simp
  qed (use assms in auto)
  show ?thesis
  proof (cases "n mod 8 = 0")
    case True
    then have c: "(n + 7) div 8 = n div 8" by presburger
    have "of_int (n div 8) \<le> fl 53 ?q" using lo by linarith
    with up c e show ?thesis by simp
  next
    case False
    then have "of_int (n div 8) < fl 53 ?q"
    proof -
      have "of_int (8 * (n div 8) + 1) \<le> (of_int n :: rat)"
        using False by (simp only: of_int_le_iff) presburger
      then have q: "of_int (n div 8) + 1 / 8 \<le> ?q" by simp
      have "\<bar>fl 53 ?q - ?q\<bar> \<le> ?q / 2 ^ 53"
        using double.rnd_error [of ?q] assms(1) by simp
      moreover have "?q / 2 ^ 53 < 1 / 8"
      proof -
        have "(of_int n :: rat) < of_int (2 ^ 24)" using assms(2) by (simp only: of_int_less_iff)
        then show ?thesis by simp
      qed
      ultimately show ?thesis using q by linarith
    qed
    moreover have "(n + 7) div 8 = n div 8 + 1" using False by presburger
    ultimately have "of_int ((n + 7) div 8) - 1 < fl 53 ?q" by simp
    with up e show ?thesis by (simp add: ceiling_eq_iff)
  qed
qed

lemma int_div_bound: "0 \<le> (w :: int) \<Longrightarrow> w < N \<Longrightarrow> 0 < b \<Longrightarrow> 0 \<le> w div b \<and> w div b < N"
  by (cases "w = 0") (auto simp: pos_imp_zdiv_nonneg_iff intro: le_less_trans [OF int_div_le_self])

lemma tile_created:
  assumes "tile_layout_create tmpl_last content_w content_h w h base = Some t"
    and "W = (if w = 0 then content_w else w)" and "H = (if h = 0 then content_h else h)"
    and "0 \<le> W" "W < 2 ^ 24" "0 \<le> H" "H < 2 ^ 24" and "0 < base" "base < 2 ^ 24"
  shows "tl_cols t = W div base" "tl_rows t = H div base" "tile_wf t" "tile_occ t = {}"
proof -
  note b = int_div_bound [OF assms(4,5,8)] int_div_bound [OF assms(6,7,8)]
  note a = axis_count_div [OF assms(4,5,8,9)] axis_count_div [OF assms(6,7,8,9)]
  let ?mw = "(W div base + 7) div 8"
  have e: "\<lceil>fl 53 (fl 24 (of_int (W div base)) / 8)\<rceil> = ?mw" using b by (intro fl_eighth) auto
  have mw: "0 \<le> ?mw" using b by (simp add: pos_imp_zdiv_nonneg_iff)
  have sel: "tl_cols t = W div base" "tl_rows t = H div base" "tm_w (tl_map t) = ?mw"
      "tm_data (tl_map t) = replicate (nat (?mw * (H div base))) 0"
    using assms(1) b assms(8) by (auto simp: tile_layout_create_def Let_def a e simp flip: assms(2,3))
  show wf: "tile_wf t" using b mw by (simp add: tile_wf_def sel)
  have "read_map (tl_map t) x 0 y 0 = Some False" if "(x, y) \<in> tile_cells t" for x y
  proof -
    let ?k = "map_index (tl_map t) x 0 y 0"
    have k: "0 \<le> ?k" "?k < int (length (tm_data (tl_map t)))"
      using map_index_in [OF wf, of 0 x 0 y] that by (auto simp: tile_cells_def)
    then have "nat ?k < nat (?mw * (H div base))" by (simp add: sel split: if_splits)
    then have "tm_data (tl_map t) ! nat ?k = 0" by (simp add: sel(4))
    with k show ?thesis by (simp add: read_bit access_simps)
  qed
  then show "tile_occ t = {}" by (auto simp: tile_occ_def)
  show "tl_cols t = W div base" "tl_rows t = H div base" by (rule sel)+
qed

lemma tile_create_Some:
  assumes "0 \<le> W" "W < 2 ^ 24" "0 \<le> H" "H < 2 ^ 24" and "0 < base" "base < 2 ^ 24"
    and "W = (if w = 0 then content_w else w)" and "H = (if h = 0 then content_h else h)"
  obtains t where "tile_layout_create tmpl_last content_w content_h w h base = Some t"
    "tl_w t = W div base * base" "tl_h t = H div base * base"
    "tl_col_dsc t = replicate (nat (W div base)) base @ [tmpl_last]"
    "tl_row_dsc t = replicate (nat (H div base)) base @ [tmpl_last]"
  using int_div_bound [OF assms(1,2,5)] int_div_bound [OF assms(3,4,5)] assms(5)
  by (simp add: tile_layout_create_def Let_def axis_count_div [OF assms(1,2,5,6)]
    axis_count_div [OF assms(3,4,5,6)] flip: assms(7,8))

text \<open>
  C36. A layout created over a \<open>w\<close> by \<open>h\<close> area (the parent's content where an argument is 0)
  has \<open>w / base_size\<close> columns and \<open>h / base_size\<close> rows, rounded down although the program
  divides in single precision; its map has the size the operations need and no cell is occupied.
\<close>

theorem tile_layout_create_ok:
  assumes "W = (if w = 0 then content_w else w)" and "H = (if h = 0 then content_h else h)"
    and "0 \<le> W" "W < 2 ^ 24" "0 \<le> H" "H < 2 ^ 24" and "0 < base" "base < 2 ^ 24"
  shows "\<exists>t. tile_layout_create tmpl_last content_w content_h w h base = Some t \<and>
    tl_cols t = W div base \<and> tl_rows t = H div base \<and> tl_w t \<le> W \<and> tl_h t \<le> H \<and>
    tile_wf t \<and> tile_occ t = {} \<and>
    tl_col_dsc t = replicate (nat (tl_cols t)) base @ [tmpl_last] \<and>
    tl_row_dsc t = replicate (nat (tl_rows t)) base @ [tmpl_last]"
proof -
  from tile_create_Some [OF assms(3-8,1,2), of tmpl_last] obtain t where
    t: "tile_layout_create tmpl_last content_w content_h w h base = Some t"
    and sel: "tl_w t = W div base * base" "tl_h t = H div base * base"
      "tl_col_dsc t = replicate (nat (W div base)) base @ [tmpl_last]"
      "tl_row_dsc t = replicate (nat (H div base)) base @ [tmpl_last]" .
  have "W div base * base \<le> W" "H div base * base \<le> H"
    using assms(7) by (metis div_mod_decomp_int le_add_same_cancel1 pos_mod_sign)+
  with t sel tile_created [OF t assms] show ?thesis by simp
qed

text \<open>A sequence of items, \<open>None\<close> where one was refused.\<close>

fun new_items :: "tile_layout \<Rightarrow> (int \<times> int) list \<Rightarrow> tile_item option list option" where
  "new_items t [] = Some []"
| "new_items t ((w, h) # ws) =
     (case tile_layout_new_item t w h False of
        None \<Rightarrow> None
      | Some (r, t') \<Rightarrow> map_option ((#) r) (new_items t' ws))"

definition page_9x2 :: tile_layout where
  "page_9x2 = \<lparr>tl_map = \<lparr>tm_data = replicate 4 0, tm_w = 2, tm_h = 2\<rparr>, tl_w = 1350, tl_h = 300,
     tl_base = 150, tl_cols = 9, tl_rows = 2,
     tl_col_dsc = replicate 9 150 @ [32767], tl_row_dsc = replicate 2 150 @ [32767]\<rparr>"

text \<open>
  On more than eight columns the unparenthesised macro argument loses marks of the second
  row: on an empty 9 by 2 layout an item of one column and two rows takes cells (0,0) and
  (0,1), and of the unit items after it the eighth is put at (0,1) again.
\<close>

theorem tile_wide_overlap:
  "tile_wf page_9x2 \<and>
   new_items page_9x2 ((1, 2) # replicate 8 (1, 1)) =
     Some (map Some [Tile_item 0 1 0 2, Tile_item 1 1 0 1, Tile_item 2 1 0 1, Tile_item 3 1 0 1,
       Tile_item 4 1 0 1, Tile_item 5 1 0 1, Tile_item 6 1 0 1, Tile_item 7 1 0 1,
       Tile_item 0 1 1 1])"
  by code_simp

definition page_5x2 :: tile_layout where
  "page_5x2 = \<lparr>tl_map = \<lparr>tm_data = [0, 0], tm_w = 1, tm_h = 2\<rparr>, tl_w = 1000, tl_h = 400,
     tl_base = 200, tl_cols = 5, tl_rows = 2,
     tl_col_dsc = replicate 5 200 @ [32767], tl_row_dsc = replicate 2 200 @ [32767]\<rparr>"

lemma page_5x2_ok [simp]: "tile_ok page_5x2"
  by code_simp

lemma tile_new_item_safe_witness:
  "\<exists>r t'. tile_layout_new_item page_5x2 2 1 False = Some (r, t') \<and> tile_wf t'"
  by (rule tile_new_item_safe) (use page_5x2_ok in \<open>simp add: tile_ok_def\<close>)


lemma tile_layout_create_ok_witness:
  "\<exists>t. tile_layout_create 32767 1000 460 0 0 200 = Some t \<and> tl_cols t = 5 \<and> tl_rows t = 2 \<and>
     tile_wf t \<and> tile_occ t = {}"
  using tile_layout_create_ok [of 1000 0 1000 460 0 460 200 32767] by auto

end
