(* ===== verification/Pagination.thy ===== *)
theory Pagination
  imports Tile_Layout
begin

text \<open>
  How the smart home page (\<open>smart_home_ui.c\<close>, 200 pixel tiles) and the intercom page
  (\<open>ui_intercom_homepage.c\<close>, 150 pixel tiles) spread their applications over the tiles of a
  tile view: the outer loop opens a page with a fresh layout, the inner loop fills it until an
  application finds no room. The outer loop has no bound of its own, so it runs on fuel, and
  running out of it is a result of its own. The content size of a tile is a parameter.
\<close>

subsection \<open>The tables of applications\<close>

record app_desc =
  ad_w :: int
  ad_h :: int
  ad_init :: bool
  ad_scroll_cb :: bool
  ad_deinit :: bool

definition app :: "int \<Rightarrow> int \<Rightarrow> app_desc" where
  "app w h = \<lparr>ad_w = w, ad_h = h, ad_init = True, ad_scroll_cb = False, ad_deinit = False\<rparr>"

text \<open>\<open>APP_PAD\<close>: an empty place, no \<open>init\<close>\<close>

definition app_pad :: "int \<Rightarrow> int \<Rightarrow> app_desc" where
  "app_pad w h = \<lparr>ad_w = w, ad_h = h, ad_init = False, ad_scroll_cb = False, ad_deinit = False\<rparr>"

text \<open>Date, weather, four switches, scene, music (with Bluetooth only), two air conditioners.\<close>

definition apps_desc :: "bool \<Rightarrow> app_desc list" where
  "apps_desc bt_en = [app 1 1, app 1 1, app 1 1, app 1 1, app 1 1, app 1 1, app 2 1] @
     (if bt_en then [(app 2 1)\<lparr>ad_deinit := True\<rparr>] else []) @ [app 2 2, app 2 2]"

text \<open>The ten entries of \<open>private\<close> in the intercom page, each one cell.\<close>

definition intercom_apps :: "app_desc list" where
  "intercom_apps = replicate 10 (app 1 1)"

subsection \<open>The loops\<close>

fun fill_page :: "tile_layout \<Rightarrow> app_desc list \<Rightarrow> (tile_item list \<times> app_desc list) option" where
  "fill_page t [] = Some ([], [])"
| "fill_page t (a # as) =
     (case tile_layout_new_item t (ad_w a) (ad_h a) (\<not> ad_init a) of
        None \<Rightarrow> None
      | Some (None, t') \<Rightarrow> Some ([], a # as)
      | Some (Some it, t') \<Rightarrow> map_option (\<lambda>(its, rest). (it # its, rest)) (fill_page t' as))"

datatype paging = Out_of_fuel | Paging_fault | Pages "tile_item list list"

fun layout_pages :: "int \<Rightarrow> int \<Rightarrow> int \<Rightarrow> int \<Rightarrow> nat \<Rightarrow> app_desc list \<Rightarrow> paging" where
  "layout_pages tmpl_last cw ch base fuel [] = Pages []"
| "layout_pages tmpl_last cw ch base 0 (a # as) = Out_of_fuel"
| "layout_pages tmpl_last cw ch base (Suc fuel) (a # as) =
     (case tile_layout_create tmpl_last cw ch 0 0 base of
        None \<Rightarrow> Paging_fault
      | Some t \<Rightarrow>
          (case fill_page t (a # as) of
             None \<Rightarrow> Paging_fault
           | Some (its, rest) \<Rightarrow>
               (case layout_pages tmpl_last cw ch base fuel rest of
                  Pages ps \<Rightarrow> Pages (its # ps)
                | r \<Rightarrow> r)))"

definition smart_home_pages :: "int \<Rightarrow> int \<Rightarrow> int \<Rightarrow> bool \<Rightarrow> nat \<Rightarrow> paging" where
  "smart_home_pages tmpl_last cw ch bt_en fuel = layout_pages tmpl_last cw ch 200 fuel (apps_desc bt_en)"

definition intercom_pages :: "int \<Rightarrow> int \<Rightarrow> int \<Rightarrow> nat \<Rightarrow> paging" where
  "intercom_pages tmpl_last cw ch fuel = layout_pages tmpl_last cw ch 150 fuel intercom_apps"

text \<open>
  \<open>app_bg_update\<close>: the offset of the background snapshot inside an application's image of
  size \<open>w\<close> by \<open>h\<close> whose content starts at \<open>(x1, y1)\<close>; a zero size divides by zero.
\<close>

definition app_bg_update :: "int \<Rightarrow> int \<Rightarrow> int \<Rightarrow> int \<Rightarrow> (int \<times> int) option" where
  "app_bg_update x1 y1 w h =
     (if w = 0 \<or> h = 0 then None else Some (c_mod (- x1) w, c_mod (- y1) h))"

subsection \<open>One page\<close>

fun item_cells :: "tile_item \<Rightarrow> cell set" where
  "item_cells Pad_item = {}"
| "item_cells (Tile_item x w y h) = rect x y w h"

definition shows_app :: "app_desc \<Rightarrow> tile_item \<Rightarrow> bool" where
  "shows_app a it \<longleftrightarrow>
     (if ad_init a then (\<exists>x y. it = Tile_item x (ad_w a) y (ad_h a)) else it = Pad_item)"

definition sized_app :: "app_desc \<Rightarrow> bool" where
  "sized_app a \<longleftrightarrow> 0 < ad_w a \<and> 0 < ad_h a"

definition fits :: "int \<Rightarrow> int \<Rightarrow> app_desc \<Rightarrow> bool" where
  "fits C R a \<longleftrightarrow> ad_w a \<le> C \<and> ad_h a \<le> R"

lemma new_item_cases:
  assumes ok: "tile_ok t" and a: "sized_app a" and dim: "tile_cells t = rect 0 0 C R"
  obtains (full) "tile_layout_new_item t (ad_w a) (ad_h a) pad = Some (None, t)"
      "tile_occ t = {} \<Longrightarrow> \<not> fits C R a"
  | (placed) x y t' where
      "tile_layout_new_item t (ad_w a) (ad_h a) pad =
         Some (Some (if pad then Pad_item else Tile_item x (ad_w a) y (ad_h a)), t')"
      "tile_ok t'" "tile_cells t' = rect 0 0 C R" "fits C R a"
      "tile_occ t' = tile_occ t \<union> rect x y (ad_w a) (ad_h a)"
      "rect x y (ad_w a) (ad_h a) \<inter> tile_occ t = {}"
      "rect x y (ad_w a) (ad_h a) \<subseteq> rect 0 0 C R"
proof -
  from a have wh: "0 < ad_w a" "0 < ad_h a" by (auto simp: sized_app_def)
  note laws = tile_place_laws [OF ok wh]
  show thesis
  proof (cases "tile_place t (ad_w a) (ad_h a)")
    case None
    with laws(1) show thesis by simp
  next
    case (Some r)
    show thesis
    proof (cases r)
      case None
      have "\<not> fits C R a" if occ: "tile_occ t = {}"
      proof
        assume "fits C R a"
        then have "rect 0 0 (ad_w a) (ad_h a) \<subseteq> tile_cells t"
          using wh by (simp add: dim fits_def rect_subset_origin)
        from laws(4) [OF occ this] Some None show False by simp
      qed
      with Some None show thesis by (intro full) (simp_all add: tile_layout_new_item_def)
    next
      case (Some p)
      obtain x y t' where p: "p = ((x, y), t')" by (metis surj_pair)
      have "tile_place t (ad_w a) (ad_h a) = Some (Some ((x, y), t'))"
        using \<open>tile_place t (ad_w a) (ad_h a) = Some r\<close> Some p by simp
      note l = laws(3) [OF this]
      have "fits C R a" using l wh by (auto simp: dim fits_def rect_subset_origin)
      then show thesis
        using placed [of x y t'] \<open>tile_place t (ad_w a) (ad_h a) = Some r\<close> Some p l dim
        by (simp add: tile_layout_new_item_def)
    qed
  qed
qed

text \<open>What a filled page holds: a prefix of the applications, in order, on disjoint cells.\<close>

definition page_ok :: "int \<Rightarrow> int \<Rightarrow> cell set \<Rightarrow> app_desc list \<Rightarrow> tile_item list \<Rightarrow> bool" where
  "page_ok C R occ as its \<longleftrightarrow>
     list_all2 shows_app as its \<and>
     (\<forall>it \<in> set its. item_cells it \<subseteq> rect 0 0 C R - occ) \<and>
     sorted_wrt (\<lambda>p q. item_cells p \<inter> item_cells q = {}) its"

lemma fill_page_ok:
  assumes "tile_ok t" and "tile_cells t = rect 0 0 C R" and "\<forall>a \<in> set as. sized_app a"
  shows "\<exists>pre rest its. as = pre @ rest \<and> fill_page t as = Some (its, rest) \<and>
    page_ok C R (tile_occ t) pre its \<and> (\<forall>a \<in> set pre. fits C R a) \<and>
    (tile_occ t = {} \<longrightarrow> as \<noteq> [] \<longrightarrow> fits C R (hd as) \<longrightarrow> pre \<noteq> [])"
  using assms
proof (induction as arbitrary: t)
  case Nil
  then show ?case by (simp add: page_ok_def)
next
  case (Cons a as)
  from Cons.prems(3) have a: "sized_app a" by simp
  from Cons.prems(1) a Cons.prems(2) show ?case
  proof (cases rule: new_item_cases [where pad = "\<not> ad_init a"])
    case full
    then show ?thesis
      by (intro exI [of _ "[]"] exI [of _ "a # as"]) (auto simp: page_ok_def)
  next
    case (placed x y t')
    let ?it = "if \<not> ad_init a then Pad_item else Tile_item x (ad_w a) y (ad_h a)"
    from Cons.IH [OF placed(2,3)] Cons.prems(3) obtain pre rest its where
      IH: "as = pre @ rest" "fill_page t' as = Some (its, rest)"
        "page_ok C R (tile_occ t') pre its" "\<forall>a \<in> set pre. fits C R a" by auto
    have it: "item_cells ?it \<subseteq> rect x y (ad_w a) (ad_h a)" by simp
    have "page_ok C R (tile_occ t) (a # pre) (?it # its)"
      unfolding page_ok_def
    proof (intro conjI)
      show "list_all2 shows_app (a # pre) (?it # its)"
        using IH(3) by (simp add: page_ok_def shows_app_def)
      show "\<forall>it \<in> set (?it # its). item_cells it \<subseteq> rect 0 0 C R - tile_occ t"
        using IH(3) it placed(5-7) by (auto simp: page_ok_def simp del: mem_rect)
      show "sorted_wrt (\<lambda>p q. item_cells p \<inter> item_cells q = {}) (?it # its)"
        using IH(3) it placed(5)
        by (auto simp: page_ok_def disjoint_iff subset_iff simp del: mem_rect)
    qed
    with IH placed(1,4) show ?thesis
      by (intro exI [of _ "a # pre"] exI [of _ rest] exI [of _ "?it # its"]) simp
  qed
qed

subsection \<open>All pages\<close>

text \<open>A screen the pages are laid out on: \<open>C\<close> columns and \<open>R\<close> rows of \<open>base\<close> pixels.\<close>

definition screen_ok :: "int \<Rightarrow> int \<Rightarrow> int \<Rightarrow> bool" where
  "screen_ok cw ch base \<longleftrightarrow> 0 \<le> cw \<and> cw < 2 ^ 24 \<and> 0 \<le> ch \<and> ch < 2 ^ 24 \<and> 0 < base \<and>
     base < 2 ^ 24 \<and> cw div base \<le> 8"

lemma page_layout:
  assumes "screen_ok cw ch base"
  obtains t where "tile_layout_create tmpl_last cw ch 0 0 base = Some t" "tile_ok t"
    "tile_cells t = rect 0 0 (cw div base) (ch div base)" "tile_occ t = {}"
proof -
  from assms have r: "0 \<le> cw" "cw < 2 ^ 24" "0 \<le> ch" "ch < 2 ^ 24" "0 < base" "base < 2 ^ 24"
    by (auto simp: screen_ok_def)
  from tile_create_Some [OF r, of 0 cw 0 ch tmpl_last] obtain t where
    t: "tile_layout_create tmpl_last cw ch 0 0 base = Some t" by auto
  from tile_created [OF t _ _ r] assms show thesis
    by (intro that [OF t]) (auto simp: tile_ok_def tile_cells_def screen_ok_def)
qed

definition pages_ok :: "int \<Rightarrow> int \<Rightarrow> app_desc list \<Rightarrow> tile_item list list \<Rightarrow> bool" where
  "pages_ok C R as ps \<longleftrightarrow> list_all2 shows_app as (concat ps) \<and>
     (\<forall>its \<in> set ps. its \<noteq> [] \<and> (\<forall>it \<in> set its. item_cells it \<subseteq> rect 0 0 C R) \<and>
        sorted_wrt (\<lambda>p q. item_cells p \<inter> item_cells q = {}) its)"

lemma layout_pages_enough:
  assumes "screen_ok cw ch base" and "\<forall>a \<in> set as. sized_app a \<and> fits (cw div base) (ch div base) a"
    and "length as \<le> fuel"
  shows "\<exists>ps. layout_pages tmpl_last cw ch base fuel as = Pages ps \<and> pages_ok (cw div base) (ch div base) as ps"
  using assms(2,3)
proof (induction fuel arbitrary: as)
  case 0
  then show ?case by (simp add: pages_ok_def)
next
  case (Suc fuel)
  show ?case
  proof (cases as)
    case Nil
    then show ?thesis by (simp add: pages_ok_def)
  next
    case (Cons a as')
    from page_layout [OF assms(1)] obtain t where t: "tile_layout_create tmpl_last cw ch 0 0 base = Some t"
      "tile_ok t" "tile_cells t = rect 0 0 (cw div base) (ch div base)" "tile_occ t = {}" .
    from fill_page_ok [OF t(2,3), of as] Suc.prems(1) obtain pre rest its where
      f: "as = pre @ rest" "fill_page t as = Some (its, rest)"
        "page_ok (cw div base) (ch div base) {} pre its" "pre \<noteq> []"
      by (fastforce simp: t(4) Cons)
    with Suc.prems Suc.IH [of rest] obtain ps where
      ps: "layout_pages tmpl_last cw ch base fuel rest = Pages ps"
        "pages_ok (cw div base) (ch div base) rest ps"
      by (cases pre) auto
    have "pages_ok (cw div base) (ch div base) as (its # ps)"
      using f(1,3,4) ps(2) by (auto simp: pages_ok_def page_ok_def list_all2_appendI simp del: mem_rect)
    with t(1) f(2) ps(1) Cons show ?thesis by simp
  qed
qed

lemma layout_pages_stuck:
  assumes "screen_ok cw ch base" and "\<forall>a \<in> set as. sized_app a"
    and "\<not> (\<forall>a \<in> set as. fits (cw div base) (ch div base) a)"
  shows "layout_pages tmpl_last cw ch base fuel as = Out_of_fuel"
  using assms(2,3)
proof (induction fuel arbitrary: as)
  case 0
  then show ?case by (cases as) auto
next
  case (Suc fuel)
  from page_layout [OF assms(1)] obtain t where t: "tile_layout_create tmpl_last cw ch 0 0 base = Some t"
    "tile_ok t" "tile_cells t = rect 0 0 (cw div base) (ch div base)" "tile_occ t = {}" .
  from fill_page_ok [OF t(2,3) Suc.prems(1)] obtain pre rest its where
    f: "as = pre @ rest" "fill_page t as = Some (its, rest)" "\<forall>a \<in> set pre. fits (cw div base) (ch div base) a"
    by blast
  with Suc.prems Suc.IH [of rest] have "layout_pages tmpl_last cw ch base fuel rest = Out_of_fuel" by auto
  with t(1) f(2) Suc.prems(2) show ?case by (cases as) auto
qed

subsection \<open>Properties\<close>

text \<open>
  C23. Laying out the applications ends exactly when every one of them fits an empty page;
  otherwise the outer loop opens pages for ever.
\<close>

theorem layout_pages_terminates_iff:
  assumes "screen_ok cw ch base" and "\<forall>a \<in> set as. sized_app a"
  shows "(\<exists>fuel ps. layout_pages tmpl_last cw ch base fuel as = Pages ps) \<longleftrightarrow>
    (\<forall>a \<in> set as. ad_w a \<le> cw div base \<and> ad_h a \<le> ch div base)"
  using layout_pages_stuck [OF assms] layout_pages_enough [OF assms(1), of as "length as"] assms(2)
  by (fastforce simp: fits_def)


text \<open>The two tables on a 1024 by 600 screen, whose tiles are 1024 by 540 pixels.\<close>

lemma layout_pages_terminates_iff_witness:
  "(\<exists>fuel ps. layout_pages 32767 1024 540 200 fuel (apps_desc True) = Pages ps) \<and>
   \<not> (\<exists>fuel ps. layout_pages 32767 1024 380 200 fuel (apps_desc True) = Pages ps)"
  using layout_pages_terminates_iff [of 1024 540 200 "apps_desc True" 32767]
    layout_pages_terminates_iff [of 1024 380 200 "apps_desc True" 32767]
  by (simp add: screen_ok_def apps_desc_def app_def sized_app_def)


text \<open>
  The offset of the snapshot cancels the position of the image up to whole images, so
  neighbouring applications show one continuous background.
\<close>

lemma app_bg_update_offset:
  assumes "app_bg_update x1 y1 w h = Some (dx, dy)"
  shows "w dvd x1 + dx" "h dvd y1 + dy"
  using assms by (auto simp: app_bg_update_def c_mod_def split: if_splits)

end
