(* ===== verification/Backlight.thy ===== *)
theory Backlight
  imports C_Float
begin

text \<open>
  The backlight of \<open>main.c\<close> (built with \<open>USE_SENSOR\<close>) and the screen-timeout setting of
  \<open>setting/wallpaper_ui.c\<close>. The file-scope and function-static variables are one record. The
  clock, the input devices and the results of \<open>open\<close> are parameters; what is asked of LVGL
  and of the backlight node is the emitted list of calls.
\<close>

subsection \<open>State\<close>

record backlight =
  bk_en :: int
  bk_level :: int
  bk_fd :: int
  bk_timeout :: int
  bk_start :: u32
  bk_last :: u8
  bk_cur_en :: int
  bk_cur_value :: int

datatype bk_call =
    Indev_enable bool
  | Write_node int
  | Timer_create string int
  | Set_feedback nat
  | Log_error string

definition bk_boot :: backlight where
  "bk_boot = \<lparr>bk_en = 1, bk_level = 7, bk_fd = -1, bk_timeout = 5000, bk_start = 0, bk_last = 0,
     bk_cur_en = 1, bk_cur_value = 255\<rparr>"

definition brightness :: "int list" where
  "brightness = [45, 75, 105, 135, 165, 195, 225, 255]"

definition backlight_set_timeout :: "int \<Rightarrow> backlight \<Rightarrow> backlight" where
  "backlight_set_timeout timeout s = s\<lparr>bk_timeout := timeout\<rparr>"

subsection \<open>Brightness levels\<close>

text \<open>
  The second clamp is the comparison \<open>level > ARRAY_SIZE (brightness) - 1;\<close>, which changes
  nothing, so a level past the table is read from outside it.
\<close>

definition level_to_brightness :: "int \<Rightarrow> int option" where
  "level_to_brightness level = rd brightness (if level < 0 then 0 else level)"

definition update_backlight :: "int \<Rightarrow> int \<Rightarrow> backlight \<Rightarrow> bk_call list \<times> backlight" where
  "update_backlight en value s =
     (if bk_fd s \<le> 0 then ([], s)
      else let final_value = (if en \<noteq> 0 then word_of_int value else 0 :: u8) in
        if bk_last s = final_value then ([], s)
        else ((if (bk_last s \<noteq> 0) \<noteq> (final_value \<noteq> 0) then [Indev_enable (final_value \<noteq> 0)] else []) @
                [Write_node (uint final_value)],
              s\<lparr>bk_last := final_value\<rparr>))"

subsection \<open>The timer callbacks\<close>

text \<open>\<open>(int)((a - b) / 2.0)\<close>\<close>

definition half_step :: "int \<Rightarrow> int" where
  "half_step d = (let v = c_trunc (fl 53 (of_int d / 2)) in if v = 0 then 2 else v)"

definition fade_value :: "int \<Rightarrow> int \<Rightarrow> int" where
  "fade_value target cur =
     (if cur = target then cur
      else if cur > target then
        (let st = half_step (cur - target) in if cur - st < target then target else cur - st)
      else
        (let st = half_step (target - cur) in if cur + st > target then target else cur + st))"

text \<open>
  The automaton of the enable flag: \<open>tick\<close> is \<open>lv_tick_get\<close> and \<open>elaps\<close> is \<open>lv_tick_elaps\<close>
  at this call.
\<close>

definition fade_enable :: "u32 \<Rightarrow> (u32 \<Rightarrow> u32) \<Rightarrow> backlight \<Rightarrow> backlight" where
  "fade_enable tick elaps s =
     (if bk_cur_en s \<noteq> bk_en s then
        if bk_cur_en s = 0 then s\<lparr>bk_cur_en := bk_en s\<rparr>
        else if bk_timeout s > 0 then
          if bk_start s = 0 then s\<lparr>bk_start := tick\<rparr>
          else if uint (elaps (bk_start s)) > bk_timeout s then s\<lparr>bk_cur_en := bk_en s\<rparr>
          else s
        else s
      else s\<lparr>bk_start := 0\<rparr>)"

text \<open>
  The wait for release: every read of the device gives its state, then the time since the
  press is looked at. \<open>None\<close> is still waiting when the given reads are used up.
\<close>

fun wait_release :: "(bool \<times> u32) list \<Rightarrow> bool option" where
  "wait_release [] = None"
| "wait_release ((pressed, elapsed) # rs) =
     (if elapsed > 10000 then Some False
      else if \<not> pressed then Some True
      else wait_release rs)"

text \<open>The walk over the input devices: each with its state and the reads that follow.\<close>

fun poll_indevs :: "(bool \<times> (bool \<times> u32) list) list \<Rightarrow> bool option" where
  "poll_indevs [] = Some False"
| "poll_indevs ((pressed, rs) # ds) =
     (if pressed then map_option (\<lambda>_. True) (wait_release rs) else poll_indevs ds)"

definition backlight_cb ::
    "u32 \<Rightarrow> (u32 \<Rightarrow> u32) \<Rightarrow> (bool \<times> (bool \<times> u32) list) list \<Rightarrow> backlight \<Rightarrow>
     (bk_call list \<times> backlight) option" where
  "backlight_cb tick elaps devs s =
     (case level_to_brightness (bk_level s) of
        None \<Rightarrow> None
      | Some target_value \<Rightarrow>
          let s1 = fade_enable tick elaps (s\<lparr>bk_cur_value := fade_value target_value (bk_cur_value s)\<rparr>);
              (c1, s2) = update_backlight (bk_cur_en s1) (bk_cur_value s1) s1
          in if bk_cur_en s2 \<noteq> 0 then Some (c1, s2)
             else (case poll_indevs devs of
                     None \<Rightarrow> None
                   | Some False \<Rightarrow> Some (c1, s2)
                   | Some True \<Rightarrow>
                       let (c2, s3) = update_backlight 1 (bk_cur_value s2) (s2\<lparr>bk_cur_en := 1\<rparr>)
                       in Some (c1 @ c2, s3)))"

text \<open>A sensor read: \<open>(continue_reading, value)\<close>\<close>

definition lsensor_cb :: "bool \<times> int \<Rightarrow> backlight \<Rightarrow> backlight" where
  "lsensor_cb data s = (case data of (continue_reading, key) \<Rightarrow>
     if continue_reading then s else s\<lparr>bk_level := key\<rparr>)"

definition psensor_cb :: "bool \<times> int \<Rightarrow> backlight \<Rightarrow> backlight" where
  "psensor_cb data s = (case data of (continue_reading, state) \<Rightarrow>
     if continue_reading then s else s\<lparr>bk_en := state\<rparr>)"

text \<open>\<open>LV_EVENT_PRESSED\<close> and \<open>LV_EVENT_RELEASED\<close> are LVGL's.\<close>

definition touchpad_feedback :: "int \<Rightarrow> int \<Rightarrow> u32 \<Rightarrow> int \<Rightarrow> backlight \<Rightarrow> backlight" where
  "touchpad_feedback ev_pressed ev_released tick code s =
     (if code \<ge> ev_pressed \<and> code \<le> ev_released then s\<lparr>bk_start := tick\<rparr> else s)"

subsection \<open>Initialisation\<close>

text \<open>
  The drivers are there when they and their read functions are; \<open>indevs\<close> is the number of
  input devices.
\<close>

definition lvgl_init :: "bool \<Rightarrow> bool \<Rightarrow> int \<Rightarrow> nat \<Rightarrow> backlight \<Rightarrow> (bk_call list \<times> backlight) option" where
  "lvgl_init lsensor psensor fd indevs s =
     (if lsensor \<and> psensor then
        (case rd brightness (bk_level s) of
           None \<Rightarrow> None
         | Some v \<Rightarrow>
             let (c, s') = update_backlight (bk_en s) v (s\<lparr>bk_fd := fd\<rparr>) in
             Some ([Timer_create ''lsensor_cb'' 100, Timer_create ''psensor_cb'' 100,
                    Timer_create ''backlight_cb'' 50] @
                   (if fd \<le> 0 then [Log_error ''open backlight node failed''] else []) @
                   c @ map Set_feedback [0..<indevs],
                   s'\<lparr>bk_en := 0\<rparr>))
      else Some ([], s))"

datatype scr_dir = Dir_hor | Dir_ver

definition check_scr :: "int \<Rightarrow> int \<Rightarrow> scr_dir" where
  "check_scr scr_w scr_h = (if scr_w > scr_h then Dir_hor else Dir_ver)"

text \<open>\<open>ALIGN\<close>, \<open>RK_PCT_W\<close> and \<open>RK_PCT_H\<close> of \<open>main.h\<close>; \<open>lv_pct\<close> is LVGL's.\<close>

definition align_up :: "int \<Rightarrow> int \<Rightarrow> int" where
  "align_up x a = and (x + (a - 1)) (not (a - 1))"

definition rk_pct :: "(int \<Rightarrow> int) \<Rightarrow> int \<Rightarrow> int \<Rightarrow> int" where
  "rk_pct lv_pct scr x =
     (if scr \<noteq> 0 then c_trunc (fl 24 (fl 24 (fl 24 (of_int scr) * of_int x) / 100)) else lv_pct x)"

text \<open>The weights of the small, medium and large font.\<close>

definition font_init :: "(int \<Rightarrow> int) \<Rightarrow> int \<Rightarrow> int \<Rightarrow> int \<times> int \<times> int" where
  "font_init lv_pct scr_w scr_h =
     (let scr = (if check_scr scr_w scr_h = Dir_hor then scr_w else scr_h)
      in (align_up (rk_pct lv_pct scr 2) 2, align_up (rk_pct lv_pct scr 3) 2,
          align_up (rk_pct lv_pct scr 9) 2))"

subsection \<open>The screen-timeout setting\<close>

definition timeout_value :: "int list" where
  "timeout_value = [5000, 60000, 120000, 300000, -1]"

text \<open>\<open>selected_id\<close> is clamped to the length of the table, one past its end.\<close>

definition screen_timeout_cb :: "int \<Rightarrow> backlight \<Rightarrow> (int \<times> backlight) option" where
  "screen_timeout_cb sel s =
     (let selected_id = (if sel > int (length timeout_value) then int (length timeout_value) else sel)
      in case rd timeout_value selected_id of
           None \<Rightarrow> None
         | Some t \<Rightarrow> Some (selected_id, backlight_set_timeout t s))"

subsection \<open>The fade\<close>

lemma half_step_eq:
  assumes "0 < d" "d < 2 ^ 53"
  shows "half_step d = (if d = 1 then 2 else d div 2)"
proof -
  have "0 \<le> fl 53 (of_int d / 2)" using assms by (intro fl_sign) auto
  moreover have "\<lfloor>fl 53 (of_int d / of_int 2)\<rfloor> = d div 2"
    using assms by (intro double.floor_quotient) auto
  ultimately have "c_trunc (fl 53 (of_int d / 2)) = d div 2" by (simp add: c_trunc_def)
  moreover have "d div 2 = 0 \<longleftrightarrow> d = 1" using assms(1) by auto
  ultimately show ?thesis by (simp add: half_step_def)
qed

lemma fade_value_step:
  assumes "\<bar>cur - target\<bar> < 2 ^ 53"
  shows "\<bar>fade_value target cur - target\<bar> = (if \<bar>cur - target\<bar> \<le> 1 then 0 else (\<bar>cur - target\<bar> + 1) div 2)"
    and "min cur target \<le> fade_value target cur" and "fade_value target cur \<le> max cur target"
proof -
  consider "cur = target" | "target < cur" | "cur < target" by linarith
  then have "\<bar>fade_value target cur - target\<bar> =
      (if \<bar>cur - target\<bar> \<le> 1 then 0 else (\<bar>cur - target\<bar> + 1) div 2) \<and>
    min cur target \<le> fade_value target cur \<and> fade_value target cur \<le> max cur target"
  proof cases
    case 2
    with assms show ?thesis
      using half_step_eq [of "cur - target"] by (simp add: fade_value_def Let_def) presburger
  next
    case 3
    with assms show ?thesis
      using half_step_eq [of "target - cur"] by (simp add: fade_value_def Let_def) presburger
  qed (simp add: fade_value_def)
  then show "\<bar>fade_value target cur - target\<bar> = (if \<bar>cur - target\<bar> \<le> 1 then 0 else (\<bar>cur - target\<bar> + 1) div 2)"
    "min cur target \<le> fade_value target cur" "fade_value target cur \<le> max cur target" by blast+
qed

lemma fade_converges:
  assumes "\<bar>cur - target\<bar> \<le> 2 ^ k" and "k \<le> 8"
  shows "\<bar>(fade_value target ^^ n) cur - target\<bar> \<le> (if n \<le> k then 2 ^ (k - n) else 0)"
proof (induction n)
  case 0
  with assms show ?case by simp
next
  case (Suc n)
  let ?c = "(fade_value target ^^ n) cur"
  have le: "\<bar>?c - target\<bar> \<le> (if n \<le> k then 2 ^ (k - n) else 0)" by (rule Suc)
  also have "\<dots> \<le> 2 ^ 8" using assms(2) power_increasing [of "k - n" 8 "2 :: int"] by simp
  finally have "\<bar>?c - target\<bar> < 2 ^ 53" by simp
  note step = fade_value_step(1) [OF this]
  show ?case
  proof (cases "n < k")
    case True
    then obtain j where j: "k - n = Suc j" by (metis Suc_diff_Suc)
    with le True have "\<bar>?c - target\<bar> \<le> 2 * 2 ^ j" by simp
    then have "(\<bar>?c - target\<bar> + 1) div 2 \<le> 2 ^ j" by linarith
    moreover have "k - Suc n = j" using j by simp
    ultimately show ?thesis using True step by simp
  next
    case False
    with le have "\<bar>?c - target\<bar> \<le> 1" by (cases "n = k") auto
    with False step show ?thesis by simp
  qed
qed

subsection \<open>Running the callbacks\<close>

datatype bk_event =
    Ev_timer u32 "u32 \<Rightarrow> u32" "(bool \<times> (bool \<times> u32) list) list"
  | Ev_light "bool \<times> int"
  | Ev_presence "bool \<times> int"
  | Ev_touch u32 int
  | Ev_timeout int

fun bk_handle :: "int \<Rightarrow> int \<Rightarrow> bk_event \<Rightarrow> backlight \<Rightarrow> (bk_call list \<times> backlight) option" where
  "bk_handle p r (Ev_timer tick elaps devs) s = backlight_cb tick elaps devs s"
| "bk_handle p r (Ev_light d) s = Some ([], lsensor_cb d s)"
| "bk_handle p r (Ev_presence d) s = Some ([], psensor_cb d s)"
| "bk_handle p r (Ev_touch tick code) s = Some ([], touchpad_feedback p r tick code s)"
| "bk_handle p r (Ev_timeout sel) s = map_option (\<lambda>(_, s). ([], s)) (screen_timeout_cb sel s)"

inductive bk_reach :: "int \<Rightarrow> int \<Rightarrow> bk_call list \<Rightarrow> backlight \<Rightarrow> bool" for p r where
  init: "0 < fd \<Longrightarrow> lvgl_init True True fd n bk_boot = Some (c, s) \<Longrightarrow> bk_reach p r c s"
| step: "bk_reach p r cs s \<Longrightarrow> bk_handle p r e s = Some (c, s') \<Longrightarrow> bk_reach p r (cs @ c) s'"

text \<open>The panel: the value in the node and whether touch input is on.\<close>

fun panel_call :: "bk_call \<Rightarrow> int \<times> bool \<Rightarrow> int \<times> bool" where
  "panel_call (Indev_enable b) (v, _) = (v, b)"
| "panel_call (Write_node v) (_, b) = (v, b)"
| "panel_call _ d = d"

definition panel :: "bk_call list \<Rightarrow> int \<times> bool \<Rightarrow> int \<times> bool" where
  "panel cs d = fold panel_call cs d"

lemma panel_append [simp]: "panel (cs @ ds) d = panel ds (panel cs d)"
  by (simp add: panel_def)

lemma panel_simps [simp]: "panel [] d = d" "panel (c # cs) d = panel cs (panel_call c d)"
  by (simp_all add: panel_def)

lemma panel_other: "(\<And>c. c \<in> set cs \<Longrightarrow> \<forall>d. panel_call c d = d) \<Longrightarrow> panel cs d = d"
  by (induction cs arbitrary: d) auto

definition level_ok :: "int \<Rightarrow> bool" where
  "level_ok v \<longleftrightarrow> 45 \<le> v \<and> v \<le> 255"

lemma level_to_brightness_ok: "level_to_brightness l = Some v \<Longrightarrow> level_ok v"
proof -
  assume l: "level_to_brightness l = Some v"
  then have "v \<in> set brightness" by (auto simp: level_to_brightness_def rd_def split: if_splits)
  then show ?thesis by (auto simp: brightness_def level_ok_def)
qed

lemma fade_value_ok: "level_ok t \<Longrightarrow> level_ok c \<Longrightarrow> level_ok (fade_value t c)"
  using fade_value_step(2,3) [of c t] by (simp add: level_ok_def abs_less_iff min_def max_def split: if_splits)

lemma u8_of_level:
  assumes "level_ok v"
  shows "uint (word_of_int v :: u8) = v" "(word_of_int v :: u8) \<noteq> 0"
proof -
  show e: "uint (word_of_int v :: u8) = v"
    using assms by (simp add: level_ok_def uint_word_of_int)
  then show "(word_of_int v :: u8) \<noteq> 0" using assms by (auto simp: level_ok_def)
qed

text \<open>The panel shows \<open>last_value\<close>, and touch input is on when it is not 0.\<close>

definition shows_last :: "backlight \<Rightarrow> int \<times> bool \<Rightarrow> bool" where
  "shows_last s d \<longleftrightarrow> d = (uint (bk_last s), bk_last s \<noteq> 0)"

lemma update_backlight_panel:
  assumes "update_backlight en v s = (c, s')" and "0 < bk_fd s" and "shows_last s d"
  shows "shows_last s' (panel c d)" "s' = s\<lparr>bk_last := (if en \<noteq> 0 then word_of_int v else 0)\<rparr>"
  using assms by (auto simp: update_backlight_def Let_def shows_last_def split: if_splits)

definition bk_inv :: "backlight \<Rightarrow> bool" where
  "bk_inv s \<longleftrightarrow> 0 < bk_fd s \<and> level_ok (bk_cur_value s) \<and>
     bk_last s = (if bk_cur_en s \<noteq> 0 then word_of_int (bk_cur_value s) else 0)"

lemma update_backlight_other:
  "update_backlight e v x = (c, y) \<Longrightarrow> bk_cur_en y = bk_cur_en x \<and> bk_level y = bk_level x \<and>
     bk_cur_value y = bk_cur_value x"
  by (auto simp: update_backlight_def Let_def split: if_splits)

lemma fade_enable_other [simp]:
  "bk_fd (fade_enable t e s) = bk_fd s" "bk_cur_value (fade_enable t e s) = bk_cur_value s"
  "bk_last (fade_enable t e s) = bk_last s" "bk_level (fade_enable t e s) = bk_level s"
  by (auto simp: fade_enable_def)

lemma backlight_cb_inv:
  assumes cb: "backlight_cb tick elaps devs s = Some (c, s')" and inv: "bk_inv s" and d: "shows_last s d"
  shows "bk_inv s' \<and> shows_last s' (panel c d)"
proof -
  from cb obtain t where t: "level_to_brightness (bk_level s) = Some t"
    by (auto simp: backlight_cb_def split: option.splits)
  define s1 where "s1 = fade_enable tick elaps (s\<lparr>bk_cur_value := fade_value t (bk_cur_value s)\<rparr>)"
  obtain c1 s2 where u1: "update_backlight (bk_cur_en s1) (bk_cur_value s1) s1 = (c1, s2)"
    by (metis surj_pair)
  have s1: "0 < bk_fd s1" "level_ok (bk_cur_value s1)" "shows_last s1 d"
    using inv d fade_value_ok [OF level_to_brightness_ok [OF t]]
    by (auto simp: s1_def bk_inv_def shows_last_def)
  note p1 = update_backlight_panel [OF u1 s1(1,3)]
  have i2: "bk_inv s2" using s1 p1(2) by (simp add: bk_inv_def)
  obtain c2 s3 where u2: "update_backlight 1 (bk_cur_value s2) (s2\<lparr>bk_cur_en := 1\<rparr>) = (c2, s3)"
    by (metis surj_pair)
  have "shows_last (s2\<lparr>bk_cur_en := 1\<rparr>) (panel c1 d)" using p1(1) by (simp add: shows_last_def)
  from update_backlight_panel [OF u2 _ this] i2
  have p2: "shows_last s3 (panel c2 (panel c1 d))" "bk_inv s3" by (auto simp: bk_inv_def)
  from cb have "(c, s') = (c1, s2) \<or> (c, s') = (c1 @ c2, s3)"
    by (auto simp: backlight_cb_def t Let_def u1 u2 s1_def [symmetric] split: option.splits bool.splits if_splits)
  with p1(1) i2 p2 show ?thesis by auto
qed

lemma lvgl_init_inv:
  assumes "0 < fd" and "lvgl_init True True fd n bk_boot = Some (c, s)"
  shows "bk_inv s \<and> shows_last s (panel c d)"
proof -
  have fb: "panel (map Set_feedback ns) d = d" for ns d by (rule panel_other) auto
  from assms show ?thesis
    by (cases d) (auto simp: lvgl_init_def bk_boot_def brightness_def rd_def update_backlight_def Let_def fb
      bk_inv_def shows_last_def level_ok_def)
qed

lemma bk_reach_inv:
  assumes "bk_reach p r cs s"
  shows "bk_inv s \<and> shows_last s (panel cs d)"
  using assms
proof induction
  case (init fd n c s)
  then show ?case by (rule lvgl_init_inv)
next
  case (step cs s e c s')
  show ?case
  proof (cases e)
    case (Ev_timer tick elaps devs)
    with step backlight_cb_inv [of tick elaps devs s c s' "panel cs d"] show ?thesis by simp
  next
    case (Ev_timeout sel)
    with step show ?thesis
      by (auto simp: screen_timeout_cb_def Let_def backlight_set_timeout_def bk_inv_def shows_last_def split: option.splits)
  qed (use step in \<open>auto simp: lsensor_cb_def psensor_cb_def touchpad_feedback_def bk_inv_def shows_last_def
        split: prod.splits if_splits\<close>)
qed

subsection \<open>Properties\<close>


text \<open>
  C29. The screen is switched off by the timer only with nobody in front of it, a positive
  timeout that has run out since the start tick was taken, and no input device pressed. With
  the setting \<open>never\<close>, whose value is -1, it stays on.
\<close>

theorem backlight_off_only_by_timeout:
  assumes "backlight_cb tick elaps devs s = Some (c, s')" and "bk_cur_en s \<noteq> 0" and "bk_cur_en s' = 0"
  shows "bk_en s = 0 \<and> 0 < bk_timeout s \<and> bk_start s \<noteq> 0 \<and>
    bk_timeout s < uint (elaps (bk_start s)) \<and> (\<forall>(pressed, rs) \<in> set devs. \<not> pressed)"
proof -
  from assms(1) obtain t where t: "level_to_brightness (bk_level s) = Some t"
    by (auto simp: backlight_cb_def split: option.splits)
  let ?s1 = "fade_enable tick elaps (s\<lparr>bk_cur_value := fade_value t (bk_cur_value s)\<rparr>)"
  have p: "poll_indevs devs = Some False \<Longrightarrow> \<forall>(pressed, rs) \<in> set devs. \<not> pressed"
    by (induction devs rule: poll_indevs.induct) (auto split: if_splits)
  have "bk_cur_en ?s1 = 0 \<and> poll_indevs devs = Some False"
    using assms(1,3)
    by (auto simp: backlight_cb_def t Let_def dest!: update_backlight_other
      split: prod.splits if_splits option.splits bool.splits)
  with assms(2) p show ?thesis by (auto simp: fade_enable_def split: if_splits)
qed

fun timer_run :: "(u32 \<times> (u32 \<Rightarrow> u32) \<times> (bool \<times> (bool \<times> u32) list) list) list \<Rightarrow> backlight \<Rightarrow> backlight option" where
  "timer_run [] s = Some s"
| "timer_run ((tick, elaps, devs) # ins) s =
     (case backlight_cb tick elaps devs s of None \<Rightarrow> None | Some (_, s') \<Rightarrow> timer_run ins s')"

lemma backlight_cb_value:
  assumes "level_to_brightness (bk_level s) = Some t" and "poll_indevs devs \<noteq> None"
  shows "\<exists>c s'. backlight_cb tick elaps devs s = Some (c, s') \<and> bk_level s' = bk_level s \<and>
    bk_cur_value s' = fade_value t (bk_cur_value s)"
proof -
  let ?s1 = "fade_enable tick elaps (s\<lparr>bk_cur_value := fade_value t (bk_cur_value s)\<rparr>)"
  from assms show ?thesis
    by (auto simp: backlight_cb_def Let_def dest!: update_backlight_other
      split: prod.splits option.splits bool.splits)
qed

lemma timer_run_value:
  assumes "level_to_brightness (bk_level s) = Some t"
    and "\<forall>(tick, elaps, devs) \<in> set ins. poll_indevs devs \<noteq> None"
  shows "\<exists>s'. timer_run ins s = Some s' \<and> bk_level s' = bk_level s \<and>
    bk_cur_value s' = (fade_value t ^^ length ins) (bk_cur_value s)"
  using assms
proof (induction ins arbitrary: s)
  case (Cons i ins)
  obtain tick elaps devs where i: "i = (tick, elaps, devs)" by (cases i)
  with Cons.prems backlight_cb_value [of s t devs tick elaps] obtain c s1 where
    "backlight_cb tick elaps devs s = Some (c, s1)" "bk_level s1 = bk_level s"
    "bk_cur_value s1 = fade_value t (bk_cur_value s)" by auto
  with Cons.IH [of s1] Cons.prems show ?case by (auto simp: i funpow_swap1)
qed simp

text \<open>
  C30. While the light level stays the same, nine runs of the timer bring the brightness to
  the value of that level, whatever the devices do that are not held for ever.
\<close>

theorem backlight_settles:
  assumes "0 \<le> bk_level s" "bk_level s < 8" and "0 \<le> bk_cur_value s" "bk_cur_value s \<le> 255"
    and "\<forall>(tick, elaps, devs) \<in> set ins. poll_indevs devs \<noteq> None" and "9 \<le> length ins"
  shows "\<exists>s'. timer_run ins s = Some s' \<and> bk_cur_value s' = brightness ! nat (bk_level s)"
proof -
  let ?t = "brightness ! nat (bk_level s)"
  have t: "level_to_brightness (bk_level s) = Some ?t"
    using assms(1,2) by (simp add: level_to_brightness_def rd_def brightness_def)
  from level_to_brightness_ok [OF t] assms(3,4) have "\<bar>bk_cur_value s - ?t\<bar> \<le> 2 ^ 8"
    by (auto simp: level_ok_def)
  from fade_converges [OF this, of "length ins"] assms(6)
  have "(fade_value ?t ^^ length ins) (bk_cur_value s) = ?t" by simp
  with timer_run_value [OF t assms(5)] show ?thesis by auto
qed

text \<open>The table is left at eight levels and above, and at the fifth entry of the dropdown.\<close>

lemma level_out_of_table: "level_to_brightness level = None \<longleftrightarrow> 8 \<le> level"
  by (auto simp: level_to_brightness_def rd_def brightness_def)

lemma screen_timeout_out_of_table: "0 \<le> sel \<Longrightarrow> screen_timeout_cb sel s = None \<longleftrightarrow> 5 \<le> sel"
  by (auto simp: screen_timeout_cb_def rd_def timeout_value_def Let_def)

text \<open>A press while the screen is off switches it on in the same callback.\<close>

definition off_state :: backlight where
  "off_state = \<lparr>bk_en = 0, bk_level = 0, bk_fd = 3, bk_timeout = 5000, bk_start = 0, bk_last = 0,
     bk_cur_en = 0, bk_cur_value = 45\<rparr>"

lemma press_wakes:
  "backlight_cb 9 (\<lambda>_. 0) [(False, []), (True, [(True, 50), (False, 100)])] off_state =
     Some ([Indev_enable True, Write_node 45], off_state\<lparr>bk_cur_en := 1, bk_last := 45\<rparr>)"
  by (simp add: off_state_def backlight_cb_def level_to_brightness_def rd_def brightness_def
    fade_value_def fade_enable_def update_backlight_def)

lemma font_weight_even: "2 dvd fst (font_init lv_pct w h)"
proof -
  have "2 dvd align_up x 2" for x by (simp add: align_up_def even_and_iff even_not_iff)
  then show ?thesis by (simp add: font_init_def Let_def)
qed

definition boot_3 :: backlight where
  "boot_3 = bk_boot\<lparr>bk_fd := 3, bk_last := 255, bk_en := 0\<rparr>"

lemma bk_reach_boot: "\<exists>cs. bk_reach p r cs boot_3"
proof -
  have "\<exists>c. lvgl_init True True 3 2 bk_boot = Some (c, boot_3)"
    by (auto simp: lvgl_init_def bk_boot_def boot_3_def brightness_def rd_def update_backlight_def Let_def)
  then show ?thesis using bk_reach.init [of 3 2] by fastforce
qed


definition idle_state :: backlight where
  "idle_state = boot_3\<lparr>bk_start := 100\<rparr>"

lemma backlight_off_only_by_timeout_witness:
  "\<exists>c s'. backlight_cb 6000 (\<lambda>t. 6000 - t) [(False, [])] idle_state = Some (c, s') \<and> bk_cur_en s' = 0 \<and>
     bk_timeout idle_state < uint (6000 - bk_start idle_state)"
proof -
  have "\<exists>c s'. backlight_cb 6000 (\<lambda>t. 6000 - t) [(False, [])] idle_state = Some (c, s') \<and> bk_cur_en s' = 0"
    by (simp add: idle_state_def boot_3_def bk_boot_def backlight_cb_def level_to_brightness_def rd_def
      brightness_def fade_value_def fade_enable_def update_backlight_def)
  moreover have "bk_cur_en idle_state \<noteq> 0" by (simp add: idle_state_def boot_3_def bk_boot_def)
  ultimately show ?thesis using backlight_off_only_by_timeout by blast
qed

lemma backlight_settles_witness:
  "\<exists>s'. timer_run (replicate 9 (0, \<lambda>_. 0, [])) (boot_3\<lparr>bk_level := 2\<rparr>) = Some s' \<and> bk_cur_value s' = 105"
  using backlight_settles [of "boot_3\<lparr>bk_level := 2\<rparr>" "replicate 9 (0, \<lambda>_. 0, [])"]
  by (auto simp: boot_3_def bk_boot_def brightness_def)

end
