(* ===== verification/Toast.thy ===== *)
theory Toast
  imports C_Float
begin

text \<open>
  \<open>lv_toast.c\<close>: a label that fades in, stays and fades out. The toast is a record of the
  fields the widget adds and of the object state LVGL keeps for it; a deleted toast is \<open>live\<close>
  no more, and touching it is \<open>None\<close>. What \<open>lv_anim_del\<close> does to the object is a parameter:
  LVGL documents that it calls the \<open>deleted_cb\<close> of the animations it removes.
\<close>

record toast =
  to_origin_y :: int
  to_start_offset :: int
  to_opa :: int
  to_duration :: int
  to_fade_time :: int
  to_auto_delete :: bool
  to_live :: bool
  to_hidden :: bool
  to_y :: int
  to_bg_opa :: int
  to_text_opa :: int
  to_anim :: bool

text \<open>\<open>lv_toast_constructor\<close>; \<open>LV_OPA_COVER\<close> is 255 and a new object is not hidden.\<close>

definition lv_toast_constructor :: toast where
  "lv_toast_constructor = \<lparr>to_origin_y = 0, to_start_offset = 20, to_opa = 255, to_duration = 3000,
     to_fade_time = 150, to_auto_delete = True, to_live = True, to_hidden = False, to_y = 0,
     to_bg_opa = 0, to_text_opa = 0, to_anim = False\<rparr>"

text \<open>The division is in single precision; dividing by zero is \<open>None\<close>.\<close>

definition remap :: "int \<Rightarrow> int \<Rightarrow> int \<Rightarrow> int \<Rightarrow> int \<Rightarrow> int option" where
  "remap from_min from_max to_min to_max val =
     (if from_max = from_min then None
      else let ratio = fl 24 (fl 24 (of_int (val - from_min)) / fl 24 (of_int (from_max - from_min)))
           in Some (c_trunc (fl 24 (ratio * fl 24 (of_int (to_max - to_min)))) + to_min))"

text \<open>The opacity and the offset at time \<open>x\<close> of the animation.\<close>

definition fade_at :: "toast \<Rightarrow> int \<Rightarrow> (int \<times> int) option" where
  "fade_at t x =
     (if x < to_fade_time t then
        (case remap 0 (to_fade_time t) 0 (to_opa t) x of
           None \<Rightarrow> None
         | Some value \<Rightarrow>
             map_option (\<lambda>ofs_y. (value, ofs_y)) (remap 0 (to_fade_time t) (to_start_offset t) 0 x))
      else if x > to_duration t + to_fade_time t then
        map_option (\<lambda>value. (value, 0))
          (remap 0 (to_fade_time t) (to_opa t) 0 (x - (to_duration t + to_fade_time t)))
      else Some (to_opa t, 0))"

definition toast_fade_in_out :: "int \<Rightarrow> toast \<Rightarrow> toast option" where
  "toast_fade_in_out x t =
     (case fade_at t x of
        None \<Rightarrow> None
      | Some (value, ofs_y) \<Rightarrow>
          if to_live t then
            Some (t\<lparr>to_y := to_origin_y t + ofs_y, to_bg_opa := value, to_text_opa := value\<rparr>)
          else None)"

definition toast_deleted_cb :: "toast \<Rightarrow> toast option" where
  "toast_deleted_cb t =
     (if \<not> to_live t then None
      else if \<not> to_auto_delete t then Some (t\<lparr>to_hidden := True\<rparr>)
      else Some (t\<lparr>to_live := False\<rparr>))"

text \<open>
  \<open>refr\<close> is the y coordinate \<open>lv_obj_get_y\<close> gives after the refresh. The animation that is
  started runs from 0 to the returned length.
\<close>

definition lv_toast_show :: "(toast \<Rightarrow> toast option) \<Rightarrow> int \<Rightarrow> toast \<Rightarrow> (int \<times> toast) option" where
  "lv_toast_show anim_del refr t =
     (if \<not> to_live t then None
      else case (if \<not> to_hidden t then anim_del t else Some t) of
        None \<Rightarrow> None
      | Some t1 \<Rightarrow>
          if \<not> to_live t1 then None
          else Some (to_duration t1 + to_fade_time t1 * 2,
            t1\<lparr>to_origin_y := refr, to_y := refr + to_start_offset t1, to_anim := True,
               to_hidden := False\<rparr>))"

text \<open>The documented \<open>lv_anim_del\<close>: a running animation is removed and its callback called.\<close>

definition anim_del_doc :: "toast \<Rightarrow> toast option" where
  "anim_del_doc t = (if to_anim t then toast_deleted_cb (t\<lparr>to_anim := False\<rparr>) else Some t)"

text \<open>The animation after its last step.\<close>

definition anim_end :: "toast \<Rightarrow> toast option" where
  "anim_end t = toast_deleted_cb (t\<lparr>to_anim := False\<rparr>)"

subsection \<open>The interpolation\<close>

lemma trunc_bounds:
  "of_int a \<le> q \<Longrightarrow> q \<le> of_int b \<Longrightarrow> a \<le> c_trunc q \<and> c_trunc q \<le> b"
  unfolding c_trunc_def by (auto simp: le_floor_iff floor_le_iff) linarith+

lemma ratio_unit:
  assumes "0 \<le> x" "x \<le> d" "0 < d" "d < 2 ^ 24"
  defines "r \<equiv> fl 24 (fl 24 (of_int x) / fl 24 (of_int d))"
  shows "0 \<le> r" "r \<le> 1" "x = d \<Longrightarrow> r = 1" "x = 0 \<Longrightarrow> r = 0"
proof -
  have e: "fl 24 (of_int x) = of_int x" "fl 24 (of_int d) = of_int d"
    using assms by (auto intro!: single.rnd_int)
  have "of_int 0 \<le> r" unfolding r_def using assms by (intro single.rnd_lower) (auto simp: e)
  then show "0 \<le> r" by simp
  have "r \<le> of_int 1" unfolding r_def using assms by (intro single.rnd_upper) (auto simp: e)
  then show "r \<le> 1" by simp
  show "x = d \<Longrightarrow> r = 1" using assms single.rnd_int [of 1] by (simp add: r_def e)
  show "x = 0 \<Longrightarrow> r = 0" by (simp add: r_def)
qed

lemma remap_bounds:
  assumes x: "0 \<le> x" "x \<le> d" "0 < d" "d < 2 ^ 24" and to: "\<bar>a\<bar> < 2 ^ 23" "\<bar>b\<bar> < 2 ^ 23"
  shows "\<exists>v. remap 0 d a b x = Some v \<and> min a b \<le> v \<and> v \<le> max a b \<and>
    (x = 0 \<longrightarrow> v = a) \<and> (x = d \<longrightarrow> v = b)"
proof -
  define r where "r = fl 24 (fl 24 (of_int x) / fl 24 (of_int d))"
  note r = ratio_unit [OF x, folded r_def]
  have e: "fl 24 (of_int (b - a)) = of_int (b - a)" using to by (intro single.rnd_int) auto
  let ?p = "fl 24 (r * of_int (b - a))"
  have "of_int (min 0 (b - a)) \<le> ?p"
  proof (rule single.rnd_lower)
    show "of_int (min 0 (b - a)) \<le> r * of_int (b - a)"
      using r(1,2) mult_right_mono_neg [of r 1 "of_int (b - a)"]
      by (cases "0 \<le> b - a") (auto simp: min_def simp del: of_int_diff)
  qed (use to in auto)
  moreover have "?p \<le> of_int (max 0 (b - a))"
  proof (rule single.rnd_upper)
    show "r * of_int (b - a) \<le> of_int (max 0 (b - a))"
      using r(1,2) mult_right_mono [of r 1 "of_int (b - a)"]
      by (cases "0 \<le> b - a") (auto simp: max_def mult_le_0_iff simp del: of_int_diff)
  qed (use to in auto)
  ultimately have t: "min 0 (b - a) \<le> c_trunc ?p \<and> c_trunc ?p \<le> max 0 (b - a)"
    by (rule trunc_bounds)
  have "x = d \<longrightarrow> c_trunc ?p = b - a"
    using r(3) e trunc_bounds [of "b - a" "of_int (b - a)" "b - a"] by (simp del: of_int_diff)
  moreover have "x = 0 \<longrightarrow> c_trunc ?p = 0" using r(4) by (simp add: c_trunc_def)
  moreover have "remap 0 d a b x = Some (c_trunc ?p + a)"
    using x(3) by (simp add: remap_def Let_def e r_def del: of_int_diff)
  ultimately show ?thesis using t by auto
qed

text \<open>Fields a program can set: nothing negative, and below the precision of a \<open>float\<close>.\<close>

definition toast_ok :: "toast \<Rightarrow> bool" where
  "toast_ok t \<longleftrightarrow> 0 < to_fade_time t \<and> to_fade_time t < 2 ^ 24 \<and> 0 \<le> to_duration t \<and>
     0 \<le> to_start_offset t \<and> to_start_offset t < 2 ^ 15 \<and> 0 \<le> to_opa t \<and> to_opa t \<le> 255"



text \<open>
  A toast that hides itself can be shown again at any time: while it is fading the running
  animation is restarted, after it the label is shown again. A toast that deletes itself, which
  is the default, cannot: shown again while it is fading, it is deleted by its own callback and
  then used.
\<close>

theorem toast_show_again:
  assumes "to_live t"
  shows "(lv_toast_show anim_del_doc y t = None \<longleftrightarrow> to_auto_delete t \<and> to_anim t \<and> \<not> to_hidden t) \<and>
    (\<not> to_auto_delete t \<longrightarrow> (\<exists>n t'. lv_toast_show anim_del_doc y t = Some (n, t') \<and> to_live t' \<and>
      to_anim t' \<and> \<not> to_hidden t' \<and> to_y t' = y + to_start_offset t \<and>
      (\<exists>t''. anim_end t' = Some t'' \<and> to_live t'' \<and> to_hidden t'')))"
  using assms by (auto simp: lv_toast_show_def anim_del_doc_def toast_deleted_cb_def anim_end_def)

lemma toast_show_again_witness:
  "lv_toast_show anim_del_doc 20 lv_toast_constructor \<noteq> None \<and>
   lv_toast_show anim_del_doc 20 (lv_toast_constructor\<lparr>to_anim := True\<rparr>) = None"
  using toast_show_again [of lv_toast_constructor 20]
    toast_show_again [of "lv_toast_constructor\<lparr>to_anim := True\<rparr>" 20]
  by (simp add: lv_toast_constructor_def)

subsection \<open>The fields a program sets\<close>

text \<open>The setters and getters that the macros of \<open>lv_toast.h\<close> expand to, at the C types of the fields.\<close>

definition lv_toast_set_start_offset :: "16 word \<Rightarrow> toast \<Rightarrow> toast" where
  "lv_toast_set_start_offset v t = t\<lparr>to_start_offset := sint v\<rparr>"

definition lv_toast_set_opa :: "u8 \<Rightarrow> toast \<Rightarrow> toast" where
  "lv_toast_set_opa v t = t\<lparr>to_opa := uint v\<rparr>"

definition lv_toast_set_duration :: "u32 \<Rightarrow> toast \<Rightarrow> toast" where
  "lv_toast_set_duration v t = t\<lparr>to_duration := uint v\<rparr>"

definition lv_toast_set_fade_time :: "u32 \<Rightarrow> toast \<Rightarrow> toast" where
  "lv_toast_set_fade_time v t = t\<lparr>to_fade_time := uint v\<rparr>"

definition lv_toast_set_auto_delete :: "u8 \<Rightarrow> toast \<Rightarrow> toast" where
  "lv_toast_set_auto_delete v t = t\<lparr>to_auto_delete := (v \<noteq> 0)\<rparr>"

definition lv_toast_get_start_offset :: "toast \<Rightarrow> 16 word" where
  "lv_toast_get_start_offset t = word_of_int (to_start_offset t)"

definition lv_toast_get_opa :: "toast \<Rightarrow> u8" where
  "lv_toast_get_opa t = word_of_int (to_opa t)"

definition lv_toast_get_duration :: "toast \<Rightarrow> u32" where
  "lv_toast_get_duration t = word_of_int (to_duration t)"

definition lv_toast_get_fade_time :: "toast \<Rightarrow> u32" where
  "lv_toast_get_fade_time t = word_of_int (to_fade_time t)"

text \<open>A field of the widget: what is set is read back, the last setting counts, and setting deletes
  nothing.\<close>

locale toast_field =
  fixes get :: "toast \<Rightarrow> 'w" and put :: "'w \<Rightarrow> toast \<Rightarrow> toast"
  assumes get_put: "get (put v t) = v"
    and put_put: "put v (put w t) = put v t"
    and put_live: "to_live (put v t) = to_live t"
begin

lemma put_twice_get: "get (put v (put w t)) = v"
  by (simp add: put_put get_put)

lemma put_inj: "put v t = put w t \<Longrightarrow> v = w"
  using get_put by metis

end

lemmas toast_set_defs = lv_toast_set_start_offset_def lv_toast_set_opa_def lv_toast_set_duration_def
  lv_toast_set_fade_time_def lv_toast_set_auto_delete_def lv_toast_get_start_offset_def lv_toast_get_opa_def
  lv_toast_get_duration_def lv_toast_get_fade_time_def

interpretation start_offset: toast_field lv_toast_get_start_offset lv_toast_set_start_offset
  by unfold_locales (simp_all add: toast_set_defs)

interpretation opa: toast_field lv_toast_get_opa lv_toast_set_opa
  by unfold_locales (simp_all add: toast_set_defs)

interpretation duration: toast_field lv_toast_get_duration lv_toast_set_duration
  by unfold_locales (simp_all add: toast_set_defs)

interpretation fade_time: toast_field lv_toast_get_fade_time lv_toast_set_fade_time
  by unfold_locales (simp_all add: toast_set_defs)

text \<open>
  Whatever opacity and duration are set, the fields stay what \<open>toast_fade_envelope\<close> asks for; a
  negative offset and a fade time past the precision of a \<open>float\<close> are what it excludes.
\<close>

lemma toast_ok_set:
  assumes "toast_ok t"
  shows "toast_ok (lv_toast_set_opa o' t)" "toast_ok (lv_toast_set_duration d t)"
    "toast_ok (lv_toast_set_auto_delete a t)"
    "0 \<le> sint v \<Longrightarrow> toast_ok (lv_toast_set_start_offset v t)"
    "0 < f \<Longrightarrow> f < 2 ^ 24 \<Longrightarrow> toast_ok (lv_toast_set_fade_time f t)"
  using assms uint_lt2p [of o'] uint_lt2p [of d] sint_lt [of v]
  by (auto simp: toast_ok_def toast_set_defs word_less_def)

text \<open>The style shared by all toasts is set up once: \<open>prop_cnt\<close> counts its properties.\<close>

datatype style_prop = Bg_opa int | Bg_color_grey_lighten int | Text_opa int | Text_color_grey_darken int
  | Pad_all int | Radius int

definition toast_style_init :: "style_prop list \<Rightarrow> style_prop list" where
  "toast_style_init base_style =
     (if base_style \<noteq> [] then base_style
      else [Bg_opa 0, Bg_color_grey_lighten 4, Text_opa 0, Text_color_grey_darken 4, Pad_all 10, Radius 10])"

lemma toast_style_once: "toast_style_init (toast_style_init st) = toast_style_init st"
  by (simp add: toast_style_init_def)

end
