(* ===== verification/Cmd_Channel.thy ===== *)
theory Cmd_Channel
  imports RK_Prelude
begin

text \<open>
  The command channel of the two servers (\<open>wifibt/wifi_server.c\<close>, \<open>wifibt/bt_server.c\<close>): a
  pipe of bytes into which clients write \<open>struct wifibt_cmdarg\<close> and from which the server
  thread reads up to 1024 bytes at a time, a semaphore that a waiting client sleeps on, and the
  server's variables, which the command handler changes. Handler and variables are arguments
  here; \<open>Wifi_Server\<close> and \<open>Bt_Server\<close> supply them. The pipe is POSIX's: a write of a whole
  record is atomic, its result is a parameter.
\<close>

subsection \<open>The record on the wire\<close>

record cmdarg =
  ca_cmd :: u32
  ca_val :: "64 word"
  ca_wait :: bool

text \<open>Little-endian bytes; the struct has 24 of them, seven and four of which are padding.\<close>

definition le_bytes :: "nat \<Rightarrow> 'a::len word \<Rightarrow> u8 list" where
  "le_bytes n w = map (\<lambda>k. ucast (drop_bit (8 * k) w)) [0..<n]"

fun le_word :: "u8 list \<Rightarrow> 'a::len word" where
  "le_word [] = 0"
| "le_word (b # bs) = or (ucast b) (push_bit 8 (le_word bs))"

definition cmdarg_bytes :: "cmdarg \<Rightarrow> u8 list" where
  "cmdarg_bytes m = le_bytes 4 (ca_cmd m) @ replicate 4 0 @ le_bytes 8 (ca_val m) @
     [if ca_wait m then 1 else 0] @ replicate 7 0"

definition cmdarg_of :: "u8 list \<Rightarrow> cmdarg" where
  "cmdarg_of bs = \<lparr>ca_cmd = le_word (take 4 bs), ca_val = le_word (take 8 (drop 8 bs)),
     ca_wait = (bs ! 16 \<noteq> 0)\<rparr>"

subsection \<open>The operations\<close>

record 's chan =
  ch_listening :: bool
  ch_pipe :: "u8 list"
  ch_buf :: "u8 list"
  ch_sem :: nat
  ch_waiting :: nat
  ch_srv :: 's

text \<open>\<open>wifi_query\<close> and \<open>bt_query\<close>; \<open>wret\<close> is what \<open>write\<close> returns.\<close>

definition chan_query :: "int \<Rightarrow> cmdarg \<Rightarrow> 's chan \<Rightarrow> int \<times> 's chan" where
  "chan_query wret m c =
     (if \<not> ch_listening c then (-1, c)
      else if wret \<le> 0 then (wret, c)
      else (wret, c\<lparr>ch_pipe := ch_pipe c @ cmdarg_bytes (m\<lparr>ca_wait := False\<rparr>)\<rparr>))"

text \<open>
  \<open>wifi_query_wait\<close> and \<open>bt_query_wait\<close> up to \<open>sem_wait\<close>, which the client then sleeps in;
  \<open>chan_wake\<close> is its return.
\<close>

definition chan_query_wait :: "int \<Rightarrow> cmdarg \<Rightarrow> 's chan \<Rightarrow> int \<times> 's chan" where
  "chan_query_wait wret m c =
     (if \<not> ch_listening c then (-1, c)
      else if wret \<le> 0 then (wret, c)
      else (wret, c\<lparr>ch_pipe := ch_pipe c @ cmdarg_bytes (m\<lparr>ca_wait := True\<rparr>),
                    ch_waiting := ch_waiting c + 1\<rparr>))"

definition chan_wake :: "'s chan \<Rightarrow> 's chan option" where
  "chan_wake c = (if 0 < ch_sem c \<and> 0 < ch_waiting c
     then Some (c\<lparr>ch_sem := ch_sem c - 1, ch_waiting := ch_waiting c - 1\<rparr>) else None)"

text \<open>
  One turn of the server's loop; \<open>None\<close> is the \<open>read\<close> that blocks. What the read did not
  fill of the buffer keeps its old contents.
\<close>

definition chan_serve :: "(cmdarg \<Rightarrow> 's \<Rightarrow> 'c list \<times> 's) \<Rightarrow> 's chan \<Rightarrow> ('c list \<times> 's chan) option" where
  "chan_serve handle c =
     (if \<not> ch_listening c \<or> ch_pipe c = [] then None
      else let n = min 1024 (length (ch_pipe c));
               buf = take n (ch_pipe c) @ drop n (ch_buf c);
               cmdarg = cmdarg_of buf;
               (cs, srv) = handle cmdarg (ch_srv c)
           in Some (cs, c\<lparr>ch_pipe := drop n (ch_pipe c), ch_buf := buf, ch_srv := srv,
                         ch_sem := (if ca_wait cmdarg then ch_sem c + 1 else ch_sem c)\<rparr>))"

text \<open>
  \<open>while (times-- > 0 && !present) sleep\<close>: \<open>present k\<close> is the answer to the \<open>k\<close>-th question;
  the result is the number of questions asked. The servers use it to wait for \<open>wlan0\<close>,
  \<open>hci0\<close> and \<open>bluetoothd\<close>.
\<close>

fun poll_loop :: "nat \<Rightarrow> (nat \<Rightarrow> bool) \<Rightarrow> nat \<Rightarrow> nat" where
  "poll_loop 0 present k = k"
| "poll_loop (Suc n) present k = (if present k then Suc k else poll_loop n present (Suc k))"

lemma poll_loop_bounds: "k \<le> poll_loop n present k \<and> poll_loop n present k \<le> k + n"
proof (induction n arbitrary: k)
  case (Suc n)
  from Suc.IH [of "Suc k"] show ?case by auto
qed simp

lemma poll_loop_found:
  assumes "\<And>a b. a \<le> b \<Longrightarrow> present a \<Longrightarrow> present b" and "present j" "j \<le> k + n"
  shows "present (poll_loop n present k)"
  using assms(2,3)
proof (induction n arbitrary: k)
  case 0
  then show ?case using assms(1) by simp
next
  case (Suc n)
  then show ?case using assms(1) [of k "Suc k"] by auto
qed

subsection \<open>The wire format\<close>

lemma length_le_bytes [simp]: "length (le_bytes n w) = n"
  by (simp add: le_bytes_def)

lemma bit_le_word:
  "bit (le_word bs :: 'a::len word) k \<longleftrightarrow> k < LENGTH('a) \<and> k div 8 < length bs \<and> bit (bs ! (k div 8)) (k mod 8)"
proof (induction bs arbitrary: k)
  case Nil
  then show ?case by simp
next
  case (Cons b bs)
  show ?case
  proof (cases "k < 8")
    case True
    then show ?thesis by (auto simp: bit_or_iff bit_push_bit_iff bit_unsigned_iff)
  next
    case False
    then obtain j where j: "k = 8 + j" using le_Suc_ex not_less by blast
    then have k: "k div 8 = Suc ((k - 8) div 8)" "k mod 8 = (k - 8) mod 8" by simp_all
    have "\<not> bit b k" using False by (auto dest: bit_imp_le_length)
    with False k Cons.IH [of "k - 8"] show ?thesis
      by (auto simp: bit_or_iff bit_push_bit_iff bit_unsigned_iff)
  qed
qed

lemma le_word_bytes:
  assumes "LENGTH('a) \<le> 8 * n"
  shows "le_word (le_bytes n (w :: 'a::len word)) = w"
proof (rule bit_word_eqI)
  fix k
  assume k: "k < LENGTH('a)"
  with assms have "k div 8 < n" by linarith
  with k show "bit (le_word (le_bytes n w) :: 'a word) k = bit w k"
    by (simp add: bit_le_word le_bytes_def bit_unsigned_iff bit_drop_bit_eq)
qed

lemma length_cmdarg_bytes [simp]: "length (cmdarg_bytes m) = 24"
  by (simp add: cmdarg_bytes_def)

lemma cmdarg_of_bytes [simp]: "cmdarg_of (cmdarg_bytes m @ rest) = m"
  by (simp add: cmdarg_of_def cmdarg_bytes_def nth_append le_word_bytes)

text \<open>What the channel relies on of the record's layout, and what follows for a read.\<close>

locale wire =
  fixes enc :: "'m \<Rightarrow> u8 list" and dec :: "u8 list \<Rightarrow> 'm" and size :: nat
  assumes length_enc: "length (enc m) = size"
    and dec_enc: "dec (enc m @ rest) = m"
    and size_pos: "0 < size"
begin

lemma length_queue: "length (concat (map enc ms)) = size * length ms"
  by (induction ms) (auto simp: length_enc)

lemma read_queue:
  assumes "size * length ms \<le> N" "ms \<noteq> []"
  defines "p \<equiv> concat (map enc ms)"
  shows "drop (min N (length p)) p = []" "dec (take (min N (length p)) p @ rest) = hd ms" "p \<noteq> []"
proof -
  have len: "length p \<le> N" using assms length_queue by simp
  then show "drop (min N (length p)) p = []" by simp
  from assms(2) obtain m ms' where ms: "ms = m # ms'" by (cases ms) auto
  with len show "dec (take (min N (length p)) p @ rest) = hd ms"
    using dec_enc [of m] by (simp add: p_def)
  show "p \<noteq> []" using length_enc [of m] size_pos by (auto simp: p_def ms)
qed

end

interpretation cmdarg_wire: wire cmdarg_bytes cmdarg_of 24
  by unfold_locales simp_all


subsection \<open>Synchronous queries\<close>

text \<open>An idle channel: the server listens and nobody waits.\<close>

definition chan_idle :: "'s chan \<Rightarrow> bool" where
  "chan_idle c \<longleftrightarrow> ch_listening c \<and> ch_pipe c = [] \<and> ch_sem c = 0 \<and> ch_waiting c = 0"

text \<open>What one read of a queue of at most 42 records does.\<close>

lemma chan_serve_queue:
  assumes "ch_listening c" and "ch_pipe c = concat (map cmdarg_bytes ms)" and "ms \<noteq> []" "length ms \<le> 42"
    and "handle (hd ms) (ch_srv c) = (cs, srv)"
  shows "\<exists>buf. chan_serve handle c = Some (cs, c\<lparr>ch_pipe := [], ch_buf := buf, ch_srv := srv,
    ch_sem := (if ca_wait (hd ms) then ch_sem c + 1 else ch_sem c)\<rparr>)"
  using cmdarg_wire.read_queue(1,3) [of ms 1024] assms
    cmdarg_wire.read_queue(2) [of ms 1024 "drop (min 1024 (length (ch_pipe c))) (ch_buf c)"]
  by (auto simp: chan_serve_def Let_def)

text \<open>A waiting query, the server's turn, the client's return.\<close>

definition chan_call :: "(cmdarg \<Rightarrow> 's \<Rightarrow> 'c list \<times> 's) \<Rightarrow> int \<Rightarrow> cmdarg \<Rightarrow> 's chan \<Rightarrow> ('c list \<times> 's chan) option" where
  "chan_call handle wret m c =
     (case chan_query_wait wret m c of
        (r, c1) \<Rightarrow>
          if r \<le> 0 then Some ([], c1)
          else (case chan_serve handle c1 of
                  None \<Rightarrow> None
                | Some (cs, c2) \<Rightarrow> map_option (\<lambda>c3. (cs, c3)) (chan_wake c2)))"

fun chan_calls :: "(cmdarg \<Rightarrow> 's \<Rightarrow> 'c list \<times> 's) \<Rightarrow> cmdarg list \<Rightarrow> 's chan \<Rightarrow> ('c list \<times> 's chan) option" where
  "chan_calls handle [] c = Some ([], c)"
| "chan_calls handle (m # ms) c =
     (case chan_call handle 24 m c of
        None \<Rightarrow> None
      | Some (cs, c1) \<Rightarrow> map_option (\<lambda>(ds, c2). (cs @ ds, c2)) (chan_calls handle ms c1))"

fun direct_calls :: "(cmdarg \<Rightarrow> 's \<Rightarrow> 'c list \<times> 's) \<Rightarrow> cmdarg list \<Rightarrow> 's \<Rightarrow> 'c list \<times> 's" where
  "direct_calls handle [] s = ([], s)"
| "direct_calls handle (m # ms) s =
     (let (cs, s1) = handle (m\<lparr>ca_wait := True\<rparr>) s; (ds, s2) = direct_calls handle ms s1 in (cs @ ds, s2))"

lemma chan_call_idle:
  assumes "chan_idle c" and "handle (m\<lparr>ca_wait := True\<rparr>) (ch_srv c) = (cs, srv)"
  shows "\<exists>c'. chan_call handle 24 m c = Some (cs, c') \<and> chan_idle c' \<and> ch_srv c' = srv"
proof -
  let ?m = "m\<lparr>ca_wait := True\<rparr>"
  let ?c1 = "c\<lparr>ch_pipe := cmdarg_bytes ?m, ch_waiting := 1\<rparr>"
  from assms have q: "chan_query_wait 24 m c = (24, ?c1)"
    by (simp add: chan_query_wait_def chan_idle_def)
  obtain buf where "chan_serve handle ?c1 = Some (cs, ?c1\<lparr>ch_pipe := [], ch_buf := buf, ch_srv := srv, ch_sem := 1\<rparr>)"
    using chan_serve_queue [of ?c1 "[?m]" handle cs srv] assms by (auto simp: chan_idle_def)
  with q assms(1) show ?thesis by (simp add: chan_call_def chan_wake_def chan_idle_def)
qed

text \<open>
  C3. Clients that wait for each command before the next is sent see a server that handles
  every command exactly once and in order: through the channel the calls and the final state
  are those of calling the handler directly, and nobody is left waiting.
\<close>

theorem chan_sync_refines_direct:
  assumes "chan_idle c"
  shows "\<exists>c'. chan_calls handle ms c = Some (fst (direct_calls handle ms (ch_srv c)), c') \<and>
    ch_srv c' = snd (direct_calls handle ms (ch_srv c)) \<and> chan_idle c'"
  using assms
proof (induction ms arbitrary: c)
  case Nil
  then show ?case by simp
next
  case (Cons m ms)
  obtain cs srv where h: "handle (m\<lparr>ca_wait := True\<rparr>) (ch_srv c) = (cs, srv)" by fastforce
  from chan_call_idle [where c = c and handle = handle, OF Cons.prems h] obtain c1 where
    c1: "chan_call handle 24 m c = Some (cs, c1)" "chan_idle c1" "ch_srv c1 = srv" by blast
  from Cons.IH [OF c1(2)] c1 h show ?case by (auto simp: Let_def split: prod.splits)
qed

subsection \<open>Commands sent without waiting\<close>

text \<open>
  The records waiting when the server reads are all taken by one read, and only the first is
  handled. If a waiting client's command is among the others its semaphore is never posted.
\<close>

fun chan_sends :: "cmdarg list \<Rightarrow> 's chan \<Rightarrow> 's chan" where
  "chan_sends [] c = c"
| "chan_sends (m # ms) c =
     chan_sends ms (snd ((if ca_wait m then chan_query_wait else chan_query) 24 m c))"

lemma chan_sends_eq:
  assumes "ch_listening c"
  shows "chan_sends ms c = c\<lparr>ch_pipe := ch_pipe c @ concat (map cmdarg_bytes ms),
    ch_waiting := ch_waiting c + length (filter ca_wait ms)\<rparr>"
  using assms
proof (induction ms arbitrary: c)
  case (Cons m ms)
  have "ca_wait m \<Longrightarrow> cmdarg_bytes (m\<lparr>ca_wait := True\<rparr>) = cmdarg_bytes m"
    "\<not> ca_wait m \<Longrightarrow> cmdarg_bytes (m\<lparr>ca_wait := False\<rparr>) = cmdarg_bytes m"
    by (simp_all add: cmdarg_bytes_def)
  with Cons show ?case
    by (cases "ca_wait m") (simp_all add: chan_query_def chan_query_wait_def)
qed simp

text \<open>
  C35. When several commands, at most 42, are in the pipe as the server reads, the first alone
  is handled and the rest are dropped. Every client that waits for one of the dropped ones
  stays asleep: the pipe is empty, and after the wake-up that a waiting first command gives the
  semaphore is 0, so neither the server nor a client can take a step.
\<close>

theorem chan_coalesced_loses:
  assumes "chan_idle c" and "ms \<noteq> []" "length ms \<le> 42"
  shows "\<exists>c'. chan_serve handle (chan_sends ms c) = Some (fst (handle (hd ms) (ch_srv c)), c') \<and>
    ch_srv c' = snd (handle (hd ms) (ch_srv c)) \<and> ch_pipe c' = [] \<and>
    chan_serve handle c' = None \<and>
    (let c'' = (if ca_wait (hd ms) then the (chan_wake c') else c') in
       ch_waiting c'' = length (filter ca_wait (tl ms)) \<and> chan_wake c'' = None \<and> chan_serve handle c'' = None)"
proof -
  let ?c = "chan_sends ms c"
  obtain cs srv where h: "handle (hd ms) (ch_srv c) = (cs, srv)" by fastforce
  from assms(1) have c: "ch_listening c" "ch_pipe c = []" "ch_sem c = 0" "ch_waiting c = 0"
    by (auto simp: chan_idle_def)
  have pipe: "ch_listening ?c" "ch_pipe ?c = concat (map cmdarg_bytes ms)" "ch_srv ?c = ch_srv c"
    "ch_sem ?c = 0" "ch_waiting ?c = length (filter ca_wait ms)"
    using c by (simp_all add: chan_sends_eq)
  have h': "handle (hd ms) (ch_srv ?c) = (cs, srv)" by (simp add: pipe(3) h)
  from chan_serve_queue [where handle = handle, OF pipe(1,2) assms(2,3) h'] obtain buf where
    s: "chan_serve handle ?c = Some (cs, ?c\<lparr>ch_pipe := [], ch_buf := buf, ch_srv := srv,
      ch_sem := (if ca_wait (hd ms) then 0 + 1 else 0)\<rparr>)"
    unfolding pipe(4) by auto
  from assms(2) obtain m ms' where "ms = m # ms'" by (cases ms) auto
  with s h pipe show ?thesis by (auto simp: chan_serve_def chan_wake_def Let_def)
qed

text \<open>The channel as \<open>run_wifi_server\<close> and \<open>run_bt_server\<close> leave it, once the thread listens.\<close>

definition chan_boot :: "'s \<Rightarrow> 's chan" where
  "chan_boot srv = \<lparr>ch_listening = True, ch_pipe = [], ch_buf = replicate 1024 0, ch_sem = 0,
     ch_waiting = 0, ch_srv = srv\<rparr>"

lemma chan_boot_idle [simp]: "chan_idle (chan_boot srv)" "ch_srv (chan_boot srv) = srv"
  by (simp_all add: chan_boot_def chan_idle_def)

text \<open>A command without argument.\<close>

definition cmd :: "u32 \<Rightarrow> bool \<Rightarrow> cmdarg" where
  "cmd k w = \<lparr>ca_cmd = k, ca_val = 0, ca_wait = w\<rparr>"

text \<open>A handler that keeps the commands it has seen.\<close>

definition log_cmd :: "cmdarg \<Rightarrow> u32 list \<Rightarrow> u32 list \<times> u32 list" where
  "log_cmd m s = ([ca_cmd m], s @ [ca_cmd m])"

lemma chan_sync_refines_direct_witness:
  "\<exists>c'. chan_calls log_cmd [cmd 0 True, cmd 2 True] (chan_boot []) = Some ([0, 2], c') \<and> ch_srv c' = [0, 2]"
  using chan_sync_refines_direct [of "chan_boot []" log_cmd "[cmd 0 True, cmd 2 True]"]
  by (auto simp: log_cmd_def cmd_def)

lemma chan_coalesced_loses_witness:
  "\<exists>c'. chan_serve log_cmd (chan_sends [cmd 4 False, cmd 12 True] (chan_boot [])) = Some ([4], c') \<and>
     ch_srv c' = [4] \<and> ch_waiting c' = 1 \<and> chan_wake c' = None \<and> chan_serve log_cmd c' = None"
  using chan_coalesced_loses [of "chan_boot []" "[cmd 4 False, cmd 12 True]" log_cmd]
  by (auto simp: log_cmd_def cmd_def Let_def)

end
