(* ===== verification/Wifi_Server.thy ===== *)
theory Wifi_Server
  imports Cmd_Channel
begin

text \<open>
  \<open>wifibt/wifi_server.c\<close>: the variables of the WiFi server, the state callback the WiFi
  library calls, the accessors the user interface reads, and the command handler that
  \<open>Cmd_Channel\<close> runs. The library (\<open>RK_wifi_*\<close>) and the file system are parameters or
  emitted calls.
\<close>

subsection \<open>State\<close>

datatype wifi_running_state =
    WIFI_IDLE | WIFI_CONNECTING | WIFI_CONNECTFAILED | WIFI_CONNECTFAILED_WRONG_KEY
  | WIFI_CONNECTED | WIFI_DISCONNECTED | WIFI_OPEN | WIFI_OFF | WIFI_SCAN_RESULTS | WIFI_DHCP_OK

record wifi =
  wf_result :: bool
  wf_gonff :: bool
  wf_state :: wifi_running_state

definition wifi_boot :: wifi where
  "wifi_boot = \<lparr>wf_result = False, wf_gonff = False, wf_state = WIFI_IDLE\<rparr>"

definition wifi_scanning_done :: "wifi \<Rightarrow> bool \<times> wifi" where
  "wifi_scanning_done s = (if wf_result s then (True, s\<lparr>wf_result := False\<rparr>) else (False, s))"

definition wifi_enabled :: "wifi \<Rightarrow> bool" where
  "wifi_enabled s = wf_gonff s"

definition wifi_connected :: "wifi \<Rightarrow> bool" where
  "wifi_connected s = (wf_state s = WIFI_CONNECTED \<or> wf_state s = WIFI_DHCP_OK)"

fun wifi_state_callback :: "wifi_running_state \<Rightarrow> wifi \<Rightarrow> wifi" where
  "wifi_state_callback st s =
     (let s1 = (if st \<noteq> WIFI_SCAN_RESULTS then s\<lparr>wf_state := st\<rparr> else s) in
      case st of
        WIFI_OPEN \<Rightarrow> s1\<lparr>wf_gonff := True\<rparr>
      | WIFI_OFF \<Rightarrow> s1\<lparr>wf_gonff := False\<rparr>
      | WIFI_SCAN_RESULTS \<Rightarrow> s1\<lparr>wf_result := True\<rparr>
      | _ \<Rightarrow> s1)"

subsection \<open>The command handler\<close>

datatype wifi_call =
    Wifi_register_callback
  | Wifi_enable bool
  | Wifi_scan
  | Wifi_connect string string int
  | Wifi_disconnect
  | Wifi_log string
  | Wifi_fault

text \<open>
  \<open>en\<close> is the result of \<open>RK_wifi_enable\<close>; \<open>keys\<close> is the client memory the argument of
  \<open>WIFI_CONNECT\<close> points to: name, password and key management.
\<close>

definition wifi_handle ::
    "(bool \<Rightarrow> int) \<Rightarrow> (64 word \<Rightarrow> (string \<times> string \<times> int) option) \<Rightarrow> cmdarg \<Rightarrow> wifi \<Rightarrow> wifi_call list \<times> wifi" where
  "wifi_handle en keys m s =
     (if ca_cmd m = 0 then
        ([Wifi_register_callback, Wifi_enable True] @
           (if en True < 0 then [Wifi_log ''RK_wifi_enable 1 fail!''] else []), s)
      else if ca_cmd m = 1 then
        ([Wifi_enable False] @ (if en False < 0 then [Wifi_log ''RK_wifi_enable 0 fail!''] else []), s)
      else if ca_cmd m = 2 then ([Wifi_scan], s)
      else if ca_cmd m = 3 then
        ((case keys (ca_val m) of
            None \<Rightarrow> [Wifi_fault]
          | Some (ssid, psk, key_mgmt) \<Rightarrow> [Wifi_connect ssid psk key_mgmt]), s)
      else if ca_cmd m = 4 then ([Wifi_disconnect], s)
      else ([Wifi_log ''Unknow cmd''], s))"

text \<open>
  The thread up to its loop: at most 1000 polls for \<open>wlan0\<close>, one more to decide, then the
  configuration file. The result is whether the server listens, with the number of polls and
  whether the file was copied and whether the copy failed.
\<close>

definition wifi_server_start :: "(nat \<Rightarrow> bool) \<Rightarrow> bool \<Rightarrow> bool \<Rightarrow> bool \<times> nat \<times> bool \<times> bool" where
  "wifi_server_start wlan0 conf copy_fails =
     (let k = poll_loop 1000 wlan0 0 in
      if \<not> wlan0 k then (False, k, False, False)
      else (True, k, \<not> conf, \<not> conf \<and> copy_fails))"

text \<open>
  \<open>run_wifi_server\<close> and \<open>run_bt_server\<close>: the returned value, and whether the pipe is open,
  whether the thread runs and whether the pipe was closed again. The test after
  \<open>pthread_create\<close> is \<open>ret < 0\<close>, but the function reports errors as positive numbers.
\<close>

definition run_server :: "int \<Rightarrow> int \<Rightarrow> int \<times> bool \<times> bool \<times> bool" where
  "run_server pipe_ret create_ret =
     (if pipe_ret \<noteq> 0 then (pipe_ret, False, False, False)
      else if create_ret < 0 then (create_ret, False, False, True)
      else (create_ret, True, create_ret = 0, False))"

abbreviation run_wifi_server :: "int \<Rightarrow> int \<Rightarrow> int \<times> bool \<times> bool \<times> bool" where
  "run_wifi_server \<equiv> run_server"

abbreviation run_bt_server :: "int \<Rightarrow> int \<Rightarrow> int \<times> bool \<times> bool \<times> bool" where
  "run_bt_server \<equiv> run_server"

text \<open>
  \<open>run_wifibt_server\<close>: the result is that of the last server started; \<open>None\<close> where it is
  never set.
\<close>

definition run_wifibt_server :: "bool \<Rightarrow> bool \<Rightarrow> int \<Rightarrow> int \<Rightarrow> int \<Rightarrow> int option" where
  "run_wifibt_server wifi_en bt_en init_ret wifi_ret bt_ret =
     (if (wifi_en \<or> bt_en) \<and> init_ret \<noteq> 0 then Some (-1)
      else if bt_en then Some bt_ret
      else if wifi_en then Some wifi_ret
      else None)"

subsection \<open>What the accessors say of the past\<close>

text \<open>
  The events of the server's variables, most recent first: a state reported by the library,
  or the user interface asking whether a scan is done.
\<close>

datatype wifi_event = Report wifi_running_state | Ask_scan

fun wifi_run :: "wifi_event list \<Rightarrow> wifi" where
  "wifi_run [] = wifi_boot"
| "wifi_run (Report st # es) = wifi_state_callback st (wifi_run es)"
| "wifi_run (Ask_scan # es) = snd (wifi_scanning_done (wifi_run es))"

text \<open>The abstract view: what can be read off the history.\<close>

fun scan_since_ask :: "wifi_event list \<Rightarrow> bool" where
  "scan_since_ask [] = False"
| "scan_since_ask (Ask_scan # es) = False"
| "scan_since_ask (Report st # es) = (st = WIFI_SCAN_RESULTS \<or> scan_since_ask es)"

definition reports :: "wifi_event list \<Rightarrow> wifi_running_state list" where
  "reports es = concat (map (\<lambda>e. case e of Report st \<Rightarrow> [st] | Ask_scan \<Rightarrow> []) es)"

definition latest :: "('a \<Rightarrow> bool) \<Rightarrow> 'a \<Rightarrow> 'a list \<Rightarrow> 'a" where
  "latest P d xs = (case List.find P xs of None \<Rightarrow> d | Some x \<Rightarrow> x)"

lemma latest_simps [simp]: "latest P d [] = d" "latest P d (x # xs) = (if P x then x else latest P d xs)"
  by (simp_all add: latest_def)

lemma reports_simps [simp]:
  "reports [] = []" "reports (Report st # es) = st # reports es" "reports (Ask_scan # es) = reports es"
  by (simp_all add: reports_def)

text \<open>
  After any history of library reports and questions of the user interface: a scan is
  reported done exactly when results came in after the last question, and so once per batch;
  the interface is connected exactly when the last report other than scan results is
  \<open>CONNECTED\<close> or \<open>DHCP_OK\<close>, and enabled exactly when the last of \<open>OPEN\<close> and \<open>OFF\<close> is \<open>OPEN\<close>.
\<close>

theorem wifi_accessors_history:
  "fst (wifi_scanning_done (wifi_run es)) = scan_since_ask es \<and>
   wifi_connected (wifi_run es) =
     (latest (\<lambda>st. st \<noteq> WIFI_SCAN_RESULTS) WIFI_IDLE (reports es) \<in> {WIFI_CONNECTED, WIFI_DHCP_OK}) \<and>
   wifi_enabled (wifi_run es) =
     (latest (\<lambda>st. st \<in> {WIFI_OPEN, WIFI_OFF}) WIFI_OFF (reports es) = WIFI_OPEN)"
proof -
  have "wf_result (wifi_run es) = scan_since_ask es \<and>
    wf_state (wifi_run es) = latest (\<lambda>st. st \<noteq> WIFI_SCAN_RESULTS) WIFI_IDLE (reports es) \<and>
    wf_gonff (wifi_run es) = (latest (\<lambda>st. st \<in> {WIFI_OPEN, WIFI_OFF}) WIFI_OFF (reports es) = WIFI_OPEN)"
  proof (induction es rule: wifi_run.induct)
    case (2 st es)
    then show ?case by (cases st) simp_all
  qed (auto simp: wifi_boot_def wifi_scanning_done_def)
  then show ?thesis by (auto simp: wifi_scanning_done_def wifi_connected_def wifi_enabled_def)
qed

text \<open>
  The server listens when the interface appears within the 1000 polls (100 seconds) and stays;
  the pipe is leaked, with no thread to read it, when the thread cannot be created.
\<close>

lemma wifi_server_listens:
  assumes "\<And>a b. a \<le> b \<Longrightarrow> wlan0 a \<Longrightarrow> wlan0 b"
  shows "fst (wifi_server_start wlan0 conf f) = (\<exists>k \<le> 1000. wlan0 k)"
proof -
  let ?k = "poll_loop 1000 wlan0 0"
  have "?k \<le> 1000" using poll_loop_bounds [of 0 1000 wlan0] by simp
  moreover have "wlan0 ?k" if "wlan0 j" "j \<le> 1000" for j
    using poll_loop_found [of wlan0 j 0 1000] assms that by auto
  ultimately show ?thesis by (auto simp: wifi_server_start_def Let_def)
qed

lemma run_server_leaks_pipe: "0 < e \<Longrightarrow> run_server 0 e = (e, True, False, False)"
  by (simp add: run_server_def)

text \<open>Without WiFi and Bluetooth the result of \<open>run_wifibt_server\<close> is indeterminate.\<close>

lemma run_wifibt_server_unset: "run_wifibt_server False False i w b = None"
  by (simp add: run_wifibt_server_def)

end
