(* ===== verification/Wifi_UI.thy ===== *)
theory Wifi_UI
  imports Wifi_Server
begin

text \<open>
  \<open>setting/wifi_ui.c\<close>: the WiFi page. The two lists it fills are lists of entries (icon and
  key management, text); what the library returns (saved networks, the parsed scan result) is
  a parameter. \<open>None\<close> is the null dereference of a scan entry without \<open>flags\<close>.
\<close>

subsection \<open>Key management of a network\<close>

datatype key_mgmt = NONE | WPA | WEP | WPA3

text \<open>The order matters: \<open>WPA3\<close> contains \<open>WPA\<close>.\<close>

definition key_mgmt_of :: "string \<Rightarrow> key_mgmt" where
  "key_mgmt_of flags =
     (if strstr_b flags ''WPA3'' then WPA3
      else if strstr_b flags ''WPA'' then WPA
      else if strstr_b flags ''WEP'' then WEP
      else NONE)"

subsection \<open>State\<close>

record saved_info =
  sv_bssid :: string
  sv_ssid :: string
  sv_state :: string
  sv_key_mgmt :: string

record scan_info =
  sc_ssid :: "string option"
  sc_bssid :: "string option"
  sc_flags :: "string option"

type_synonym entry = "key_mgmt \<times> string"

record wifi_page =
  wp_init_done :: bool
  wp_waiting :: bool
  wp_last_state :: int
  wp_saved :: "entry list"
  wp_current :: "(nat \<times> string) option"
  wp_scaned :: "entry list"
  wp_scan_hidden :: bool
  wp_icon_hidden :: bool
  wp_anim :: bool

text \<open>\<open>wp_anim\<close>: LVGL runs an animation of \<open>item_scan_icon\<close>.\<close>

datatype ui_call = Ui_scan | Ui_connect string string key_mgmt | Ui_connect_saved string key_mgmt | Ui_query cmdarg

subsection \<open>The saved networks\<close>

definition is_ssid_row :: "saved_info \<Rightarrow> bool" where
  "is_ssid_row w = strncmp_eq (sv_ssid w) ''SSID'' 4"

text \<open>
  The loop over the rows: an entry per row whose name does not start with \<open>SSID\<close>; the last
  row in state \<open>[CURRENT]\<close> carries the tag.
\<close>

fun add_saved :: "saved_info list \<Rightarrow> wifi_page \<Rightarrow> wifi_page" where
  "add_saved [] p = p"
| "add_saved (w # ws) p =
     (if is_ssid_row w then add_saved ws p
      else let p1 = p\<lparr>wp_saved := wp_saved p @
               [(key_mgmt_of (sv_key_mgmt w), if sv_ssid w \<noteq> [] then sv_ssid w else sv_bssid w)]\<rparr>;
               p2 = (if sv_state w = ''[CURRENT]''
                     then p1\<lparr>wp_current := Some (length (wp_saved p), ''connected'')\<rparr> else p1)
           in add_saved ws p2)"

text \<open>The result says whether the array of the library is freed.\<close>

definition read_saved_wifi :: "saved_info list \<Rightarrow> bool \<Rightarrow> wifi_page \<Rightarrow> bool \<times> wifi_page" where
  "read_saved_wifi wsi check p =
     (if length wsi < 1 then (False, p)
      else let start = (if is_ssid_row (hd wsi) then 1 else 0 :: nat) in
        if start = 1 \<and> length wsi \<le> 1 then (False, p)
        else if \<not> check then (False, p)
        else (True, add_saved (drop start wsi) (p\<lparr>wp_saved := [], wp_current := None\<rparr>)))"

subsection \<open>The scan\<close>

fun add_scaned :: "scan_info list \<Rightarrow> entry list option" where
  "add_scaned [] = Some []"
| "add_scaned (a # as) =
     (case sc_flags a of
        None \<Rightarrow> None
      | Some flags \<Rightarrow>
          (case (if sc_ssid a \<noteq> None \<and> sc_ssid a \<noteq> Some [] then sc_ssid a else sc_bssid a) of
             None \<Rightarrow> None
           | Some txt \<Rightarrow> map_option ((#) (key_mgmt_of flags, txt)) (add_scaned as)))"

text \<open>\<open>scan_r\<close> is the parsed result: nothing, text that does not parse, or the array.\<close>

definition icon_anim_end :: "scan_info list option option \<Rightarrow> wifi_page \<Rightarrow> wifi_page option" where
  "icon_anim_end scan_r p =
     (if \<not> wp_init_done p then Some p
      else let p1 = p\<lparr>wp_scan_hidden := False, wp_icon_hidden := True\<rparr> in
        case scan_r of
          None \<Rightarrow> Some p1
        | Some None \<Rightarrow> Some p1
        | Some (Some as) \<Rightarrow> map_option (\<lambda>es. p1\<lparr>wp_scaned := es\<rparr>) (add_scaned as))"

definition icon_anim_deled :: "wifi_page \<Rightarrow> wifi_page" where
  "icon_anim_deled p =
     (if \<not> wp_init_done p then p else p\<lparr>wp_scan_hidden := False, wp_icon_hidden := True\<rparr>)"

text \<open>
  \<open>lv_anim_start\<close> first deletes the animation that runs for the same object with the same callback,
  which calls \<open>icon_anim_deled\<close>; so does the end of the third turn. The \<open>lv_anim_del\<close> of
  \<open>wifi_update\<close> names the descriptor instead of the object and deletes nothing.
\<close>

definition icon_anim_start :: "wifi_page \<Rightarrow> wifi_page" where
  "icon_anim_start p = (if wp_anim p then icon_anim_deled p else p)\<lparr>wp_anim := True\<rparr>"

definition icon_anim_over :: "wifi_page \<Rightarrow> wifi_page" where
  "icon_anim_over p = (if wp_anim p then icon_anim_deled p else p)\<lparr>wp_anim := False\<rparr>"

definition scan_btn_cb :: "wifi_page \<Rightarrow> ui_call list \<times> wifi_page" where
  "scan_btn_cb p = ([Ui_scan],
     (icon_anim_start (p\<lparr>wp_scan_hidden := True, wp_icon_hidden := False\<rparr>))\<lparr>wp_waiting := True\<rparr>)"

subsection \<open>The timer and the callbacks\<close>

definition wifi_update ::
    "saved_info list \<Rightarrow> scan_info list option option \<Rightarrow> wifi \<Rightarrow> wifi_page \<Rightarrow> (wifi \<times> wifi_page) option" where
  "wifi_update wsi scan_r w p =
     (let conn = (if wifi_connected w then 1 else 0);
          p1 = (if wp_last_state p \<noteq> conn then
                  let q = p\<lparr>wp_last_state := conn\<rparr>
                  in if conn \<noteq> 0 then snd (read_saved_wifi wsi (wp_init_done p) q) else q
                else p)
      in if wp_waiting p1 then
           (case wifi_scanning_done w of
              (True, w') \<Rightarrow>
                map_option (\<lambda>p2. (w', p2)) (icon_anim_end scan_r (p1\<lparr>wp_waiting := False\<rparr>))
            | (False, w') \<Rightarrow> Some (w', p1))
         else Some (w, p1))"

text \<open>The confirm button of the password box, for the \<open>k\<close>-th scanned network.\<close>

definition event_cb :: "bool \<Rightarrow> string \<Rightarrow> nat \<Rightarrow> saved_info list \<Rightarrow> wifi_page \<Rightarrow> (ui_call list \<times> wifi_page) option" where
  "event_cb confirm psk k wsi p =
     (if \<not> confirm then Some ([], p)
      else if k < length (wp_scaned p) then
        (case wp_scaned p ! k of (key_mgmt, ssid) \<Rightarrow>
           Some ([Ui_connect ssid psk key_mgmt],
                 snd (read_saved_wifi wsi (wp_init_done p) (p\<lparr>wp_last_state := -1\<rparr>))))
      else None)"

definition connect_saved_wifi :: "nat \<Rightarrow> wifi_page \<Rightarrow> (ui_call list \<times> wifi_page) option" where
  "connect_saved_wifi k p =
     (if k < length (wp_saved p) then
        (case wp_saved p ! k of (key_mgmt, ssid) \<Rightarrow>
           Some ([Ui_connect_saved ssid key_mgmt],
                 p\<lparr>wp_current := Some (k, ''connecting''), wp_last_state := -1\<rparr>))
      else None)"

definition connect_wifi :: "wifi_page \<Rightarrow> wifi_page" where
  "connect_wifi p = p\<lparr>wp_waiting := False\<rparr>"

text \<open>The switch: the command goes to the server, a scan is asked for at once.\<close>

definition switch_toggled :: "bool \<Rightarrow> wifi_page \<Rightarrow> ui_call list \<times> wifi_page" where
  "switch_toggled en p =
     (let c = Ui_query (cmd (if en then 0 else 1) False) in
      if en then (case scan_btn_cb p of (cs, p') \<Rightarrow> (c # cs, p')) else ([c], p))"

definition menu_wifi_init :: "saved_info list \<Rightarrow> wifi \<Rightarrow> wifi_page \<Rightarrow> ui_call list \<times> wifi_page" where
  "menu_wifi_init wsi w p =
     (let p1 = p\<lparr>wp_saved := [], wp_current := None, wp_scaned := [], wp_scan_hidden := False,
                 wp_icon_hidden := True\<rparr>;
          p2 = (if wifi_enabled w then snd (read_saved_wifi wsi True p1) else p1);
          (cs, p3) = (if wifi_enabled w then scan_btn_cb p2 else ([], p2))
      in (cs, p3\<lparr>wp_init_done := True\<rparr>))"

definition menu_wifi_deinit :: "wifi_page \<Rightarrow> wifi_page" where
  "menu_wifi_deinit p = icon_anim_over (p\<lparr>wp_init_done := False\<rparr>)"

subsection \<open>Properties\<close>

definition entry_of :: "saved_info \<Rightarrow> entry" where
  "entry_of w = (key_mgmt_of (sv_key_mgmt w), if sv_ssid w \<noteq> [] then sv_ssid w else sv_bssid w)"

lemma add_saved_eq:
  "wp_saved (add_saved ws p) = wp_saved p @ map entry_of (filter (\<lambda>w. \<not> is_ssid_row w) ws)"
  by (induction ws p rule: add_saved.induct) (auto simp: entry_of_def Let_def)

definition tag_ok :: "wifi_page \<Rightarrow> bool" where
  "tag_ok p \<longleftrightarrow> (\<forall>k t. wp_current p = Some (k, t) \<longrightarrow> k < length (wp_saved p))"

lemma add_saved_current: "tag_ok p \<Longrightarrow> tag_ok (add_saved ws p)"
proof (induction ws arbitrary: p)
  case (Cons w ws)
  have "tag_ok (p\<lparr>wp_saved := wp_saved p @ [e]\<rparr>)"
    "tag_ok (p\<lparr>wp_saved := wp_saved p @ [e], wp_current := Some (length (wp_saved p), t)\<rparr>)" for e t
    using Cons.prems by (fastforce simp: tag_ok_def)+
  then show ?case using Cons by (simp add: Let_def)
qed simp

text \<open>
  The key management shown for a network is \<open>WPA3\<close> exactly when its flags contain
  \<open>WPA3\<close>, \<open>WPA\<close> when they contain \<open>WPA\<close> but not \<open>WPA3\<close>, \<open>WEP\<close> when they contain \<open>WEP\<close> and
  neither of the others, and none otherwise.
\<close>

theorem key_mgmt_classification:
  "(key_mgmt_of f = WPA3 \<longleftrightarrow> (\<exists>u v. f = u @ ''WPA3'' @ v)) \<and>
   (key_mgmt_of f = WPA \<longleftrightarrow> (\<exists>u v. f = u @ ''WPA'' @ v) \<and> \<not> (\<exists>u v. f = u @ ''WPA3'' @ v)) \<and>
   (key_mgmt_of f = WEP \<longleftrightarrow> (\<exists>u v. f = u @ ''WEP'' @ v) \<and> \<not> (\<exists>u v. f = u @ ''WPA'' @ v))"
proof -
  have "strstr_b f ''WPA''" if "strstr_b f ''WPA3''"
  proof -
    from that obtain u v where "f = u @ ''WPA'' @ (CHR ''3'' # v)" by (auto simp: strstr_b_iff)
    then show ?thesis unfolding strstr_b_iff by blast
  qed
  then show ?thesis unfolding strstr_b_iff [symmetric] by (auto simp: key_mgmt_of_def)
qed


definition header_row :: saved_info where
  "header_row = \<lparr>sv_bssid = ''BSSID'', sv_ssid = ''SSID'', sv_state = [], sv_key_mgmt = []\<rparr>"

definition home_row :: saved_info where
  "home_row = \<lparr>sv_bssid = ''00:11'', sv_ssid = ''home'', sv_state = ''[CURRENT]'', sv_key_mgmt = ''WPA2-PSK''\<rparr>"

definition blank_page :: wifi_page where
  "blank_page = \<lparr>wp_init_done = True, wp_waiting = False, wp_last_state = -1, wp_saved = [],
     wp_current = None, wp_scaned = [], wp_scan_hidden = False, wp_icon_hidden = True, wp_anim = False\<rparr>"


text \<open>
  A page that is gone ignores the end of the scan animation; a scan entry without flags is a
  null dereference.
\<close>

lemma icon_anim_end_deinit: "icon_anim_end r (menu_wifi_deinit p) = Some (menu_wifi_deinit p)"
  by (simp add: icon_anim_end_def menu_wifi_deinit_def icon_anim_over_def icon_anim_deled_def)

text \<open>
  A scan shows the turning icon in place of the button, unless the animation of the last scan
  still runs: then starting it again shows the button and hides the icon while the scan goes on.
\<close>

lemma scan_indicator:
  assumes "wp_init_done p" "scan_btn_cb p = (cs, q)"
  shows "wp_waiting q" "wp_icon_hidden q = wp_anim p" "wp_scan_hidden q = (\<not> wp_anim p)"
  using assms by (auto simp: scan_btn_cb_def icon_anim_start_def icon_anim_deled_def split: if_splits)

lemma scan_without_flags:
  "wp_init_done p \<Longrightarrow> sc_flags a = None \<Longrightarrow> icon_anim_end (Some (Some (a # as))) p = None"
  by (simp add: icon_anim_end_def)

lemma read_saved_leaks: "fst (read_saved_wifi wsi False p) = False"
  by (simp add: read_saved_wifi_def Let_def)

end
