(* ===== verification/Bt_Base.thy ===== *)
theory Bt_Base
  imports RK_Prelude
begin

unbundle bit_operations_syntax

text \<open>
  The data of \<open>include/RkBtBase.h\<close> and \<open>wifibt.h\<close> that the Bluetooth server works on, and the
  HCI helpers of \<open>wifibt/bt_server.c\<close>: device addresses as text, the two vendor commands, the
  lookup of the ACL handle. Sockets and the connection list are parameters; what is written to
  and closed of a socket is the emitted list of calls. Log output is not modelled.
\<close>

subsection \<open>Events of the Bluetooth library\<close>

datatype (plugins only: code size) rk_bt_state =
    RK_BT_STATE_NONE | RK_BT_STATE_INIT_OFF | RK_BT_STATE_INIT_ON | RK_BT_STATE_TURNING_ON
    | RK_BT_STATE_TURNING_OFF | RK_BT_STATE_SCAN_STARTED | RK_BT_STATE_SCAN_START_FAILED
    | RK_BT_STATE_SCAN_NEW_REMOTE_DEV | RK_BT_STATE_SCAN_DEL_REMOTE_DEV
    | RK_BT_STATE_SCAN_CHG_REMOTE_DEV | RK_BT_STATE_SCAN_STOPPED | RK_BT_STATE_DISCONN_FAILED
    | RK_BT_STATE_DISCONN | RK_BT_STATE_BLE_DISCONN | RK_BT_STATE_DISCONN_ALREADY
    | RK_BT_STATE_CONNECT_FAILED | RK_BT_STATE_CONNECT_BLE_FAILED
    | RK_BT_STATE_CONNECT_FAILED_INVAILD_ADDR | RK_BT_STATE_CONNECT_FAILED_NO_FOUND_DEVICE
    | RK_BT_STATE_CONNECT_FAILED_SCANNING | RK_BT_STATE_CONNECTED_ALREADY
    | RK_BT_STATE_CONNECTED | RK_BT_STATE_SPP_CONNECTED | RK_BT_STATE_SPP_RECV_DATA
    | RK_BT_STATE_SPP_DISCONNECTED | RK_BT_STATE_BLE_CONNECTED | RK_BT_STATE_BOND_NONE
    | RK_BT_STATE_BONDED | RK_BT_STATE_BLE_BONDED | RK_BT_STATE_PAIR_NONE
    | RK_BT_STATE_BLE_PAIR_NONE | RK_BT_STATE_PAIR_FAILED | RK_BT_STATE_BLE_PAIR_FAILED
    | RK_BT_STATE_PAIRED | RK_BT_STATE_BLE_PAIRED | RK_BT_STATE_DEL_DEV_OK
    | RK_BT_STATE_DEL_DEV_FAILED | RK_BT_STATE_INFO_CHANGE | RK_BT_STATE_ADAPTER_POWER_ON
    | RK_BT_STATE_ADAPTER_POWER_OFF | RK_BT_STATE_ADAPTER_DISCOVERYABLED
    | RK_BT_STATE_ADAPTER_NO_DISCOVERYABLED | RK_BT_STATE_ADAPTER_PAIRABLED
    | RK_BT_STATE_ADAPTER_NO_PAIRABLED | RK_BT_STATE_ADAPTER_SCANNING
    | RK_BT_STATE_ADAPTER_NO_SCANNING | RK_BT_STATE_ADAPTER_NAME_CHANGE
    | RK_BT_STATE_ADAPTER_BLE_ADV_START | RK_BT_STATE_ADAPTER_BLE_ADV_STOP
    | RK_BT_STATE_ADAPTER_BLE_ADV_ERR | RK_BT_STATE_ADAPTER_LOCAL_NAME
    | RK_BT_STATE_COMMAND_RESP_ERR | RK_BT_STATE_COMMAND_RESP_OK | RK_BT_STATE_TRANSPORT_IDLE
    | RK_BT_STATE_TRANSPORT_PENDING | RK_BT_STATE_TRANSPORT_REQUESTING
    | RK_BT_STATE_TRANSPORT_ACTIVE | RK_BT_STATE_TRANSPORT_SUSPENDING
    | RK_BT_STATE_TRANSPORT_VOLUME | RK_BT_STATE_SINK_PLAY | RK_BT_STATE_SINK_PAUSE
    | RK_BT_STATE_SINK_STOP | RK_BT_STATE_SINK_TRACK | RK_BT_STATE_SINK_POSITION
    | RK_BT_STATE_SINK_ADD | RK_BT_STATE_SINK_DEL | RK_BT_STATE_SRC_ADD | RK_BT_STATE_SRC_DEL
    | RK_BT_STATE_ANCS

datatype (plugins only: code size) rk_ble_gatt_state =
    RK_BLE_GATT_CLIENT_READ_BY_LOCAL | RK_BLE_GATT_CLIENT_READ_BY_LOCAL_ERR
    | RK_BLE_GATT_CLIENT_WRITE_RESP_BY_LOCAL | RK_BLE_GATT_CLIENT_WRITE_RESP_BY_LOCAL_ERR
    | RK_BLE_GATT_CLIENT_ANCS | RK_BLE_GATT_CLIENT_NOTIFY_ENABLE
    | RK_BLE_GATT_CLIENT_NOTIFY_DISABLE | RK_BLE_GATT_CLIENT_NOTIFY_ERR | RK_BLE_GATT_MTU
    | RK_BLE_GATT_SERVER_READ_BY_REMOTE | RK_BLE_GATT_SERVER_READ_NOT_PERMIT_BY_REMOTE
    | RK_BLE_GATT_SERVER_WRITE_BY_REMOTE | RK_BLE_GATT_SERVER_INDICATE_RESP_BY_REMOTE
    | RK_BLE_GATT_SERVER_ENABLE_NOTIFY_BY_REMOTE
    | RK_BLE_GATT_SERVER_DISABLE_NOTIFY_BY_REMOTE | RK_BLE_GATT_SERVER_ERR_NOTIFY_BY_REMOTE
    | RK_BLE_GATT_CMD_CLIENT_READ_OK | RK_BLE_GATT_CMD_CLIENT_WRITE_OK
    | RK_BLE_GATT_CMD_CLIENT_NOTIFYD_OK | RK_BLE_GATT_CMD_CLIENT_READ_ERR
    | RK_BLE_GATT_CMD_CLIENT_WRITE_ERR | RK_BLE_GATT_CMD_CLIENT_NOTIFYD_ERR
    | RK_BLE_GATT_CMD_SERVER_NOTIFY_OK | RK_BLE_GATT_CMD_SERVER_ENABLE_NOTIFY_OK
    | RK_BLE_GATT_CMD_SERVER_DISABLE_NOTIFY_OK | RK_BLE_GATT_CMD_SERVER_NOTIFY_ERR
    | RK_BLE_GATT_CMD_SERVER_ENABLE_NOTIFY_ERR | RK_BLE_GATT_CMD_SERVER_DISABLE_NOTIFY_ERR
    | RK_BLE_GATT_CMD_OK | RK_BLE_GATT_CMD_ERR

subsection \<open>Records\<close>

text \<open>The fields of \<open>RkBtRemoteDev\<close> the callbacks use.\<close>

record bt_dev =
  rd_address :: string
  rd_connected :: bool
  rd_paired :: bool
  rd_title :: string
  rd_artist :: string
  rd_position :: int
  rd_total_len :: int

text \<open>\<open>RkBtContent\<close>\<close>

record bt_content =
  bc_bt_name :: string
  bc_ble_name :: string
  bc_io_capability :: int
  bc_init :: bool
  bc_power :: bool
  bc_pairable :: bool
  bc_discoverable :: bool
  bc_scanning :: bool
  bc_connecting :: bool
  bc_bluealsa :: bool
  bc_profile :: int
  bc_ble_advertised :: bool

text \<open>\<open>struct bt_info\<close>; the states are those of the enumeration in \<open>wifibt.h\<close>.\<close>

record bt_info =
  bi_state :: int
  bi_name :: string
  bi_track_changed :: bool
  bi_pos_changed :: bool
  bi_title :: string
  bi_artist :: string
  bi_pos :: int
  bi_dur :: int
  bi_vol :: int

abbreviation (input) BT_STATE_OFF :: int where "BT_STATE_OFF \<equiv> 0"
abbreviation (input) BT_STATE_ON :: int where "BT_STATE_ON \<equiv> 1"
abbreviation (input) BT_STATE_CONNECTED :: int where "BT_STATE_CONNECTED \<equiv> 2"
abbreviation (input) BT_STATE_PAUSED :: int where "BT_STATE_PAUSED \<equiv> 3"
abbreviation (input) BT_STATE_PLAYING :: int where "BT_STATE_PLAYING \<equiv> 4"

record bt_conf =
  cf_mode :: "string option"
  cf_Class :: "string option"
  cf_ssp :: "string option"
  cf_BleName :: "string option"
  cf_discoverableTimeout :: "string option"

subsection \<open>Addresses as text\<close>

definition hex_digit :: "bool \<Rightarrow> nat \<Rightarrow> char" where
  "hex_digit upper n =
     (if n < 10 then char_of (48 + n) else char_of ((if upper then 55 else 87) + n))"

definition hex2 :: "bool \<Rightarrow> u8 \<Rightarrow> string" where
  "hex2 upper b = [hex_digit upper (unat b div 16), hex_digit upper (unat b mod 16)]"

fun join_colon :: "string list \<Rightarrow> string" where
  "join_colon [] = []"
| "join_colon [s] = s"
| "join_colon (s # ss) = s @ CHR '':'' # join_colon ss"

text \<open>An address is its six bytes \<open>b[0]\<close> to \<open>b[5]\<close>, printed from the last to the first.\<close>

definition bt_ba2str :: "u8 list \<Rightarrow> string" where
  "bt_ba2str b = join_colon (map (hex2 True) (rev b))"

definition conn_addr :: "u8 list \<Rightarrow> string" where
  "conn_addr b = join_colon (map (hex2 False) (rev b))"

definition to_lower :: "char \<Rightarrow> char" where
  "to_lower c = (let k = of_char c :: nat in if 65 \<le> k \<and> k \<le> 90 then char_of (k + 32) else c)"

text \<open>\<open>!strcasecmp (a, b)\<close>\<close>

definition strcasecmp_eq :: "string \<Rightarrow> string \<Rightarrow> bool" where
  "strcasecmp_eq a b = (map to_lower a = map to_lower b)"

subsection \<open>HCI\<close>

datatype hci_call = Hci_write int "u8 list" | Hci_close int

text \<open>\<open>written\<close> is the result of \<open>write\<close>.\<close>

definition hci_write :: "int \<Rightarrow> int \<Rightarrow> u8 list \<Rightarrow> hci_call list \<times> int" where
  "hci_write written fd bytes =
     ([Hci_write fd bytes],
      if written < 0 then -1 else if written \<noteq> int (length bytes) then -1 else 0)"

definition write_flush_timeout :: "int \<Rightarrow> int \<Rightarrow> u16 \<Rightarrow> u32 \<Rightarrow> hci_call list \<times> int" where
  "write_flush_timeout written fd handle timeout_ms =
     (let timeout = ucast ((timeout_ms * 1000) div 625) :: u16 in
      hci_write written fd
        [0x01, 0x28, 0x0C, 0x04, ucast handle, ucast (drop_bit 8 handle),
         ucast timeout, ucast (drop_bit 8 timeout)])"

definition vendor_high_priority :: "int \<Rightarrow> int \<Rightarrow> u16 \<Rightarrow> u8 \<Rightarrow> u8 \<Rightarrow> hci_call list \<times> int" where
  "vendor_high_priority written fd handle priority direction =
     hci_write written fd
       [0x01, 0x1a, 0xfd, 0x04, ucast handle, ucast (drop_bit 8 handle), priority, direction]"

text \<open>
  A connection is \<open>(type, address, handle)\<close>; \<open>conns\<close> is the result of the ioctl, \<open>None\<close>
  where it fails. \<open>ACL_LINK\<close> is 1.
\<close>

definition get_acl_handle :: "bool \<Rightarrow> (int \<times> u8 list \<times> u16) list option \<Rightarrow> string \<Rightarrow> int" where
  "get_acl_handle mem conns bdaddr =
     (if \<not> mem then -1
      else case conns of
        None \<Rightarrow> -1
      | Some cs \<Rightarrow>
          (case List.find (\<lambda>(ty, b, h). ty = 1 \<and> strcasecmp_eq (conn_addr b) bdaddr) cs of
             None \<Rightarrow> 0
           | Some (_, _, h) \<Rightarrow> uint h))"

text \<open>The socket is not closed where \<open>setsockopt\<close> or \<open>bind\<close> fails.\<close>

definition get_hci_sock :: "int \<Rightarrow> bool \<Rightarrow> bool \<Rightarrow> int" where
  "get_hci_sock sock opt_ok bind_ok =
     (if sock < 0 then -1 else if \<not> opt_ok then -1 else if \<not> bind_ok then -1 else sock)"

definition vendor_set_high_priority ::
    "int \<Rightarrow> bool \<Rightarrow> bool \<Rightarrow> bool \<Rightarrow> (int \<times> u8 list \<times> u16) list option \<Rightarrow> int \<Rightarrow> int \<Rightarrow>
     string \<Rightarrow> u8 \<Rightarrow> u8 \<Rightarrow> hci_call list \<times> int" where
  "vendor_set_high_priority sock opt_ok bind_ok mem conns w1 w2 ba priority direction =
     (let fd = get_hci_sock sock opt_ok bind_ok in
      if fd < 0 then ([], fd)
      else let acl_handle = get_acl_handle mem conns ba in
        if acl_handle \<le> 0 then ([Hci_close fd], acl_handle)
        else let (c1, ret) = vendor_high_priority w1 fd (word_of_int acl_handle) priority direction in
          if ret < 0 then (c1 @ [Hci_close fd], ret)
          else let (c2, ret) = write_flush_timeout w2 fd (word_of_int acl_handle) 200
               in (c1 @ c2 @ [Hci_close fd], ret))"

subsection \<open>Properties\<close>

lemma hex_digit_char:
  assumes "n < 16"
  shows "of_char (hex_digit up n) = (if n < 10 then 48 + n else (if up then 55 else 87) + n)"
  using assms by (simp add: hex_digit_def of_char_of)

lemma to_lower_hex:
  assumes "n < 16"
  shows "to_lower (hex_digit up n) = hex_digit False n"
proof (cases "n < 10")
  case True
  then show ?thesis using hex_digit_char [of n up] by (simp add: to_lower_def hex_digit_def Let_def)
next
  case False
  then show ?thesis
    using assms hex_digit_char [of n up] by (auto simp: to_lower_def Let_def) (auto simp: hex_digit_def add.commute)
qed

lemma hex_digit_inj:
  assumes "m < 16" "n < 16" "hex_digit False m = hex_digit False n"
  shows "m = n"
proof -
  have "of_char (hex_digit False m) = (of_char (hex_digit False n) :: nat)" using assms(3) by simp
  then show ?thesis
    unfolding hex_digit_char [OF assms(1)] hex_digit_char [OF assms(2)] by (simp split: if_splits)
qed

lemma map_lower_hex2: "map to_lower (hex2 up b) = hex2 False b"
proof -
  have "unat b < 256" using unsigned_less [of b] by simp
  then show ?thesis by (simp add: hex2_def to_lower_hex)
qed

lemma hex2_inj: "hex2 False a = hex2 False b \<Longrightarrow> a = b"
proof -
  assume "hex2 False a = hex2 False b"
  moreover have "unat a < 256" "unat b < 256" using unsigned_less [of a] unsigned_less [of b] by auto
  ultimately have "unat a div 16 = unat b div 16" "unat a mod 16 = unat b mod 16"
    by (auto simp: hex2_def intro!: hex_digit_inj)
  then have "unat a = unat b" by (metis div_mult_mod_eq)
  then show "a = b" by (rule unsigned_word_eqI)
qed

lemma map_lower_join: "map to_lower (join_colon ss) = join_colon (map (map to_lower) ss)"
  by (induction ss rule: join_colon.induct) (simp_all add: to_lower_def Let_def)

lemma join_hex2_inj:
  assumes "length as = length bs" "join_colon (map (hex2 False) as) = join_colon (map (hex2 False) bs)"
  shows "as = bs"
  using assms
proof (induction as bs rule: list_induct2)
  case (Cons a as b bs)
  have two: "join_colon (map (hex2 False) (c # cs)) = hex2 False c @
      (if cs = [] then [] else CHR '':'' # join_colon (map (hex2 False) cs))" for c cs
    by (cases cs) simp_all
  from Cons.prems have "hex2 False a = hex2 False b" and
    t: "(if as = [] then [] else CHR '':'' # join_colon (map (hex2 False) as)) =
      (if bs = [] then [] else CHR '':'' # join_colon (map (hex2 False) bs))"
    unfolding two by (auto simp: hex2_def)
  with Cons.IH Cons.hyps show ?case by (auto dest: hex2_inj split: if_splits)
qed simp

lemma address_match:
  assumes "length a = length b"
  shows "strcasecmp_eq (conn_addr a) (bt_ba2str b) \<longleftrightarrow> a = b"
proof -
  have "map to_lower (conn_addr a) = join_colon (map (hex2 False) (rev a))"
    "map to_lower (bt_ba2str b) = join_colon (map (hex2 False) (rev b))"
    by (simp_all add: conn_addr_def bt_ba2str_def map_lower_join map_lower_hex2 comp_def)
  then show ?thesis
    using join_hex2_inj [of "rev a" "rev b"] assms by (auto simp: strcasecmp_eq_def)
qed

text \<open>
  C37. The text of a device's address, in the upper case \<open>bt_ba2str\<close> gives, selects among the
  connections the first ACL link to exactly that device, although they are compared in lower
  case; with no such link the result is 0.
\<close>

theorem acl_handle_of_device:
  assumes "length b = 6" and "\<forall>(ty, a, h) \<in> set cs. length a = 6"
  shows "get_acl_handle True (Some cs) (bt_ba2str b) =
    (case List.find (\<lambda>(ty, a, h). ty = 1 \<and> a = b) cs of None \<Rightarrow> 0 | Some (_, _, h) \<Rightarrow> uint h)"
proof -
  have "List.find (\<lambda>(ty, a, h). ty = 1 \<and> strcasecmp_eq (conn_addr a) (bt_ba2str b)) cs =
      List.find (\<lambda>(ty, a, h). ty = 1 \<and> a = b) cs"
    using assms by (intro find_cong) (auto simp: address_match)
  then show ?thesis by (simp add: get_acl_handle_def)
qed

text \<open>A socket that \<open>get_hci_sock\<close> hands out is closed exactly once, last.\<close>

lemma vendor_closes_socket:
  assumes "0 \<le> sock"
  shows "\<exists>ws. fst (vendor_set_high_priority sock True True mem conns w1 w2 ba p d) = ws @ [Hci_close sock] \<and>
    Hci_close sock \<notin> set ws"
  using assms
  by (auto simp: vendor_set_high_priority_def get_hci_sock_def vendor_high_priority_def
    write_flush_timeout_def hci_write_def Let_def)

lemma flush_timeout_bytes:
  "fst (write_flush_timeout w fd 0x0123 200) = [Hci_write fd [0x01, 0x28, 0x0C, 0x04, 0x23, 0x01, 0x40, 0x01]]"
  by (simp add: write_flush_timeout_def hci_write_def Let_def)

lemma acl_handle_of_device_witness:
  "get_acl_handle True (Some [(1, [1, 2, 3, 4, 5, 0xAB], 40), (1, [1, 2, 3, 4, 5, 0xAC], 41)])
     (bt_ba2str [1, 2, 3, 4, 5, 0xAC]) = 41"
  using acl_handle_of_device [of "[1, 2, 3, 4, 5, 0xAC]"
    "[(1, [1, 2, 3, 4, 5, 0xAB], 40), (1, [1, 2, 3, 4, 5, 0xAC], 41)]"] by simp

end
