(* ===== verification/Bt_Server.thy ===== *)
theory Bt_Server
  imports Bt_Base Cmd_Channel
begin

text \<open>
  \<open>wifibt/bt_server.c\<close>: the two callbacks the Bluetooth library calls, the start of the stack
  with its configuration file and names, and the command handler of the server. The library,
  the process helpers of \<open>utility.h\<close> and the files are parameters or emitted calls; log output
  is not modelled, but a null device that only the log line reads is still a fault, the
  value \<open>None\<close>.
\<close>

subsection \<open>State\<close>

record bt =
  bt_content :: bt_content
  bt_info :: bt_info

definition bt_content_zero :: bt_content where
  "bt_content_zero = \<lparr>bc_bt_name = [], bc_ble_name = [], bc_io_capability = 0, bc_init = False,
     bc_power = False, bc_pairable = False, bc_discoverable = False, bc_scanning = False,
     bc_connecting = False, bc_bluealsa = False, bc_profile = 0, bc_ble_advertised = False\<rparr>"

definition bt_boot :: bt where
  "bt_boot = \<lparr>bt_content = bt_content_zero,
     bt_info = \<lparr>bi_state = BT_STATE_OFF, bi_name = [], bi_track_changed = False, bi_pos_changed = False,
       bi_title = [], bi_artist = [], bi_pos = 0, bi_dur = 0, bi_vol = 0\<rparr>\<rparr>"

datatype bt_call =
    Set_discoverable bool
  | Acl_priority string u8 u8
  | Exec string
  | Kill_task string
  | Set_profile int bool
  | Media_control string
  | Set_volume int
  | Bt_init_call bt_content
  | Bt_deinit_call
  | Write_conf string
  | Register_callbacks
  | Copy_info bt_info
  | Sleep_1s

definition set_state :: "int \<Rightarrow> bt \<Rightarrow> bt" where
  "set_state v s = s\<lparr>bt_info := (bt_info s)\<lparr>bi_state := v\<rparr>\<rparr>"

definition upd_content :: "(bt_content \<Rightarrow> bt_content) \<Rightarrow> bt \<Rightarrow> bt" where
  "upd_content f s = s\<lparr>bt_content := f (bt_content s)\<rparr>"

subsection \<open>The state callback\<close>

text \<open>
  The callback is split as its comments split the switch; every part gives back \<open>None\<close> for the
  states it does not have a case for, \<open>Some None\<close> for a fault.
\<close>

type_synonym bt_step = "(bt_call list \<times> bt) option option"

definition cb_base :: "rk_bt_state \<Rightarrow> bt \<Rightarrow> bt_step" where
  "cb_base st s =
     (if st = RK_BT_STATE_TURNING_ON then Some (Some ([], s))
      else if st = RK_BT_STATE_INIT_ON then
        Some (Some ([Set_discoverable True], set_state BT_STATE_ON (upd_content (bc_init_update (\<lambda>_. True)) s)))
      else if st = RK_BT_STATE_INIT_OFF then
        Some (Some ([], set_state BT_STATE_OFF (upd_content (bc_init_update (\<lambda>_. False)) s)))
      else None)"

text \<open>Scan states: log lines only, under a null check.\<close>

definition cb_scan :: "rk_bt_state \<Rightarrow> bt \<Rightarrow> bt_step" where
  "cb_scan st s =
     (if st \<in> {RK_BT_STATE_SCAN_NEW_REMOTE_DEV, RK_BT_STATE_SCAN_CHG_REMOTE_DEV,
               RK_BT_STATE_SCAN_DEL_REMOTE_DEV}
      then Some (Some ([], s)) else None)"

definition cb_link :: "bt_dev option \<Rightarrow> rk_bt_state \<Rightarrow> bt \<Rightarrow> bt_step" where
  "cb_link rdev st s =
     (if st = RK_BT_STATE_CONNECTED \<or> st = RK_BT_STATE_DISCONN then
        Some (case rdev of
          None \<Rightarrow> None
        | Some d \<Rightarrow> Some ([], set_state (if rd_connected d then BT_STATE_ON else BT_STATE_OFF) s))
      else if st = RK_BT_STATE_DISCONN_ALREADY then Some (Some ([], set_state BT_STATE_ON s))
      else if st = RK_BT_STATE_CONNECTED_ALREADY then Some (Some ([], set_state BT_STATE_CONNECTED s))
      else if st \<in> {RK_BT_STATE_PAIRED, RK_BT_STATE_PAIR_NONE, RK_BT_STATE_DEL_DEV_OK,
          RK_BT_STATE_PAIR_FAILED, RK_BT_STATE_CONNECT_FAILED, RK_BT_STATE_DISCONN_FAILED,
          RK_BT_STATE_CONNECT_FAILED_INVAILD_ADDR, RK_BT_STATE_CONNECT_FAILED_NO_FOUND_DEVICE,
          RK_BT_STATE_CONNECT_FAILED_SCANNING, RK_BT_STATE_DEL_DEV_FAILED}
      then Some (Some ([], s)) else None)"

text \<open>The priority of the link goes down when the transport idles and up when it is active.\<close>

definition a2dp_direction :: "bt \<Rightarrow> u8" where
  "a2dp_direction s = (if (bc_profile (bt_content s)) AND 1 \<noteq> 0 then 1 else 0)"

definition cb_media :: "bt_dev option \<Rightarrow> rk_bt_state \<Rightarrow> bt \<Rightarrow> bt_step" where
  "cb_media rdev st s =
     (if st = RK_BT_STATE_TRANSPORT_IDLE then
        Some (Some ((case rdev of None \<Rightarrow> [] | Some d \<Rightarrow> [Acl_priority (rd_address d) 0 (a2dp_direction s)]), s))
      else if st = RK_BT_STATE_TRANSPORT_ACTIVE then
        Some (Some ((case rdev of None \<Rightarrow> [] | Some d \<Rightarrow> [Acl_priority (rd_address d) 1 (a2dp_direction s)]), s))
      else if st \<in> {RK_BT_STATE_SRC_ADD, RK_BT_STATE_SRC_DEL, RK_BT_STATE_TRANSPORT_VOLUME,
          RK_BT_STATE_TRANSPORT_PENDING, RK_BT_STATE_TRANSPORT_SUSPENDING}
      then Some (Some ([], s)) else None)"

definition cb_sink :: "bt_dev option \<Rightarrow> rk_bt_state \<Rightarrow> bt \<Rightarrow> bt_step" where
  "cb_sink rdev st s =
     (if st = RK_BT_STATE_SINK_ADD \<or> st = RK_BT_STATE_SINK_DEL then Some (Some ([], s))
      else if st = RK_BT_STATE_SINK_PLAY then Some (Some ([], set_state BT_STATE_PLAYING s))
      else if st = RK_BT_STATE_SINK_STOP \<or> st = RK_BT_STATE_SINK_PAUSE then
        Some (Some ([], set_state BT_STATE_PAUSED s))
      else if st = RK_BT_STATE_SINK_TRACK then
        Some (case rdev of
          None \<Rightarrow> None
        | Some d \<Rightarrow> Some ([], s\<lparr>bt_info := (bt_info s)\<lparr>bi_title := rd_title d, bi_artist := rd_artist d,
            bi_track_changed := True\<rparr>\<rparr>))
      else if st = RK_BT_STATE_SINK_POSITION then
        Some (case rdev of
          None \<Rightarrow> None
        | Some d \<Rightarrow> Some ([], s\<lparr>bt_info := (bt_info s)\<lparr>bi_pos := rd_position d, bi_dur := rd_total_len d,
            bi_pos_changed := True\<rparr>\<rparr>))
      else None)"

definition cb_adapter :: "rk_bt_state \<Rightarrow> bt \<Rightarrow> bt_step" where
  "cb_adapter st s =
     (let upd = (\<lambda>f. Some (Some ([], upd_content f s))) in
      if st = RK_BT_STATE_ADAPTER_BLE_ADV_START then upd (bc_ble_advertised_update (\<lambda>_. True))
      else if st = RK_BT_STATE_ADAPTER_BLE_ADV_STOP then upd (bc_ble_advertised_update (\<lambda>_. False))
      else if st = RK_BT_STATE_ADAPTER_NO_DISCOVERYABLED then
        Some (Some ([Set_discoverable True], upd_content (bc_discoverable_update (\<lambda>_. False)) s))
      else if st = RK_BT_STATE_ADAPTER_DISCOVERYABLED then upd (bc_discoverable_update (\<lambda>_. True))
      else if st = RK_BT_STATE_ADAPTER_NO_PAIRABLED then upd (bc_pairable_update (\<lambda>_. False))
      else if st = RK_BT_STATE_ADAPTER_PAIRABLED then upd (bc_pairable_update (\<lambda>_. True))
      else if st = RK_BT_STATE_ADAPTER_NO_SCANNING then upd (bc_scanning_update (\<lambda>_. False))
      else if st = RK_BT_STATE_ADAPTER_SCANNING then upd (bc_scanning_update (\<lambda>_. True))
      else if st = RK_BT_STATE_ADAPTER_POWER_ON then upd (bc_power_update (\<lambda>_. True))
      else if st = RK_BT_STATE_ADAPTER_POWER_OFF then upd (bc_power_update (\<lambda>_. False))
      else None)"

definition bt_test_state_cb :: "bt_dev option \<Rightarrow> rk_bt_state \<Rightarrow> bt \<Rightarrow> (bt_call list \<times> bt) option" where
  "bt_test_state_cb rdev st s =
     (case List.find (\<lambda>r. r \<noteq> None)
        [cb_base st s, cb_scan st s, cb_link rdev st s, cb_media rdev st s, cb_sink rdev st s,
         cb_adapter st s] of
        Some (Some r) \<Rightarrow> r
      | _ \<Rightarrow> Some ([], s))"

subsection \<open>The BLE data callback\<close>

record ble_rate =
  br_total :: int
  br_start :: int

datatype ble_out = Ble_reply string | Ble_rate int | Ble_none

text \<open>\<open>now\<close> is \<open>gettimeofday\<close> in microseconds; \<open>len\<close> is \<open>*len\<close>.\<close>

definition ble_recv :: "int \<Rightarrow> int \<Rightarrow> rk_ble_gatt_state \<Rightarrow> ble_rate \<Rightarrow> ble_out \<times> ble_rate" where
  "ble_recv now len st r =
     (if st = RK_BLE_GATT_SERVER_READ_BY_REMOTE then (Ble_reply ''hello rockchip'', r)
      else if st = RK_BLE_GATT_SERVER_READ_NOT_PERMIT_BY_REMOTE \<or> st = RK_BLE_GATT_CLIENT_READ_BY_LOCAL then
        (let total = br_total r + len * 8; elapsed = now - br_start r in
         if elapsed \<ge> 1000000 then
           (Ble_rate (c_div total (c_div elapsed 1000000)), r\<lparr>br_total := 0, br_start := now\<rparr>)
         else (Ble_none, r\<lparr>br_total := total\<rparr>))
      else (Ble_none, r))"

subsection \<open>The vendor and audio server callbacks\<close>

text \<open>\<open>hci0\<close> and \<open>pid\<close> answer the successive questions for the device and the daemon.\<close>

definition bt_test_vendor_cb :: "(nat \<Rightarrow> bool) \<Rightarrow> (nat \<Rightarrow> bool) \<Rightarrow> bool \<Rightarrow> bool \<Rightarrow> bool \<Rightarrow> bt_call list \<times> bool" where
  "bt_test_vendor_cb hci0 pid bluealsa aplay enable =
     (if enable then
        (let k = poll_loop 100 hci0 0 in
         if \<not> hci0 k then ([], False)
         else let cs = [Exec ''killall bluetoothd && sleep 0.5'',
                        Exec ''/usr/libexec/bluetooth/bluetoothd -n -P battery,hostname,gap,wiimote -f /data/main.conf &'']
              in (cs, pid (poll_loop 100 pid 0)))
      else
        ([Exec ''hciconfig hci0 down'', Exec ''killall bluetoothd''] @
         (if bluealsa then [Kill_task ''bluealsa''] else []) @
         (if aplay then [Kill_task ''bluealsa-alay''] else []), True))"

definition bt_test_audio_server_cb :: "bool \<Rightarrow> bt_content \<Rightarrow> bt_call list \<times> bool" where
  "bt_test_audio_server_cb pactl c =
     ((if bc_bluealsa c then
         [Exec ''pactl list modules | grep bluetooth''] @
         (if pactl then [Exec ''pactl unload-module module-bluetooth-policy'',
                         Exec ''pactl unload-module module-bluetooth-discover''] else []) @
         [Exec ''killall bluealsa bluealsa-aplay''] @
         (if bc_profile c AND 1 = 1 then
            [Exec ''bluealsa -S --profile=a2dp-sink --profile=hfp-hf &'',
             Exec ''bluealsa-aplay -S --profile-a2dp 00:00:00:00:00:00 &'']
          else if bc_profile c AND 2 = 2 then
            [Exec ''bluealsa -S --profile=a2dp-source --profile=hfp-ag --a2dp-volume &'']
          else [])
       else []), True)"

subsection \<open>The configuration file\<close>

definition nl :: string where
  "nl = [CHR 0x0A]"

definition conf_line :: "string \<Rightarrow> string option \<Rightarrow> string" where
  "conf_line key v = (case v of None \<Rightarrow> [] | Some t \<Rightarrow> key @ '' = '' @ t @ nl)"

definition create_bt_conf :: "bool \<Rightarrow> bt_conf \<Rightarrow> bt_call list \<times> int" where
  "create_bt_conf opened conf =
     (if \<not> opened then ([], -1)
      else ([Write_conf (''[General]'' @ nl @
               conf_line ''DiscoverableTimeout'' (cf_discoverableTimeout conf) @
               conf_line ''BleName'' (cf_BleName conf) @
               conf_line ''Class'' (cf_Class conf) @
               conf_line ''SSP'' (cf_ssp conf) @
               conf_line ''ControllerMode'' (cf_mode conf) @
               conf_line ''JustWorksRepairing'' (Some ''always'') @
               ''[GATT]'' @ nl @ ''Cache = always''),
             Exec ''cat /data/main.conf''], 0))"

subsection \<open>Starting the stack\<close>

text \<open>
  The names: \<open>bt_id\<close> is an array of six characters with no room for a terminator, and is
  printed with \<open>%s\<close> into 38 bytes; \<open>after\<close> is what the stack holds after it up to the next
  NUL. A short read leaves zero bytes, which end the string early. The names keep 32 bytes.
\<close>

definition bt_name_of :: "string \<Rightarrow> string \<Rightarrow> string \<Rightarrow> string" where
  "bt_name_of base bt_id after =
     (let s = (if length bt_id < 6 then bt_id else bt_id @ after)
      in take 32 (take 37 (base @ ''_'' @ s)))"

text \<open>The identity: read from the file, or six digits made from \<open>rand\<close> and saved.\<close>

definition bt_identity :: "string option \<Rightarrow> (nat \<Rightarrow> nat) \<Rightarrow> string \<times> bool" where
  "bt_identity file rnd =
     (case file of
        Some t \<Rightarrow> (takeWhile (\<lambda>c. c \<noteq> CHR 0x00) (take 6 t), False)
      | None \<Rightarrow> (map (\<lambda>i. char_of (48 + rnd i mod 10)) [0..<6], True))"

definition default_conf :: bt_conf where
  "default_conf = \<lparr>cf_mode = Some ''dual'', cf_Class = Some ''0x240414'', cf_ssp = None,
     cf_BleName = None, cf_discoverableTimeout = Some ''0''\<rparr>"

definition bt_ble_init ::
    "bool \<Rightarrow> string option \<Rightarrow> (nat \<Rightarrow> nat) \<Rightarrow> string \<Rightarrow> bool \<Rightarrow> bt \<Rightarrow> bt_call list \<times> bt" where
  "bt_ble_init is_open file rnd after conf_opened s =
     (if is_open then ([], set_state BT_STATE_ON s)
      else
        let bt_id = fst (bt_identity file rnd);
            name = bt_name_of ''rkbt'' bt_id after;
            c = bt_content_zero\<lparr>bc_bt_name := name, bc_ble_name := bt_name_of ''rkble'' bt_id after,
                  bc_io_capability := 1, bc_profile := 1, bc_bluealsa := True\<rparr>
        in (Register_callbacks # fst (create_bt_conf conf_opened default_conf) @ [Bt_init_call c],
            s\<lparr>bt_content := c, bt_info := (bt_info s)\<lparr>bi_name := name\<rparr>\<rparr>))"

subsection \<open>The command handler\<close>

text \<open>
  \<open>while (!bt_content.init && (timeout--)) sleep (1)\<close>, from \<open>timeout = 3\<close>: \<open>up k\<close> is the flag
  after \<open>k\<close> sleeps. The result is the sleeps and the final value of \<open>timeout\<close>.
\<close>

fun enable_wait :: "nat \<Rightarrow> (nat \<Rightarrow> bool) \<Rightarrow> nat \<Rightarrow> nat \<times> int" where
  "enable_wait 0 up k = (if up k then (k, 0) else (k, -1))"
| "enable_wait (Suc n) up k = (if up k then (k, int (Suc n)) else enable_wait n up (Suc k))"

text \<open>
  The environment of one command: how the stack is found (\<open>rk_bt_is_open\<close>, the identity file,
  \<open>rand\<close>, the bytes after \<open>bt_id\<close>, whether the configuration opens) and \<open>up\<close> as above, where
  the state callback sets the flag from the library's thread.
\<close>

record bt_env =
  be_is_open :: bool
  be_file :: "string option"
  be_rnd :: "nat \<Rightarrow> nat"
  be_after :: string
  be_conf :: bool
  be_up :: "nat \<Rightarrow> bool"

definition bt_enable :: "bt_env \<Rightarrow> bt \<Rightarrow> bt_call list \<times> bt" where
  "bt_enable e s =
     (let (cs, s1) = bt_ble_init (be_is_open e) (be_file e) (be_rnd e) (be_after e) (be_conf e) s;
          (sleeps, timeout) = enable_wait 3 (\<lambda>k. bc_init (bt_content s1) \<or> be_up e k) 0;
          s2 = (if be_up e sleeps
                then set_state BT_STATE_ON (upd_content (bc_init_update (\<lambda>_. True)) s1) else s1)
      in (cs @ replicate sleeps Sleep_1s @ (if timeout \<noteq> 0 then [Set_profile 1 True] else []), s2))"

text \<open>The commands are numbered as the enumeration in \<open>wifibt.h\<close>.\<close>

definition bt_handle :: "bt_env \<Rightarrow> cmdarg \<Rightarrow> bt \<Rightarrow> bt_call list \<times> bt" where
  "bt_handle e m s =
     (let c = ca_cmd m in
      if c = 0 then bt_enable e s
      else if c = 1 then ([Bt_deinit_call], s)
      else if c = 2 then ((if bc_init (bt_content s) then [Set_profile 1 True] else []), s)
      else if c = 3 then ([Media_control ''pause''], s)
      else if c = 4 then ([Media_control ''play''], s)
      else if c = 5 then ([Media_control ''pause''], s)
      else if c = 6 then ([Media_control ''previous''], s)
      else if c = 7 then ([Media_control ''next''], s)
      else if c = 8 then ([Set_volume (sint (ca_val m))], s)
      else if c = 9 then ([Set_volume 0], s)
      else if c = 12 then ([Copy_info (bt_info s)], s)
      else if c = 10 then ([], s\<lparr>bt_info := (bt_info s)\<lparr>bi_track_changed := False\<rparr>\<rparr>)
      else if c = 11 then ([], s\<lparr>bt_info := (bt_info s)\<lparr>bi_pos_changed := False\<rparr>\<rparr>)
      else ([], s))"

subsection \<open>What the state says of the past\<close>

text \<open>
  The abstract view of the callback: which state, if any, an event of the library stands for,
  and what the parts of the switch together do.
\<close>

definition state_meaning :: "bt_dev option \<times> rk_bt_state \<Rightarrow> int option" where
  "state_meaning ev = (case ev of (rdev, st) \<Rightarrow>
     if st = RK_BT_STATE_INIT_ON \<or> st = RK_BT_STATE_DISCONN_ALREADY then Some BT_STATE_ON
     else if st = RK_BT_STATE_INIT_OFF then Some BT_STATE_OFF
     else if st = RK_BT_STATE_CONNECTED \<or> st = RK_BT_STATE_DISCONN then
       map_option (\<lambda>d. if rd_connected d then BT_STATE_ON else BT_STATE_OFF) rdev
     else if st = RK_BT_STATE_CONNECTED_ALREADY then Some BT_STATE_CONNECTED
     else if st = RK_BT_STATE_SINK_PLAY then Some BT_STATE_PLAYING
     else if st = RK_BT_STATE_SINK_PAUSE \<or> st = RK_BT_STATE_SINK_STOP then Some BT_STATE_PAUSED
     else None)"

definition needs_dev :: "rk_bt_state \<Rightarrow> bool" where
  "needs_dev st \<longleftrightarrow> st \<in> {RK_BT_STATE_CONNECTED, RK_BT_STATE_DISCONN, RK_BT_STATE_SINK_TRACK,
     RK_BT_STATE_SINK_POSITION}"

lemmas cb_defs = cb_base_def cb_scan_def cb_link_def cb_media_def cb_sink_def cb_adapter_def
  set_state_def upd_content_def Let_def

lemma state_cb_fault: "bt_test_state_cb rdev st s = None \<longleftrightarrow> rdev = None \<and> needs_dev st"
  by (cases st) (auto simp: bt_test_state_cb_def cb_defs needs_dev_def split: option.splits)

lemma state_cb_state:
  assumes "bt_test_state_cb rdev st s = Some (cs, s')"
  shows "bi_state (bt_info s') = (case state_meaning (rdev, st) of None \<Rightarrow> bi_state (bt_info s) | Some v \<Rightarrow> v)"
  using assms
  by (cases st) (auto simp: bt_test_state_cb_def cb_defs state_meaning_def split: option.splits)

fun cb_run :: "(bt_dev option \<times> rk_bt_state) list \<Rightarrow> bt \<Rightarrow> (bt_call list \<times> bt) option" where
  "cb_run [] s = Some ([], s)"
| "cb_run ((rdev, st) # es) s =
     (case bt_test_state_cb rdev st s of
        None \<Rightarrow> None
      | Some (cs, s1) \<Rightarrow> map_option (\<lambda>(ds, s2). (cs @ ds, s2)) (cb_run es s1))"

lemma cb_run_state:
  "cb_run es s = Some (cs, s') \<Longrightarrow>
     bi_state (bt_info s') = last (bi_state (bt_info s) # List.map_filter state_meaning es)"
proof (induction es arbitrary: s cs)
  case (Cons e es)
  obtain rdev st where e: "e = (rdev, st)" by (cases e)
  from Cons.prems obtain c1 s1 c2 where 1: "bt_test_state_cb rdev st s = Some (c1, s1)"
    "cb_run es s1 = Some (c2, s')" by (auto simp: e split: option.splits prod.splits)
  from Cons.IH [OF 1(2)] state_cb_state [OF 1(1)] show ?case
    by (cases "state_meaning (rdev, st)") (auto simp: e List.map_filter_simps)
qed (simp add: List.map_filter_simps)


definition phone :: bt_dev where
  "phone = \<lparr>rd_address = ''00:01'', rd_connected = True, rd_paired = True, rd_title = ''a'',
     rd_artist = ''b'', rd_position = 0, rd_total_len = 1000\<rparr>"


subsection \<open>Enabling\<close>

text \<open>
  Enabling Bluetooth on a stack that is down sets the A2DP sink profile when the stack
  comes up within two sleeps, and also when it does not come up at all; it does not when the
  stack is up just after the third sleep, where the test \<open>timeout != 0\<close> takes success for
  a timeout.
\<close>

theorem bt_enable_profile:
  assumes "\<not> be_is_open e"
  shows "Set_profile 1 True \<in> set (fst (bt_enable e s)) \<longleftrightarrow>
    (\<exists>k \<le> 2. be_up e k) \<or> \<not> (\<exists>k \<le> 3. be_up e k)"
proof -
  obtain cs s1 where i: "bt_ble_init False (be_file e) (be_rnd e) (be_after e) (be_conf e) s = (cs, s1)"
    by fastforce
  then have nin: "Set_profile 1 True \<notin> set cs" and c: "bc_init (bt_content s1) = False"
    by (auto simp: bt_ble_init_def create_bt_conf_def bt_content_zero_def Let_def split: if_splits)
  let ?t = "snd (enable_wait 3 (be_up e) 0)"
  have "Set_profile 1 True \<in> set (fst (bt_enable e s)) \<longleftrightarrow> ?t \<noteq> 0"
    using assms nin c by (auto simp: bt_enable_def i Let_def case_prod_beta)
  also have "\<dots> \<longleftrightarrow> (\<exists>k \<le> 2. be_up e k) \<or> \<not> (\<exists>k \<le> 3. be_up e k)"
  proof -
    have 3: "3 = Suc (Suc (Suc 0))" "2 = Suc (Suc 0)" by simp_all
    have ex: "(\<exists>k \<le> Suc n. P k) \<longleftrightarrow> (\<exists>k \<le> n. P k) \<or> P (Suc n)" for n and P :: "nat \<Rightarrow> bool"
      by (auto simp: le_Suc_eq)
    show ?thesis unfolding 3 ex by auto
  qed
  finally show ?thesis .
qed

definition env_up_at :: "nat \<Rightarrow> bt_env" where
  "env_up_at n = \<lparr>be_is_open = False, be_file = Some ''123456'', be_rnd = (\<lambda>_. 0), be_after = [],
     be_conf = True, be_up = (\<lambda>k. n \<le> k)\<rparr>"

lemma bt_enable_profile_witness:
  "Set_profile 1 True \<in> set (fst (bt_enable (env_up_at 2) bt_boot)) \<and>
   Set_profile 1 True \<notin> set (fst (bt_enable (env_up_at 3) bt_boot))"
  using bt_enable_profile [of "env_up_at 2" bt_boot] bt_enable_profile [of "env_up_at 3" bt_boot]
  by (auto simp: env_up_at_def)

subsection \<open>The configuration and the names\<close>

lemma default_conf_file:
  "create_bt_conf True default_conf =
     ([Write_conf (''[General]'' @ nl @ ''DiscoverableTimeout = 0'' @ nl @ ''Class = 0x240414'' @ nl @
         ''ControllerMode = dual'' @ nl @ ''JustWorksRepairing = always'' @ nl @ ''[GATT]'' @ nl @
         ''Cache = always''), Exec ''cat /data/main.conf''], 0)"
  by (simp add: create_bt_conf_def default_conf_def conf_line_def)

text \<open>The name is the identity alone only where the stack happens to hold a NUL after it.\<close>

lemma bt_name_exact:
  "length bt_id = 6 \<Longrightarrow> bt_name_of ''rkbt'' bt_id after = ''rkbt_'' @ bt_id \<longleftrightarrow> after = []"
  by (auto simp: bt_name_of_def Let_def)

subsection \<open>Questions of the user interface\<close>

text \<open>
  What a client gets for \<open>BT_INFO\<close> through the channel, when it waits and the channel is idle:
  the server's record as it is.
\<close>

lemma bt_info_query:
  assumes "chan_idle c"
  shows "\<exists>c'. chan_call (bt_handle e) 24 (cmd 12 True) c = Some ([Copy_info (bt_info (ch_srv c))], c') \<and>
    chan_idle c' \<and> ch_srv c' = ch_srv c"
  using assms by (rule chan_call_idle) (simp add: bt_handle_def cmd_def Let_def)

end
