(* ===== verification/App_Music.thy ===== *)
theory App_Music
  imports Bt_Server
begin

text \<open>
  \<open>smart_home/app_music.c\<close> and \<open>setting/bt_ui.c\<close>: the Bluetooth player tile and the Bluetooth
  switch. They ask the server for its record with \<open>BT_INFO\<close> and wait; the answer \<open>new_info\<close> is
  the argument \<open>info\<close> here, by \<open>bt_info_query\<close> the server's record. Commands they send are
  emitted as \<open>(command, argument)\<close> with the numbers of \<open>wifibt.h\<close>; label texts are the other
  emitted calls.
\<close>

record music =
  mu_sink_enabled :: bool
  mu_volume :: int
  mu_mute :: bool
  mu_pos :: int
  mu_last_bt_state :: int
  mu_last_state :: int

definition music_boot :: music where
  "music_boot = \<lparr>mu_sink_enabled = False, mu_volume = 100, mu_mute = False, mu_pos = 0,
     mu_last_bt_state = -1, mu_last_state = 0\<rparr>"

datatype music_call =
    Send u32 int
  | Play_symbol bool
  | Time_label int int int int
  | Track_labels string string
  | State_label string

subsection \<open>The buttons\<close>

text \<open>Buttons are numbered as \<open>MUSIC_BTN_PREV\<close> to \<open>MUSIC_BTN_VOLUME_MUTE\<close>.\<close>

definition music_btn_cb :: "bt_info \<Rightarrow> int \<Rightarrow> music \<Rightarrow> music_call list \<times> music" where
  "music_btn_cb info idx m =
     (if bi_state info < BT_STATE_CONNECTED then ([], m)
      else if idx = 0 then ([Send 6 0], m)
      else if idx = 1 then ([Send (if bi_state info = BT_STATE_PLAYING then 5 else 4) 0], m)
      else if idx = 2 then ([Send 7 0], m)
      else if idx = 3 then
        (let v = (if mu_volume m \<ge> 10 then mu_volume m - 10 else 0) in ([Send 8 v], m\<lparr>mu_volume := v\<rparr>))
      else if idx = 4 then
        (let v = (if mu_volume m \<le> 90 then mu_volume m + 10 else 100) in ([Send 8 v], m\<lparr>mu_volume := v\<rparr>))
      else if idx = 5 then
        ([Send 8 (if mu_mute m then mu_volume m else 0)], m\<lparr>mu_mute := \<not> mu_mute m\<rparr>)
      else ([], m))"

subsection \<open>The timers\<close>

definition update_state_label :: "bt_info \<Rightarrow> music_call" where
  "update_state_label info =
     State_label (if bi_state info = BT_STATE_OFF then ''off''
                  else if bi_state info = BT_STATE_ON then ''waiting'' else ''connected'')"

text \<open>Every 100 ms. Note the early return, which also skips a changed track.\<close>

definition pos_timer_cb :: "bt_info \<Rightarrow> music \<Rightarrow> music_call list \<times> music" where
  "pos_timer_cb info m =
     (let (c1, m1) =
            (if bi_state info \<noteq> mu_last_bt_state m
             then ([Play_symbol (bi_state info \<noteq> BT_STATE_PLAYING)], m\<lparr>mu_last_bt_state := bi_state info\<rparr>)
             else ([], m))
      in if \<not> bi_pos_changed info \<and> bi_state info \<noteq> BT_STATE_PLAYING then (c1, m1)
         else let g_pos = (if bi_pos_changed info then bi_pos info else mu_pos m1 + 100);
                  c2 = (if bi_pos_changed info then [Send 11 0] else []);
                  pos = c_div g_pos 1000;
                  dur = c_div (bi_dur info) 1000;
                  c3 = [Time_label (c_div pos 60) (c_mod pos 60) (c_div dur 60) (c_mod dur 60)];
                  c4 = (if bi_track_changed info
                        then [Track_labels (bi_artist info) (bi_title info), Send 10 0] else [])
              in (c1 @ c2 @ c3 @ c4, m1\<lparr>mu_pos := g_pos\<rparr>))"

text \<open>Every 3 s. \<open>last_state\<close> starts as \<open>RK_BT_STATE_NONE\<close>, which is 0 like \<open>BT_STATE_OFF\<close>.\<close>

definition bt_timer_cb :: "bt_info \<Rightarrow> music \<Rightarrow> music_call list \<times> music" where
  "bt_timer_cb info m =
     (let c = [update_state_label info] in
      if mu_last_state m \<noteq> BT_STATE_OFF \<and> bi_state info = BT_STATE_OFF then
        (c @ [Send 0 0], m\<lparr>mu_last_state := bi_state info\<rparr>)
      else (c, m\<lparr>mu_last_state := bi_state info, mu_sink_enabled := True\<rparr>))"

subsection \<open>Opening and closing the tile, and the switch of the settings page\<close>

definition app_music_init :: "bt_info \<Rightarrow> music \<Rightarrow> music_call list \<times> music" where
  "app_music_init info m =
     (if bi_state info = BT_STATE_OFF
      then ([Send 2 0, update_state_label info], m\<lparr>mu_sink_enabled := False\<rparr>)
      else ([update_state_label info], m\<lparr>mu_sink_enabled := True\<rparr>))"

definition app_music_deinit :: "music \<Rightarrow> music_call list \<times> music" where
  "app_music_deinit m =
     (if mu_sink_enabled m then ([Send 3 0], m\<lparr>mu_sink_enabled := False\<rparr>) else ([], m))"

definition bt_switch_initial :: "bt_info \<Rightarrow> bool" where
  "bt_switch_initial info = (bi_state info = BT_STATE_ON)"

definition bt_switch_toggled :: "bool \<Rightarrow> music_call list" where
  "bt_switch_toggled checked = [Send (if checked then 0 else 1) 0]"

subsection \<open>Runs of the tile\<close>

datatype music_event = Btn bt_info int | Pos_tick bt_info | Bt_tick bt_info

fun music_step :: "music_event \<Rightarrow> music \<Rightarrow> music_call list \<times> music" where
  "music_step (Btn info idx) m = music_btn_cb info idx m"
| "music_step (Pos_tick info) m = pos_timer_cb info m"
| "music_step (Bt_tick info) m = bt_timer_cb info m"

fun music_run :: "music_event list \<Rightarrow> music \<Rightarrow> music_call list \<times> music" where
  "music_run [] m = ([], m)"
| "music_run (e # es) m = (let (c, m1) = music_step e m; (d, m2) = music_run es m1 in (c @ d, m2))"

lemmas music_defs = music_btn_cb_def pos_timer_cb_def bt_timer_cb_def update_state_label_def Let_def

lemma music_step_volume:
  assumes "music_step e m = (c, m')" and "0 \<le> mu_volume m" "mu_volume m \<le> 100"
  shows "0 \<le> mu_volume m' \<and> mu_volume m' \<le> 100 \<and> (\<forall>v. Send 8 v \<in> set c \<longrightarrow> 0 \<le> v \<and> v \<le> 100)"
  using assms by (cases e) (auto simp: music_defs split: if_splits)

fun report :: "music_event \<Rightarrow> bt_info" where
  "report (Btn info _) = info"
| "report (Pos_tick info) = info"
| "report (Bt_tick info) = info"

text \<open>
  Whatever buttons are pressed and whatever the server reports, the volume kept and every
  volume sent to the server lie between 0 and 100.
\<close>

theorem music_volume_range:
  assumes "music_run es music_boot = (cs, m)"
  shows "0 \<le> mu_volume m \<and> mu_volume m \<le> 100 \<and> (\<forall>v. Send 8 v \<in> set cs \<longrightarrow> 0 \<le> v \<and> v \<le> 100)"
proof -
  have "0 \<le> mu_volume m' \<and> mu_volume m' \<le> 100 \<and> (\<forall>v. Send 8 v \<in> set cs \<longrightarrow> 0 \<le> v \<and> v \<le> 100)"
    if "music_run es m = (cs, m')" "0 \<le> mu_volume m" "mu_volume m \<le> 100" for es m cs m'
    using that
  proof (induction es arbitrary: m cs)
    case (Cons e es)
    obtain c m1 d where 1: "music_step e m = (c, m1)" "music_run es m1 = (d, m')" "cs = c @ d"
      using Cons.prems(1) by (auto simp: Let_def split: prod.splits)
    with music_step_volume [OF 1(1) Cons.prems(2,3)] Cons.IH [OF 1(2)] show ?case by auto
  qed auto
  from this [OF assms] show ?thesis by (simp add: music_boot_def)
qed

text \<open>
  The tile alone never enables Bluetooth that was off all along: as long as every report
  says off, no \<open>BT_ENABLE\<close> is sent, since the timer's remembered state starts out equal to
  off; after one report of anything else the first report of off sends it.
\<close>

theorem music_never_enables_when_off:
  assumes "\<forall>e \<in> set es. bi_state (report e) = BT_STATE_OFF"
  shows "Send 0 v \<notin> set (fst (music_run es music_boot)) \<and>
    (\<forall>on off m. bi_state on \<noteq> BT_STATE_OFF \<and> bi_state off = BT_STATE_OFF \<longrightarrow>
       Send 0 0 \<in> set (fst (music_run [Bt_tick on, Bt_tick off] m)))"
proof -
  have "Send 0 v \<notin> set (fst (music_run es m))" if "mu_last_state m = BT_STATE_OFF" for m
    using assms that
  proof (induction es arbitrary: m)
    case (Cons e es)
    obtain c m1 where s: "music_step e m = (c, m1)" by fastforce
    with Cons.prems have "mu_last_state m1 = BT_STATE_OFF" "Send 0 v \<notin> set c"
      by (cases e; auto simp: music_defs split: if_splits)+
    with Cons.IH [of m1] Cons.prems s show ?case by (auto simp: Let_def split: prod.splits)
  qed simp
  moreover have "Send 0 0 \<in> set (fst (music_run [Bt_tick on, Bt_tick off] m))"
    if "bi_state on \<noteq> BT_STATE_OFF" "bi_state off = BT_STATE_OFF" for on off m
    using that by (simp add: music_defs)
  ultimately show ?thesis by (auto simp: music_boot_def)
qed

definition info_in :: "int \<Rightarrow> bt_info" where
  "info_in st = (bt_info bt_boot)\<lparr>bi_state := st\<rparr>"

lemma music_volume_range_witness:
  "\<exists>cs m. music_run [Btn (info_in 4) 3, Btn (info_in 4) 5] music_boot = (cs, m) \<and> mu_volume m \<le> 100 \<and>
     Send 8 90 \<in> set cs"
proof -
  have "\<exists>cs m. music_run [Btn (info_in 4) 3, Btn (info_in 4) 5] music_boot = (cs, m) \<and> Send 8 90 \<in> set cs"
    by (simp add: music_boot_def info_in_def music_defs)
  then show ?thesis using music_volume_range by blast
qed

lemma music_never_enables_when_off_witness:
  "Send 0 0 \<notin> set (fst (music_run [Bt_tick (info_in 0), Pos_tick (info_in 0)] music_boot))"
  using music_never_enables_when_off [of "[Bt_tick (info_in 0), Pos_tick (info_in 0)]" 0]
  by (simp add: info_in_def)

text \<open>
  A device that is connected but not playing is reported as on, so the buttons do nothing for
  it until the first play or pause event.
\<close>

lemma music_buttons_dead_when_on: "music_btn_cb (info_in BT_STATE_ON) idx m = ([], m)"
  by (simp add: music_btn_cb_def info_in_def)

text \<open>A track change is shown only while playing or with a new position.\<close>

lemma track_change_waits:
  "\<not> bi_pos_changed info \<Longrightarrow> bi_state info \<noteq> BT_STATE_PLAYING \<Longrightarrow>
     Track_labels a t \<notin> set (fst (pos_timer_cb info m))"
  by (simp add: pos_timer_cb_def Let_def split: prod.splits)

end
