(* ===== verification/Media.thy ===== *)
theory Media
  imports RK_Prelude
begin

text \<open>
  \<open>rockit/audio_in.c\<close> and \<open>rockit/audio_out.c\<close>: opening and closing the capture and the
  playback path of the media library (as built, with encoder, decoder and voice processing).
  The library's results are a function from the call to its value; what is called is the
  emitted trace, from which the resources held can be read. The locale \<open>endpoint\<close> states what
  the users of a path rely on; both paths are interpretations.
\<close>

subsection \<open>Calls and resources\<close>

datatype mpi_call =
    SetPubAttr | Enable | SetChnParam | SetVqeAttr | GetVqeAttr | CmpVqeAttr | EnableVqe
  | SetTrackMode | EnableChn | EnableReSmp | CreateCodec | Bind
  | UnBind | DestroyCodec | DisableChn | DisableVqe | Disable

datatype resource = Device | Vqe | Channel | Codec | Binding

fun acquires :: "mpi_call \<Rightarrow> resource option" where
  "acquires Enable = Some Device"
| "acquires EnableVqe = Some Vqe"
| "acquires EnableChn = Some Channel"
| "acquires CreateCodec = Some Codec"
| "acquires Bind = Some Binding"
| "acquires _ = None"

fun releases :: "mpi_call \<Rightarrow> resource option" where
  "releases UnBind = Some Binding"
| "releases DestroyCodec = Some Codec"
| "releases DisableChn = Some Channel"
| "releases DisableVqe = Some Vqe"
| "releases Disable = Some Device"
| "releases _ = None"

text \<open>A call that acquires holds its resource when its result is 0.\<close>

definition hold :: "(mpi_call \<Rightarrow> int) \<Rightarrow> mpi_call \<Rightarrow> resource set \<Rightarrow> resource set" where
  "hold r c H = (case acquires c of
     Some x \<Rightarrow> if r c = 0 then insert x H else H
   | None \<Rightarrow> (case releases c of Some x \<Rightarrow> H - {x} | None \<Rightarrow> H))"

definition held :: "(mpi_call \<Rightarrow> int) \<Rightarrow> mpi_call list \<Rightarrow> resource set \<Rightarrow> resource set" where
  "held r cs H = fold (hold r) cs H"

lemma held_simps [simp]:
  "held r [] H = H" "held r (c # cs) H = held r cs (hold r c H)" "held r (cs @ ds) H = held r ds (held r cs H)"
  by (simp_all add: held_def)

subsection \<open>Sound modes\<close>

datatype sound_mode = MONO | STEREO | CHN_4 | CHN_6 | CHN_8 | MODE_BUTT

definition ai_sound_mode :: "int \<Rightarrow> sound_mode" where
  "ai_sound_mode ch = (if ch = 1 then MONO else if ch = 2 then STEREO else if ch = 4 then CHN_4
     else if ch = 6 then CHN_6 else if ch = 8 then CHN_8 else MODE_BUTT)"

definition ao_sound_mode :: "int \<Rightarrow> sound_mode" where
  "ao_sound_mode ch = (if ch = 1 then MONO else if ch = 2 then STEREO else MODE_BUTT)"

subsection \<open>Capture\<close>

text \<open>The labels at the end of \<open>ai_init\<close>, each falling through to the next.\<close>

definition ai_vqe_err :: "mpi_call list" where
  "ai_vqe_err = [Disable]"

definition ai_chn_err :: "mpi_call list" where
  "ai_chn_err = DisableVqe # ai_vqe_err"

definition ai_aenc_err :: "mpi_call list" where
  "ai_aenc_err = DisableChn # ai_chn_err"

definition ai_bind_err :: "mpi_call list" where
  "ai_bind_err = DestroyCodec # ai_aenc_err"

definition ai_init :: "(mpi_call \<Rightarrow> int) \<Rightarrow> mpi_call list \<times> int" where
  "ai_init r =
     (if r SetPubAttr \<noteq> 0 then ([SetPubAttr], -1)
      else if r Enable \<noteq> 0 then ([SetPubAttr, Enable], -1)
      else if r SetChnParam \<noteq> 0 then ([SetPubAttr, Enable, SetChnParam] @ ai_chn_err, -1)
      else let c1 = [SetPubAttr, Enable, SetChnParam, SetVqeAttr] in
        if r SetVqeAttr \<noteq> 0 then (c1 @ ai_vqe_err, -1)
        else if r GetVqeAttr \<noteq> 0 then (c1 @ [GetVqeAttr] @ ai_vqe_err, -1)
        else if r CmpVqeAttr \<noteq> 0 then (c1 @ [GetVqeAttr, CmpVqeAttr] @ ai_vqe_err, -1)
        else let c2 = c1 @ [GetVqeAttr, CmpVqeAttr, EnableVqe] in
          if r EnableVqe \<noteq> 0 then (c2 @ ai_vqe_err, -1)
          else if r EnableChn \<noteq> 0 then (c2 @ [EnableChn] @ ai_chn_err, -1)
          else if r CreateCodec \<noteq> 0 then (c2 @ [EnableChn, CreateCodec] @ ai_aenc_err, -1)
          else if r Bind \<noteq> 0 then (c2 @ [EnableChn, CreateCodec, Bind] @ ai_bind_err, -1)
          else (c2 @ [EnableChn, CreateCodec, Bind], 0))"

text \<open>Every step is taken whatever the results of the others.\<close>

definition ai_deinit :: "(mpi_call \<Rightarrow> int) \<Rightarrow> mpi_call list \<times> int" where
  "ai_deinit r = ([UnBind, DisableChn, DisableVqe, Disable, DestroyCodec], 0)"

subsection \<open>Playback\<close>

definition ao_chn_err :: "mpi_call list" where
  "ao_chn_err = [Disable]"

definition ao_adec_err :: "mpi_call list" where
  "ao_adec_err = DisableChn # ao_chn_err"

definition ao_bind_err :: "mpi_call list" where
  "ao_bind_err = DestroyCodec # ao_adec_err"

definition ao_init :: "(mpi_call \<Rightarrow> int) \<Rightarrow> mpi_call list \<times> int" where
  "ao_init r =
     (if r SetPubAttr \<noteq> 0 then ([SetPubAttr], -1)
      else if r Enable \<noteq> 0 then ([SetPubAttr, Enable], -1)
      else if r SetChnParam \<noteq> 0 then ([SetPubAttr, Enable, SetChnParam] @ ao_chn_err, -1)
      else let c1 = [SetPubAttr, Enable, SetChnParam, SetTrackMode, EnableChn] in
        if r EnableChn \<noteq> 0 then (c1 @ ao_chn_err, -1)
        else let c2 = c1 @ [EnableReSmp, CreateCodec] in
          if r CreateCodec \<noteq> 0 then (c2 @ ao_adec_err, -1)
          else if r Bind \<noteq> 0 then (c2 @ [Bind] @ ao_bind_err, -1)
          else (c2 @ [Bind], 0))"

definition ao_deinit :: "(mpi_call \<Rightarrow> int) \<Rightarrow> mpi_call list \<times> int" where
  "ao_deinit r = ([UnBind, DisableChn, Disable, DestroyCodec], 0)"

subsection \<open>What the users of a path rely on\<close>

locale endpoint =
  fixes init deinit :: "(mpi_call \<Rightarrow> int) \<Rightarrow> mpi_call list \<times> int"
    and parts :: "resource set"
  assumes init_result: "snd (init r) = 0 \<or> snd (init r) = -1"
    and init_ok: "snd (init r) = 0 \<Longrightarrow> held r (fst (init r)) {} = parts"
    and init_fail: "snd (init r) = -1 \<Longrightarrow> held r (fst (init r)) {} = {}"
    and deinit_releases: "held r (fst (deinit r)) parts = {}"
begin

definition session :: "(mpi_call \<Rightarrow> int) \<Rightarrow> mpi_call list" where
  "session r = fst (init r) @ (if snd (init r) = 0 then fst (deinit r) else [])"

lemma session_balanced: "held r (session r) {} = {}"
  using init_result [of r] init_ok [of r] init_fail [of r] deinit_releases [of r]
  by (auto simp: session_def)

end

lemmas media_defs = ai_init_def ai_deinit_def ai_vqe_err_def ai_chn_err_def ai_aenc_err_def
  ai_bind_err_def ao_init_def ao_deinit_def ao_chn_err_def ao_adec_err_def ao_bind_err_def
  hold_def Let_def

interpretation ai: endpoint ai_init ai_deinit "{Device, Vqe, Channel, Codec, Binding}"
  by unfold_locales (auto simp: media_defs split: if_splits)

interpretation ao: endpoint ao_init ao_deinit "{Device, Channel, Codec, Binding}"
  by unfold_locales (auto simp: media_defs split: if_splits)

subsection \<open>Properties\<close>

text \<open>
  C9. However the media library answers, opening the capture or the playback path either
  succeeds holding every part of it, or fails with -1 holding nothing; closing an open path
  releases every part. No sequence of failures leaks a device, channel, codec or binding.
\<close>

theorem media_paths_balanced:
  "(case ai_init r of (cs, ret) \<Rightarrow>
      ret = 0 \<and> held r cs {} = {Device, Vqe, Channel, Codec, Binding} \<and>
        held r (cs @ fst (ai_deinit r')) {} = {} \<or>
      ret = -1 \<and> held r cs {} = {}) \<and>
   (case ao_init r of (cs, ret) \<Rightarrow>
      ret = 0 \<and> held r cs {} = {Device, Channel, Codec, Binding} \<and>
        held r (cs @ fst (ao_deinit r')) {} = {} \<or>
      ret = -1 \<and> held r cs {} = {})"
proof -
  have same: "fst (ai_deinit r') = fst (ai_deinit r)" "fst (ao_deinit r') = fst (ao_deinit r)"
    by (simp_all add: ai_deinit_def ao_deinit_def)
  show ?thesis
    using ai.init_result [of r] ai.init_ok [of r] ai.init_fail [of r] ai.deinit_releases [of r]
      ao.init_result [of r] ao.init_ok [of r] ao.init_fail [of r] ao.deinit_releases [of r]
    by (auto simp: same case_prod_beta)
qed

text \<open>
  One failure path releases what it never had: after \<open>SetChnParam\<close> fails, the voice
  processing that was not yet enabled is disabled.
\<close>

lemma ai_releases_unheld:
  "ai_init (\<lambda>c. if c = SetChnParam then 1 else 0) =
     ([SetPubAttr, Enable, SetChnParam, DisableVqe, Disable], -1)"
  by (simp add: media_defs)

end
