(* ===== verification/Audio_Call.thy ===== *)
theory Audio_Call
  imports Media
begin

text \<open>
  The intercom call: \<open>rockit/audio_server.c\<close>, \<open>rockit/audio_client.c\<close>, the frame functions of
  \<open>rockit/audio_in.c\<close> and \<open>rockit/audio_out.c\<close>, and \<open>intercom_call/ui_intercom_call.c\<close>. A
  socket is the list of segments that arrive on it; the two threads are state machines whose
  events carry the results of the system calls, so that the user interface's operations can
  come between any two of them.
\<close>

subsection \<open>Reading a frame\<close>

text \<open>\<open>read (fd, buf, n)\<close>: at most \<open>n\<close> bytes of the next segment, nothing at the end.\<close>

fun sock_read :: "nat \<Rightarrow> u8 list list \<Rightarrow> u8 list \<times> u8 list list" where
  "sock_read n [] = ([], [])"
| "sock_read n (seg # segs) = (take n seg, if length seg \<le> n then segs else drop n seg # segs)"

text \<open>
  \<open>ao_read\<close>: \<open>running k\<close> is the \<open>k\<close>-th look at \<open>server->state == STATE_RUNNING\<close>. \<open>None\<close> is
  the return of 0, \<open>Some\<close> the bytes put into the buffer when \<open>len\<close> is returned.
\<close>

function ao_read :: "(nat \<Rightarrow> bool) \<Rightarrow> nat \<Rightarrow> nat \<Rightarrow> u8 list list \<Rightarrow> u8 list option \<times> u8 list list" where
  "ao_read running k n segs =
     (if n = 0 then (if running k then Some [] else None, segs)
      else if \<not> running k then (if running (Suc k) then Some [] else None, segs)
      else case sock_read n segs of
        (d, segs') \<Rightarrow>
          if d = [] then (None, segs')
          else (case ao_read running (Suc k) (n - length d) segs' of
                  (r, rest) \<Rightarrow> (map_option ((@) d) r, rest)))"
  by pat_completeness auto
termination
  by (relation "measure (\<lambda>(running, k, n, segs). n)") auto

declare ao_read.simps [simp del]

text \<open>
  \<open>ao_push\<close>: a frame is what the hook put into 1024 bytes; the time stamp and the sequence
  number are counters. The result of \<open>SendStream\<close> is returned.
\<close>

record push_state =
  ps_time :: nat
  ps_count :: nat

datatype frame = Frame "u8 list" nat nat

definition ao_push :: "u8 list option \<Rightarrow> int \<Rightarrow> push_state \<Rightarrow> frame list \<times> int \<times> push_state" where
  "ao_push hook sent p =
     (case hook of
        None \<Rightarrow> ([], -1, p)
      | Some buf \<Rightarrow>
          ([Frame buf (ps_time p) (ps_count p + 1)], sent,
           p\<lparr>ps_time := ps_time p + 1, ps_count := ps_count p + 1\<rparr>))"

text \<open>
  \<open>ai_fetch\<close>: the result of \<open>GetStream\<close>, the frame where its address is not null, and what
  the hook returned. The flag says whether the stream is given back.
\<close>

definition ai_fetch :: "int \<Rightarrow> u8 list option \<Rightarrow> int \<Rightarrow> int \<times> bool" where
  "ai_fetch get frame hook =
     (if get \<noteq> 0 then (get, True)
      else case frame of None \<Rightarrow> (get, False) | Some buf \<Rightarrow> (if hook \<le> 0 then -1 else 0, True))"

subsection \<open>The client\<close>

datatype au_state = STATE_IDLE | STATE_RUNNING | STATE_EXIT | STATE_ERROR | STATE_PAUSE

datatype cap_pc = Cap_start | Cap_loop | Cap_done

record aclient =
  ac_state :: au_state
  ac_pc :: cap_pc
  ac_fd :: bool
  ac_ai :: bool

text \<open>\<open>connect_timeout\<close>: the results of \<open>connect\<close> and \<open>select\<close>.\<close>

definition connect_timeout :: "int \<Rightarrow> bool \<Rightarrow> int \<Rightarrow> int" where
  "connect_timeout conn in_progress sel =
     (if conn < 0 then
        if \<not> in_progress then -1
        else if sel < 0 then -1
        else if sel = 0 then 0
        else 1
      else 1)"

text \<open>
  \<open>audio_client_new\<close>: the client, and whether its socket is left open. \<open>calloc\<close> makes the
  state 0.
\<close>

definition audio_client_new :: "bool \<Rightarrow> int \<Rightarrow> int \<Rightarrow> int \<Rightarrow> aclient option \<times> bool" where
  "audio_client_new mem fd conn create =
     (if \<not> mem then (None, False)
      else if fd < 0 then (None, False)
      else if conn \<le> 0 then (None, False)
      else if create < 0 then (None, False)
      else (Some \<lparr>ac_state = STATE_IDLE, ac_pc = (if create = 0 then Cap_start else Cap_done),
                  ac_fd = True, ac_ai = False\<rparr>, True))"

definition audio_client_state :: "aclient option \<Rightarrow> au_state" where
  "audio_client_state c = (case c of None \<Rightarrow> STATE_IDLE | Some c \<Rightarrow> ac_state c)"

text \<open>The capture thread \<open>do_cap\<close>: its opening, one turn of its loop, and its end.\<close>

definition cap_end :: "aclient \<Rightarrow> aclient" where
  "cap_end c = c\<lparr>ac_fd := False, ac_pc := Cap_done\<rparr>"

definition cap_init :: "int \<Rightarrow> aclient \<Rightarrow> aclient" where
  "cap_init result c =
     (if result \<noteq> 0 then cap_end (c\<lparr>ac_state := STATE_ERROR\<rparr>)
      else c\<lparr>ac_state := STATE_RUNNING, ac_ai := True, ac_pc := Cap_loop\<rparr>)"

definition cap_turn :: "int \<Rightarrow> aclient \<Rightarrow> aclient" where
  "cap_turn fetch c =
     (if ac_state c = STATE_RUNNING \<and> fetch \<noteq> -1 then c
      else cap_end (c\<lparr>ac_ai := False, ac_state := STATE_IDLE\<rparr>))"

text \<open>The part of \<open>audio_client_del\<close> before the join.\<close>

definition audio_client_del :: "aclient \<Rightarrow> aclient" where
  "audio_client_del c = c\<lparr>ac_state := STATE_EXIT\<rparr>"

datatype cap_event = Cap_init int | Cap_fetch int | Cap_del

fun cap_step :: "cap_event \<Rightarrow> aclient \<Rightarrow> aclient" where
  "cap_step (Cap_init r) c = (if ac_pc c = Cap_start then cap_init r c else c)"
| "cap_step (Cap_fetch r) c = (if ac_pc c = Cap_loop then cap_turn r c else c)"
| "cap_step Cap_del c = audio_client_del c"

subsection \<open>The server\<close>

datatype srv_pc = In_accept | In_session | Exited

record aserver =
  as_pc :: srv_pc
  as_state :: au_state
  as_fd :: bool
  as_cfd :: bool
  as_client :: "aclient option"
  as_ao :: bool

text \<open>\<open>audio_server_init\<close>: the socket, closed again where \<open>bind\<close> fails.\<close>

definition audio_server_init :: "int \<Rightarrow> int \<Rightarrow> int \<times> bool" where
  "audio_server_init sock bind = (if sock < 0 then (sock, False) else if bind < 0 then (bind, False) else (sock, True))"

text \<open>The end of the thread, and the head of its loop up to \<open>accept\<close>.\<close>

definition srv_exit :: "aserver \<Rightarrow> aserver" where
  "srv_exit s = s\<lparr>as_fd := False, as_pc := Exited,
     as_state := (if as_state s \<noteq> STATE_ERROR then STATE_IDLE else STATE_ERROR)\<rparr>"

definition srv_top :: "int \<Rightarrow> aserver \<Rightarrow> aserver" where
  "srv_top listen s =
     (if as_state s \<noteq> STATE_RUNNING then srv_exit s
      else if listen = -1 then srv_exit (s\<lparr>as_state := STATE_ERROR\<rparr>)
      else s\<lparr>as_pc := In_accept\<rparr>)"

definition audio_server_new :: "bool \<Rightarrow> int \<Rightarrow> int \<Rightarrow> int \<Rightarrow> int \<Rightarrow> aserver option \<times> bool" where
  "audio_server_new mem sock bind create listen =
     (if \<not> mem then (None, False)
      else let (fd, opened) = audio_server_init sock bind in
        if fd < 0 then (None, opened)
        else if create < 0 then (None, False)
        else (Some (srv_top listen \<lparr>as_pc = In_accept, as_state = STATE_RUNNING, as_fd = True, as_cfd = False,
                as_client = None, as_ao = False\<rparr>), True))"

definition audio_server_connect :: "aclient option \<Rightarrow> aserver \<Rightarrow> int \<times> aserver" where
  "audio_server_connect new_client s =
     (if as_client s \<noteq> None then (0, s) else (0, s\<lparr>as_client := new_client\<rparr>))"

definition audio_server_connected :: "aserver \<Rightarrow> bool" where
  "audio_server_connected s = (as_client s \<noteq> None)"

definition audio_server_state :: "aserver option \<Rightarrow> au_state" where
  "audio_server_state s = (case s of None \<Rightarrow> STATE_IDLE | Some s \<Rightarrow> audio_client_state (as_client s))"

text \<open>The result is \<open>None\<close> on success: the function has no \<open>return\<close> there.\<close>

definition audio_server_disconnect :: "aserver \<Rightarrow> int option \<times> aserver" where
  "audio_server_disconnect s =
     (if as_state s \<noteq> STATE_RUNNING then (Some (-1), s) else (None, s\<lparr>as_state := STATE_PAUSE\<rparr>))"

text \<open>The code from \<open>ao_err\<close> to the end of the loop's body, and the next turn.\<close>

definition srv_ao_err :: "int \<Rightarrow> aserver \<Rightarrow> aserver" where
  "srv_ao_err listen s =
     srv_top listen (s\<lparr>as_cfd := False, as_client := None,
       as_state := (if as_state s = STATE_PAUSE then STATE_RUNNING else as_state s)\<rparr>)"

definition srv_session_end :: "int \<Rightarrow> aserver \<Rightarrow> aserver" where
  "srv_session_end listen s = srv_ao_err listen (s\<lparr>as_ao := False\<rparr>)"

text \<open>
  The events of the thread: a failed accept; an accepted call with the client made for it, the
  result of \<open>ao_init\<close> and of the next \<open>listen\<close>; one \<open>ao_push\<close>. Those of the user interface:
  connect, disconnect.
\<close>

datatype srv_event =
    Accept_fail int
  | Accept "aclient option" int int
  | Push int int
  | Ui_connect "aclient option"
  | Ui_disconnect

fun srv_step :: "srv_event \<Rightarrow> aserver \<Rightarrow> aserver" where
  "srv_step (Accept_fail listen) s = (if as_pc s = In_accept then srv_top listen s else s)"
| "srv_step (Accept new_client ao listen) s =
     (if as_pc s = In_accept then
        let s1 = snd (audio_server_connect new_client (s\<lparr>as_cfd := True\<rparr>)) in
        if ao = -1 then srv_ao_err listen s1
        else s1\<lparr>as_ao := True, as_state := STATE_RUNNING, as_pc := In_session\<rparr>
      else s)"
| "srv_step (Push result listen) s =
     (if as_pc s = In_session then
        if result = -1 \<or> as_state s \<noteq> STATE_RUNNING then srv_session_end listen s else s
      else s)"
| "srv_step (Ui_connect new_client) s = snd (audio_server_connect new_client s)"
| "srv_step Ui_disconnect s = snd (audio_server_disconnect s)"

text \<open>
  \<open>audio_server_del\<close>: the thread is cancelled in \<open>accept\<close>, the only place where cancelling is
  enabled, and runs out otherwise. The result is the client left behind, if any.
\<close>

definition audio_server_del :: "aserver \<Rightarrow> aclient option" where
  "audio_server_del s =
     (case as_pc s of
        In_accept \<Rightarrow> as_client s
      | In_session \<Rightarrow> as_client (srv_session_end 0 (s\<lparr>as_state := STATE_EXIT\<rparr>))
      | Exited \<Rightarrow> as_client s)"

text \<open>The call button and the label of the page.\<close>

definition ui_call_cb :: "aclient option \<Rightarrow> aserver \<Rightarrow> aserver" where
  "ui_call_cb new_client s =
     (if \<not> audio_server_connected s then snd (audio_server_connect new_client s)
      else snd (audio_server_disconnect s))"

datatype call_label = Call | Hang_up

definition state_update :: "aserver option \<Rightarrow> au_state \<Rightarrow> call_label option \<times> au_state" where
  "state_update s last_state =
     (let state = audio_server_state s in
      if last_state \<noteq> state
      then (Some (if state = STATE_RUNNING then Hang_up else Call), state) else (None, last_state))"

subsection \<open>Frames are the stream\<close>

lemma sock_read_split:
  assumes "sock_read n segs = (d, segs')"
  shows "concat segs = d @ concat segs' \<and> length d \<le> n"
proof (cases segs)
  case (Cons seg rest)
  with assms show ?thesis by (cases "length seg \<le> n") auto
qed (use assms in auto)

lemma sock_read_progress:
  assumes "sock_read n segs = (d, segs')" "0 < n" "[] \<notin> set segs"
  shows "(d = [] \<longleftrightarrow> segs = []) \<and> [] \<notin> set segs'"
proof (cases segs)
  case (Cons seg rest)
  with assms show ?thesis by (cases "length seg \<le> n") auto
qed (use assms in auto)

text \<open>
  While the call runs, the frame read from the socket is the next \<open>len\<close> bytes of the
  stream however it was cut into segments, and the rest of the stream is left; with fewer bytes
  before the end no frame is produced.
\<close>

theorem ao_read_next_block:
  assumes "[] \<notin> set segs"
  shows "fst (ao_read (\<lambda>_. True) k len segs) =
      (if len \<le> length (concat segs) then Some (take len (concat segs)) else None) \<and>
    (len \<le> length (concat segs) \<longrightarrow> concat (snd (ao_read (\<lambda>_. True) k len segs)) = drop len (concat segs))"
  using assms
proof (induction len arbitrary: k segs rule: less_induct)
  case (less len)
  show ?case
  proof (cases "len = 0")
    case True
    then show ?thesis by (simp add: ao_read.simps [of _ _ 0])
  next
    case False
    obtain d segs' where r: "sock_read len segs = (d, segs')" by fastforce
    with False less.prems have s: "concat segs = d @ concat segs'" "length d \<le> len"
      "d = [] \<longleftrightarrow> segs = []" "[] \<notin> set segs'"
      using sock_read_split [OF r] sock_read_progress [OF r] by auto
    have step: "ao_read (\<lambda>_. True) k len segs = (if d = [] then (None, segs')
        else (case ao_read (\<lambda>_. True) (Suc k) (len - length d) segs' of (q, rest) \<Rightarrow> (map_option ((@) d) q, rest)))"
      by (subst ao_read.simps) (simp add: r False)
    show ?thesis
    proof (cases "d = []")
      case True
      with s False step show ?thesis by simp
    next
      case d: False
      obtain q rest where q: "ao_read (\<lambda>_. True) (Suc k) (len - length d) segs' = (q, rest)" by fastforce
      from d False have "len - length d < len" by simp
      from less.IH [OF this s(4), of "Suc k"] have
        IH: "q = (if len - length d \<le> length (concat segs') then Some (take (len - length d) (concat segs')) else None)"
          "len - length d \<le> length (concat segs') \<longrightarrow> concat rest = drop (len - length d) (concat segs')"
        by (simp_all add: q)
      have "len \<le> length (concat segs) \<longleftrightarrow> len - length d \<le> length (concat segs')"
        unfolding s(1) using s(2) by auto
      with IH s(1,2) d show ?thesis unfolding step q by (simp add: s(1))
    qed
  qed
qed

lemma ao_read_next_block_witness:
  "fst (ao_read (\<lambda>_. True) 0 4 [[1, 2, 3], [4, 5]]) = Some [1, 2, 3, 4]"
  using ao_read_next_block [of "[[1, 2, 3], [4, 5]]" 0 4] by simp

subsection \<open>The server's invariant\<close>

text \<open>
  Playback is open and a call is connected exactly in a session; the listening socket is open
  until the thread has ended, and it ends idle or in error; while it waits or plays, its state
  is running or paused.
\<close>

definition srv_inv :: "aserver \<Rightarrow> bool" where
  "srv_inv s \<longleftrightarrow> (as_ao s \<longleftrightarrow> as_pc s = In_session) \<and> (as_cfd s \<longleftrightarrow> as_pc s = In_session) \<and>
     (as_fd s \<longleftrightarrow> as_pc s \<noteq> Exited) \<and>
     (if as_pc s = Exited then as_state s \<in> {STATE_IDLE, STATE_ERROR}
      else as_state s \<in> {STATE_RUNNING, STATE_PAUSE})"

lemmas srv_defs = srv_top_def srv_exit_def srv_ao_err_def srv_session_end_def
  audio_server_connect_def audio_server_disconnect_def Let_def

inductive srv_reach :: "aserver \<Rightarrow> bool" where
  new: "audio_server_new True sock bind create listen = (Some s, opened) \<Longrightarrow> srv_reach s"
| step: "srv_reach s \<Longrightarrow> srv_reach (srv_step e s)"

inductive_cases srv_reachE: "srv_reach s"

lemma srv_new_inv: "audio_server_new True sock bind create listen = (Some s, opened) \<Longrightarrow> srv_inv s"
  by (auto simp: audio_server_new_def audio_server_init_def srv_defs srv_inv_def split: if_splits)

lemma srv_step_inv: "srv_inv s \<Longrightarrow> srv_inv (srv_step e s)"
  by (cases e; cases "as_pc s") (auto simp: srv_defs srv_inv_def)

lemma srv_reach_inv: "srv_reach s \<Longrightarrow> srv_inv s"
  by (induction rule: srv_reach.induct) (auto intro: srv_new_inv srv_step_inv)



definition srv_start :: aserver where
  "srv_start = \<lparr>as_pc = In_accept, as_state = STATE_RUNNING, as_fd = True, as_cfd = False,
     as_client = None, as_ao = False\<rparr>"

definition caller :: aclient where
  "caller = \<lparr>ac_state = STATE_RUNNING, ac_pc = Cap_loop, ac_fd = True, ac_ai = True\<rparr>"

lemma srv_reach_start [intro]: "srv_reach srv_start"
  using srv_reach.new [of 5 0 0 0 srv_start True]
  by (simp add: audio_server_new_def audio_server_init_def srv_defs srv_start_def)



text \<open>Leaving the page while the callee has not answered leaves the client behind.\<close>

lemma del_leaks_client:
  "audio_server_del (srv_step (Ui_connect (Some caller)) srv_start) = Some caller"
  by (simp add: srv_start_def srv_defs audio_server_del_def)

lemma del_in_session: "as_pc s = In_session \<Longrightarrow> audio_server_del s = None"
  by (simp add: audio_server_del_def srv_defs)

subsection \<open>Stopping the client\<close>

text \<open>
  Deleting a client whose capture runs stops it at the next frame: capture and socket are
  closed and the thread ends, so the join returns. A client deleted before its thread has
  opened the capture is not stopped: the thread then overwrites the request, and captures as
  long as the frames can be sent.
\<close>

theorem audio_client_stop:
  "(ac_pc c = Cap_loop \<longrightarrow>
      (let c' = cap_step (Cap_fetch r) (cap_step Cap_del c) in
         ac_pc c' = Cap_done \<and> \<not> ac_ai c' \<and> \<not> ac_fd c' \<and> ac_state c' = STATE_IDLE)) \<and>
   (ac_pc c = Cap_start \<longrightarrow>
      (let c' = fold cap_step (replicate n (Cap_fetch 0)) (cap_step (Cap_init 0) (cap_step Cap_del c)) in
         ac_pc c' = Cap_loop \<and> ac_ai c' \<and> ac_state c' = STATE_RUNNING))"
proof -
  have "fold cap_step (replicate n (Cap_fetch 0)) c = c"
    if "ac_pc c = Cap_loop" "ac_state c = STATE_RUNNING" for c
    using that by (induction n) (simp_all add: cap_turn_def)
  then show ?thesis
    by (simp add: cap_turn_def cap_end_def cap_init_def audio_client_del_def Let_def)
qed

lemma audio_client_stop_witness:
  "ac_pc (cap_step (Cap_fetch 0) (cap_step Cap_del caller)) = Cap_done"
  using audio_client_stop [of caller 0 0] by (simp add: caller_def Let_def)

text \<open>A refused connection that \<open>select\<close> reports as writable counts as connected.\<close>

lemma connect_ignores_so_error: "connect_timeout (-1) True 1 = 1"
  by (simp add: connect_timeout_def)

end
