(* ===== verification/Asr.thy ===== *)
theory Asr
  imports RK_Prelude
begin

unbundle bit_operations_syntax

text \<open>
  Voice control: \<open>asr/asr.c\<close> (the command table, what a recognised command does, the timer
  that shows it) and \<open>asr/audio.c\<close> (the capture thread with its frame countdown, the playback
  thread with its answers). The recogniser and ALSA are parameters: each frame comes with the
  wake-up status and the command the recogniser gives. Texts are given in English and pinyin.
\<close>

subsection \<open>The command table\<close>

record asr_cmd =
  cm_en :: string
  cm_pinyin :: string
  cm_ans :: int

definition light_cmds :: "(string \<times> string) list" where
  "light_cmds = [(''the light'', ''deng''), (''dimming lights'', ''tiao guan deng''), (''spotlight'', ''she deng''),
     (''downlight'', ''tong deng''), (''light strip'', ''deng dai''), (''floor heating'', ''di nuan''),
     (''fresh air'', ''xin feng''), (''air conditioner'', ''kong tiao''), (''curtain'', ''chuang lian'')]"

definition cmds :: "asr_cmd list" where
  "cmds =
     [\<lparr>cm_en = ''XiaoRui, XiaoRui.'', cm_pinyin = ''XiaoRui XiaoRui.'', cm_ans = 0\<rparr>,
      \<lparr>cm_en = ''Turn on the light.'', cm_pinyin = ''Kai deng.'', cm_ans = -1\<rparr>,
      \<lparr>cm_en = ''Turn off the light.'', cm_pinyin = ''Guan deng'', cm_ans = -1\<rparr>] @
     concat (map (\<lambda>(en, py).
       [\<lparr>cm_en = ''Turn on '' @ en @ ''.'', cm_pinyin = ''Da kai '' @ py @ ''.'', cm_ans = 3\<rparr>,
        \<lparr>cm_en = ''Turn off '' @ en @ ''.'', cm_pinyin = ''Guan bi '' @ py @ ''.'', cm_ans = 4\<rparr>]) light_cmds) @
     [\<lparr>cm_en = ''Puase the curtain.'', cm_pinyin = ''Zan ting chuang lian.'', cm_ans = 2\<rparr>]"

definition answer_txt :: "string list" where
  "answer_txt = [''I'' @ [CHR 0x27] @ ''m here.'', ''OK.'', ''Executing.'', ''Turned on.'', ''Turned off.'',
     ''Welcome home.'', ''Goodbye.'']"

text \<open>The files of \<open>/usr/share/resource/pcm\<close>.\<close>

definition answer_pcm :: "string list" where
  "answer_pcm = map (\<lambda>n. ''/usr/share/resource/pcm/'' @ n @ ''.pcm'')
     [''wo_zai'', ''hao_de'', ''zheng_zai_zhi_xing'', ''yi_kai_qi'', ''yi_guan_bi'',
      ''huan_yin_hui_jia'', ''zai_jian'', ''huan_yin'']"

subsection \<open>A recognised command\<close>

record asr =
  ar_wakeup :: bool
  ar_wakeid :: int
  ar_wake_update :: bool
  ar_show :: bool

definition asr_boot :: asr where
  "asr_boot = \<lparr>ar_wakeup = False, ar_wakeid = 0, ar_wake_update = False, ar_show = False\<rparr>"

text \<open>
  The test against the length is \<open>k > N\<close> on unsigned numbers, so a negative \<open>k\<close> is refused
  and \<open>k = N\<close> reads past the table, the value \<open>None\<close>. The emitted number is what
  \<open>cmd_answer\<close> writes into the pipe of the playback thread.
\<close>

definition asr_update :: "int \<Rightarrow> asr \<Rightarrow> (int list \<times> asr) option" where
  "asr_update k s =
     (if k = -1 then Some ([], s\<lparr>ar_wakeup := False\<rparr>)
      else if k < 0 \<or> k > int (length cmds) then Some ([], s)
      else case rd cmds k of
        None \<Rightarrow> None
      | Some c \<Rightarrow>
          if cm_ans c = -1 then Some ([], s)
          else Some ([cm_ans c], s\<lparr>ar_wakeid := k, ar_wake_update := True, ar_wakeup := True\<rparr>))"

datatype asr_ui = Show_icon | Hide_all | Show_texts string string

text \<open>The timer of the user interface.\<close>

definition timer_cb :: "asr \<Rightarrow> (asr_ui list \<times> asr) option" where
  "timer_cb s =
     (let (c1, s1) =
            (if ar_wakeup s then (if \<not> ar_show s then ([Show_icon], s\<lparr>ar_show := True\<rparr>) else ([], s))
             else (if ar_show s then ([Hide_all], s\<lparr>ar_show := False\<rparr>) else ([], s)))
      in if \<not> ar_wake_update s1 then Some (c1, s1)
         else case rd cmds (ar_wakeid s1) of
           None \<Rightarrow> None
         | Some c \<Rightarrow>
             (case rd answer_txt (cm_ans c) of
                None \<Rightarrow> None
              | Some a \<Rightarrow> Some (c1 @ [Show_texts (cm_en c) a], s1\<lparr>ar_wake_update := False\<rparr>)))"

subsection \<open>The capture thread\<close>

record capture =
  cp_frame_cot :: int
  cp_wakeup_status :: int
  cp_num_wakeup :: int

definition capture_boot :: capture where
  "capture_boot = \<lparr>cp_frame_cot = 0, cp_wakeup_status = 0, cp_num_wakeup = 0\<rparr>"

text \<open>
  One frame: \<open>status\<close> is the wake-up status the recogniser leaves, \<open>cmd\<close> the command it gives
  when it is asked. The emitted numbers are the arguments of \<open>asr_update\<close>.
\<close>

definition docap_wake :: "int \<Rightarrow> capture \<Rightarrow> int list \<times> capture" where
  "docap_wake status s =
     (if status AND 0xfff \<ge> 1 then
        ([0], s\<lparr>cp_frame_cot := 375, cp_num_wakeup := cp_num_wakeup s + 1,
                cp_wakeup_status := push_bit 11 (drop_bit 11 status)\<rparr>)
      else ([], s\<lparr>cp_wakeup_status := status\<rparr>))"

definition docap_count :: "int \<Rightarrow> capture \<Rightarrow> int list \<times> capture" where
  "docap_count cmd s =
     (if cp_frame_cot s > 0 then
        let n = cp_frame_cot s - 1 in
        if cmd \<noteq> 0 then ((if n < 480 then [cmd] else []), s\<lparr>cp_frame_cot := 500\<rparr>)
        else if n = 0 then ([-1], s\<lparr>cp_frame_cot := 0, cp_wakeup_status := 0\<rparr>)
        else ([], s\<lparr>cp_frame_cot := n\<rparr>)
      else ([], s))"

definition docap_frame :: "int \<times> int \<Rightarrow> capture \<Rightarrow> int list \<times> capture" where
  "docap_frame f s = (case f of (status, cmd) \<Rightarrow>
     let (c1, s1) = docap_wake status s; (c2, s2) = docap_count cmd s1 in (c1 @ c2, s2))"

fun docap :: "(int \<times> int) list \<Rightarrow> capture \<Rightarrow> int list \<times> capture" where
  "docap [] s = ([], s)"
| "docap (f # fs) s = (let (c, s1) = docap_frame f s; (d, s2) = docap fs s1 in (c @ d, s2))"

subsection \<open>The playback thread\<close>

text \<open>
  \<open>alsa_open\<close>: every failing step ends the process.
\<close>

datatype alsa_step =
    Pcm_open | Params_malloc | Params_any | Set_access | Set_format | Set_rate | Set_channels | Set_params

datatype alsa_result = Opened | Process_exit alsa_step

definition alsa_open :: "(alsa_step \<Rightarrow> int) \<Rightarrow> alsa_result" where
  "alsa_open r =
     (case List.find (\<lambda>c. r c < 0)
        [Pcm_open, Params_malloc, Params_any, Set_access, Set_format, Set_rate, Set_channels, Set_params] of
        None \<Rightarrow> Opened
      | Some c \<Rightarrow> Process_exit c)"

text \<open>The frames of one answer: 1024 bytes each, the last filled up with zeroes.\<close>

function answer_frames :: "u8 list \<Rightarrow> u8 list list" where
  "answer_frames [] = []"
| "answer_frames (b # bs) =
     (take 1024 (b # bs) @ replicate (1024 - length (b # bs)) 0) # answer_frames (drop 1024 (b # bs))"
  by pat_completeness auto
termination by (relation "measure length") auto

text \<open>
  One turn of the loop for the command \<open>c\<close> from the pipe; \<open>file\<close> gives the contents of an
  answer. The test is \<open>last_cmd > N\<close> on unsigned numbers, so \<open>N\<close> itself reads past the table.
\<close>

definition doplay_turn :: "(string \<Rightarrow> u8 list option) \<Rightarrow> bool \<Rightarrow> int \<Rightarrow> u8 list list option" where
  "doplay_turn file prepared c =
     (if c < 0 \<or> c > int (length answer_pcm) then Some []
      else case rd answer_pcm c of
        None \<Rightarrow> None
      | Some name \<Rightarrow>
          (case file name of
             None \<Rightarrow> Some []
           | Some bs \<Rightarrow> Some (if prepared then answer_frames bs else [])))"

text \<open>Start and stop; \<open>INT_MAX\<close> only wakes the playback thread.\<close>

record asr_audio =
  aa_running :: bool
  aa_pipes :: nat
  aa_threads :: nat

definition asr_audio_init :: "int \<Rightarrow> asr_audio \<Rightarrow> asr_audio" where
  "asr_audio_init pipe s =
     (if pipe \<noteq> 0 then s
      else s\<lparr>aa_running := True, aa_pipes := aa_pipes s + 1, aa_threads := aa_threads s + 2\<rparr>)"

definition asr_audio_deinit :: "asr_audio \<Rightarrow> int list \<times> asr_audio" where
  "asr_audio_deinit s =
     (if \<not> aa_running s then ([], s)
      else ([2147483647], s\<lparr>aa_running := False, aa_threads := aa_threads s - 2, aa_pipes := aa_pipes s - 1\<rparr>))"

subsection \<open>Properties\<close>

lemma cmds_length [simp]: "length cmds = 22"
  by (simp add: cmds_def light_cmds_def)

lemma cmds_answers: "c \<in> set cmds \<Longrightarrow> cm_ans c = -1 \<or> 0 \<le> cm_ans c \<and> cm_ans c < 7"
  by (auto simp: cmds_def light_cmds_def)

lemma rd_set: "rd m k = Some v \<Longrightarrow> v \<in> set m"
  by (auto simp: rd_def split: if_splits)

text \<open>What the user interface needs of the variables the capture thread writes.\<close>

definition asr_ok :: "asr \<Rightarrow> bool" where
  "asr_ok s \<longleftrightarrow> (\<exists>c. rd cmds (ar_wakeid s) = Some c \<and> 0 \<le> cm_ans c \<and> cm_ans c < 7)"

lemma asr_boot_ok: "asr_ok asr_boot"
  by (simp add: asr_ok_def asr_boot_def rd_def) (simp add: cmds_def)

lemma asr_update_ok:
  assumes "asr_ok s" and "asr_update k s = Some (c, s')"
  shows "asr_ok s' \<and> (\<forall>a \<in> set c. 0 \<le> a \<and> a < 7)"
proof -
  have "0 \<le> cm_ans x \<and> cm_ans x < 7" if "rd cmds k = Some x" "cm_ans x \<noteq> -1" for x
    using cmds_answers [OF rd_set [OF that(1)]] that(2) by auto
  with assms show ?thesis by (auto simp: asr_update_def asr_ok_def split: if_splits option.splits)
qed

lemma timer_cb_ok:
  assumes "asr_ok s"
  shows "\<exists>c s'. timer_cb s = Some (c, s') \<and> asr_ok s' \<and> \<not> ar_wake_update s' \<and> (ar_show s' \<longleftrightarrow> ar_wakeup s)"
  using assms by (auto simp: timer_cb_def asr_ok_def Let_def rd_def answer_txt_def)

datatype asr_event = Recognised int | Tick

fun asr_run :: "asr_event list \<Rightarrow> asr \<Rightarrow> (int list \<times> asr) option" where
  "asr_run [] s = Some ([], s)"
| "asr_run (Recognised k # es) s =
     (case asr_update k s of
        None \<Rightarrow> None
      | Some (c, s1) \<Rightarrow> map_option (\<lambda>(d, s2). (c @ d, s2)) (asr_run es s1))"
| "asr_run (Tick # es) s = (case timer_cb s of None \<Rightarrow> None | Some (_, s1) \<Rightarrow> asr_run es s1)"

lemma asr_update_None: "asr_update k s = None \<longleftrightarrow> k = 22"
  by (auto simp: asr_update_def rd_def split: option.splits)

text \<open>
  C14. However recognised commands and timer runs are interleaved, no table is read outside
  its bounds as long as the recogniser never gives the command 22, one past the last; it is the
  only number that does, and every answer queued for playback has its text and its file.
\<close>

theorem asr_tables_safe:
  "(asr_run es asr_boot = None \<longleftrightarrow> Recognised 22 \<in> set es) \<and>
   (\<forall>c s. asr_run es asr_boot = Some (c, s) \<longrightarrow>
      (\<forall>a \<in> set c. 0 \<le> a \<and> a < int (length answer_txt) \<and> doplay_turn (\<lambda>_. None) True a \<noteq> None))"
proof -
  have run: "(asr_run es s = None \<longleftrightarrow> Recognised 22 \<in> set es) \<and>
    (\<forall>c s'. asr_run es s = Some (c, s') \<longrightarrow> (\<forall>a \<in> set c. 0 \<le> a \<and> a < 7))" if "asr_ok s" for s
    using that
  proof (induction es arbitrary: s)
    case (Cons e es)
    show ?case
    proof (cases e)
      case (Recognised k)
      show ?thesis
      proof (cases "asr_update k s")
        case None
        then show ?thesis using Recognised asr_update_None [of k s] by auto
      next
        case (Some r)
        then obtain c s1 where r: "asr_update k s = Some (c, s1)" by (cases r) auto
        with asr_update_ok [OF Cons.prems r] Cons.IH [of s1] asr_update_None [of k s] Recognised
        show ?thesis by (cases "asr_run es s1") auto
      qed
    next
      case Tick
      with timer_cb_ok [OF Cons.prems] Cons.IH show ?thesis by fastforce
    qed
  qed simp
  have play: "doplay_turn (\<lambda>_. None) True a \<noteq> None" if "0 \<le> a" "a < 7" for a
    using that by (simp add: doplay_turn_def rd_def answer_pcm_def)
  show ?thesis using run [OF asr_boot_ok] play by (auto simp: answer_txt_def)
qed

lemma asr_tables_safe_witness:
  "\<exists>c s. asr_run [Recognised 0, Tick, Recognised 3, Tick] asr_boot = Some (c, s) \<and> (\<forall>a \<in> set c. a < 7)"
proof -
  let ?es = "[Recognised 0, Tick, Recognised 3, Tick]"
  obtain c s where "asr_run ?es asr_boot = Some (c, s)"
    using asr_tables_safe [of ?es] by (cases "asr_run ?es asr_boot") auto
  with asr_tables_safe [of ?es] show ?thesis by (auto simp: answer_txt_def)
qed

lemma doplay_out_of_table: "doplay_turn f p 8 = None"
  by (simp add: doplay_turn_def rd_def answer_pcm_def)

lemma silent_frames:
  assumes "0 < cp_frame_cot s" and "int k \<le> cp_frame_cot s"
  shows "fst (docap (replicate k (0, 0)) s) = (if int k = cp_frame_cot s then [-1] else []) \<and>
    cp_frame_cot (snd (docap (replicate k (0, 0)) s)) = cp_frame_cot s - int k"
  using assms
proof (induction k arbitrary: s)
  case (Suc k)
  let ?n = "cp_frame_cot s - 1"
  show ?case
  proof (cases "?n = 0")
    case True
    with Suc.prems show ?thesis
      by (simp add: docap_frame_def docap_wake_def docap_count_def Let_def)
  next
    case False
    let ?s = "s\<lparr>cp_wakeup_status := 0, cp_frame_cot := ?n\<rparr>"
    have "docap_frame (0, 0) s = ([], ?s)"
      using False Suc.prems by (simp add: docap_frame_def docap_wake_def docap_count_def Let_def)
    moreover have "0 < cp_frame_cot ?s" "int k \<le> cp_frame_cot ?s" using False Suc.prems by auto
    note Suc.IH [OF this]
    ultimately show ?thesis by (auto simp: Let_def split: prod.splits)
  qed
qed simp

lemma asleep_frames:
  assumes "cp_frame_cot s = 0" and "\<forall>(st, cmd) \<in> set fs. \<not> (st AND 0xfff \<ge> 1)"
  shows "fst (docap fs s) = [] \<and> cp_frame_cot (snd (docap fs s)) = 0"
  using assms
proof (induction fs arbitrary: s)
  case (Cons f fs)
  obtain st cmd where f: "f = (st, cmd)" by (cases f)
  let ?s = "s\<lparr>cp_wakeup_status := st\<rparr>"
  have "docap_frame f s = ([], ?s)"
    using Cons.prems by (simp add: f docap_frame_def docap_wake_def docap_count_def)
  moreover have "cp_frame_cot ?s = 0" using Cons.prems(1) by simp
  ultimately show ?case using Cons.IH [of ?s] Cons.prems(2) by (auto simp: Let_def split: prod.splits)
qed simp

text \<open>
  After a wake-up the recogniser listens for exactly 375 frames, the frame of the wake-up
  included, and after a command for exactly 500 more; if they stay silent the last of them, and
  no other, reports sleep, and from then on nothing is reported, commands included, until the
  next wake-up.
\<close>

theorem docap_listening_window:
  assumes "status AND 0xfff \<ge> 1" and "cmd \<noteq> 0" and "\<forall>(st, c) \<in> set fs. \<not> (st AND 0xfff \<ge> 1)"
  shows "fst (docap ((status, 0) # replicate 374 (0, 0) @ fs) s) = [0, -1] \<and>
    fst (docap ((status, 0) # (0, cmd) # replicate 500 (0, 0) @ fs) s) = [0, cmd, -1]"
proof -
  have app: "docap (fs @ gs) s = (let (c, s1) = docap fs s; (d, s2) = docap gs s1 in (c @ d, s2))" for fs gs s
    by (induction fs arbitrary: s) (auto simp: Let_def split: prod.splits)
  let ?w = "push_bit 11 (drop_bit 11 status)"
  let ?s1 = "s\<lparr>cp_frame_cot := 374, cp_num_wakeup := cp_num_wakeup s + 1, cp_wakeup_status := ?w\<rparr>"
  let ?s2 = "?s1\<lparr>cp_frame_cot := 500, cp_wakeup_status := 0\<rparr>"
  have f1: "docap_frame (status, 0) s = ([0], ?s1)"
    using assms(1) by (simp add: docap_frame_def docap_wake_def docap_count_def Let_def)
  have f2: "docap_frame (0, cmd) ?s1 = ([cmd], ?s2)"
    using assms(2) by (simp add: docap_frame_def docap_wake_def docap_count_def Let_def)
  have a: "fst (docap (replicate 374 (0, 0)) ?s1) = [-1]" "cp_frame_cot (snd (docap (replicate 374 (0, 0)) ?s1)) = 0"
    using silent_frames [of ?s1 374] by simp_all
  have b: "fst (docap (replicate 500 (0, 0)) ?s2) = [-1]" "cp_frame_cot (snd (docap (replicate 500 (0, 0)) ?s2)) = 0"
    using silent_frames [of ?s2 500] by simp_all
  have r1: "fst (docap (replicate 374 (0, 0) @ fs) ?s1) = [-1]"
    using a asleep_frames [OF a(2) assms(3)] by (simp add: app Let_def case_prod_beta)
  have r2: "fst (docap (replicate 500 (0, 0) @ fs) ?s2) = [-1]"
    using b asleep_frames [OF b(2) assms(3)] by (simp add: app Let_def case_prod_beta)
  show ?thesis using r1 r2 by (simp add: f1 f2 Let_def case_prod_beta del: replicate.simps)
qed

lemma docap_listening_window_witness:
  "fst (docap ((1, 0) # (0, 5) # replicate 500 (0, 0) @ [(0, 7)]) capture_boot) = [0, 5, -1]"
  using docap_listening_window [of 1 5 "[(0, 7)]" capture_boot] by simp

text \<open>A command within 20 frames of the last is not reported again, but prolongs the window.\<close>

lemma docap_debounce:
  assumes "480 < cp_frame_cot s" and "c \<noteq> 0"
  shows "docap_count c s = ([], s\<lparr>cp_frame_cot := 500\<rparr>)"
  using assms by (simp add: docap_count_def Let_def)

lemma answer_frames_length: "\<forall>f \<in> set (answer_frames bs). length f = 1024"
  by (induction bs rule: answer_frames.induct) auto

text \<open>A second start without a stop leaks the first pipe and its two threads.\<close>

lemma asr_audio_restart:
  "asr_audio_deinit (asr_audio_init 0 (asr_audio_init 0 \<lparr>aa_running = False, aa_pipes = 0, aa_threads = 0\<rparr>)) =
     ([2147483647], \<lparr>aa_running = False, aa_pipes = 1, aa_threads = 2\<rparr>)"
  by (simp add: asr_audio_init_def asr_audio_deinit_def)

end
