(* ===== verification/Rkadk.thy ===== *)
theory Rkadk
  imports RK_Prelude
begin

text \<open>
  What the video player and the monitor page share of the RKADK player: its events and states
  as the sources use them, the calls they make, and the frame description both fill in
  (\<open>param_init\<close>). The player itself is not part of the repository: its return values are
  parameters and its events come at any time.
\<close>

datatype player_event =
    EV_STATE_CHANGED | EV_EOF | EV_SOF | EV_SEEK_END | EV_ERROR | EV_PREPARED | EV_PLAY | EV_PAUSED
  | EV_STOPPED | EV_OTHER

datatype player_call =
    Pl_sys_init | Pl_param_init | Pl_create | Pl_destroy | Pl_set_source string | Pl_prepare | Pl_play
  | Pl_pause | Pl_stop | Pl_flush

datatype vo_format = RGB565 | RGB888 | NV12

record frm_info =
  fi_x :: int
  fi_y :: int
  fi_disp_w :: int
  fi_disp_h :: int
  fi_img_w :: int
  fi_img_h :: int
  fi_buf_len :: int
  fi_format :: vo_format
  fi_layer :: int
  fi_channel :: int
  fi_dev :: int
  fi_rga :: bool
  fi_border :: int
  fi_frame_rate :: int
  fi_pix_clock :: int
  fi_timing :: "int list"

text \<open>
  The part of \<open>param_init\<close> that the two pages have in common: the output of the RK3506 with
  its two colour depths and of the other chips, and the timing.
\<close>

definition vo_params :: "bool \<Rightarrow> int \<Rightarrow> frm_info" where
  "vo_params rk3506 depth =
     \<lparr>fi_x = 0, fi_y = 0, fi_disp_w = 0, fi_disp_h = 0, fi_img_w = 0, fi_img_h = 0, fi_buf_len = 0,
      fi_format = (if rk3506 then if depth = 16 then RGB565 else RGB888 else NV12),
      fi_layer = (if rk3506 then -1 else 1),
      fi_channel = (if rk3506 then 1 else 0),
      fi_dev = (if rk3506 then -1 else 0),
      fi_rga = rk3506,
      fi_border = 0x0000FA, fi_frame_rate = 30, fi_pix_clock = 65000,
      fi_timing = [1200, 24, 240, 136, 0, 1200, 200, 194, 6]\<rparr>"

text \<open>How many players exist after a sequence of calls.\<close>

fun alive :: "player_call list \<Rightarrow> int \<Rightarrow> int" where
  "alive [] n = n"
| "alive (c # cs) n =
     alive cs (case c of Pl_create \<Rightarrow> n + 1 | Pl_destroy \<Rightarrow> (if 0 < n then n - 1 else n) | _ \<Rightarrow> n)"

lemma alive_append [simp]: "alive (cs @ ds) n = alive ds (alive cs n)"
  by (induction cs arbitrary: n) auto

text \<open>Every operation on the player finds one, when \<open>n\<close> exist before the calls.\<close>

definition on_player :: "player_call \<Rightarrow> bool" where
  "on_player c = (case c of Pl_set_source _ \<Rightarrow> True | Pl_prepare \<Rightarrow> True | Pl_play \<Rightarrow> True | Pl_pause \<Rightarrow> True
     | Pl_stop \<Rightarrow> True | _ \<Rightarrow> False)"

fun live_use :: "player_call list \<Rightarrow> int \<Rightarrow> bool" where
  "live_use [] n = True"
| "live_use (c # cs) n = ((on_player c \<longrightarrow> 0 < n) \<and> live_use cs (alive [c] n))"

lemma live_use_append [simp]: "live_use (cs @ ds) n = (live_use cs n \<and> live_use ds (alive cs n))"
  by (induction cs arbitrary: n) (simp_all add: on_player_def)

end
