(* ===== verification/Player_UI.thy ===== *)
theory Player_UI
  imports Rkadk
begin

text \<open>
  \<open>furniture_control/player_ui.c\<close>: the video page. The state is the page's variables, the
  text of its label and the names the list's buttons own; the directory is a parameter.
\<close>

subsection \<open>File names\<close>

text \<open>\<open>strlwr\<close>\<close>

definition lower :: "char \<Rightarrow> char" where
  "lower c = (let k = of_char c :: nat in if 65 \<le> k \<and> k \<le> 90 then char_of (k + 32) else c)"

definition strlwr :: "string \<Rightarrow> string" where
  "strlwr s = map lower s"

text \<open>
  \<open>strrstr\<close>: the pointer \<open>p\<close> walks down from the end; the result is the offset of the match.
\<close>

fun strrstr_from :: "nat \<Rightarrow> string \<Rightarrow> string \<Rightarrow> nat option" where
  "strrstr_from 0 str token = None"
| "strrstr_from (Suc p) str token =
     (if strncmp_eq (drop p str) token (length token) then Some p else strrstr_from p str token)"

definition strrstr :: "string \<Rightarrow> string \<Rightarrow> nat option" where
  "strrstr str token = strrstr_from (length str) str token"

text \<open>\<open>None\<close> would be the null pointer \<open>strrstr\<close> gives for a name without a dot.\<close>

definition file_is_supported :: "string \<Rightarrow> bool option" where
  "file_is_supported filepath =
     (if \<not> strstr_b filepath ''.'' then Some False
      else case strrstr filepath ''.'' of
        None \<Rightarrow> None
      | Some p \<Rightarrow> Some (strlwr (drop (p + 1) filepath) \<in> set [''mp4'', ''mp3'']))"

subsection \<open>State\<close>

record player =
  pl_player :: bool
  pl_play_flag :: bool
  pl_play_end :: bool
  pl_label :: string
  pl_list :: "string list option"
  pl_leaked :: nat

definition player_boot :: player where
  "player_boot = \<lparr>pl_player = False, pl_play_flag = False, pl_play_end = False, pl_label = [],
     pl_list = None, pl_leaked = 0\<rparr>"

definition player_event_fn :: "player_event \<Rightarrow> player \<Rightarrow> player" where
  "player_event_fn ev s =
     (case ev of
        EV_EOF \<Rightarrow> s\<lparr>pl_play_flag := False, pl_play_end := True\<rparr>
      | EV_PREPARED \<Rightarrow> s\<lparr>pl_play_end := False, pl_play_flag := False\<rparr>
      | EV_PLAY \<Rightarrow> s\<lparr>pl_play_flag := True, pl_play_end := False\<rparr>
      | EV_PAUSED \<Rightarrow> s\<lparr>pl_play_flag := False\<rparr>
      | _ \<Rightarrow> s)"

text \<open>\<open>param_init\<close> and the fields \<open>rkadk_init\<close> adds; \<open>pct_h\<close> is \<open>RK_PCT_H\<close>.\<close>

definition player_frm :: "bool \<Rightarrow> int \<Rightarrow> (int \<Rightarrow> int) \<Rightarrow> frm_info" where
  "player_frm rk3506 depth pct_h =
     (let h = (if rk3506 then pct_h 57 else 512) in
      (vo_params rk3506 depth)\<lparr>fi_disp_w := 720, fi_disp_h := h, fi_img_w := 720, fi_img_h := h,
        fi_x := 0, fi_y := pct_h 10, fi_buf_len := 2\<rparr>)"

text \<open>\<open>made\<close>: whether \<open>RKADK_PLAYER_Create\<close> succeeds.\<close>

definition player_rkadk_init :: "bool \<Rightarrow> player \<Rightarrow> player_call list \<times> player" where
  "player_rkadk_init made s =
     ([Pl_sys_init, Pl_param_init] @ (if made then [Pl_create] else []), s\<lparr>pl_player := made\<rparr>)"

definition player_rkadk_deinit :: "player \<Rightarrow> player_call list \<times> player" where
  "player_rkadk_deinit s = ([Pl_destroy], s\<lparr>pl_player := False, pl_play_flag := False\<rparr>)"

subsection \<open>Callbacks\<close>

text \<open>Deleting the list box keeps the names its buttons own.\<close>

definition drop_list :: "nat \<Rightarrow> player \<Rightarrow> player" where
  "drop_list freed s =
     (case pl_list s of
        None \<Rightarrow> s
      | Some names \<Rightarrow> s\<lparr>pl_list := None, pl_leaked := pl_leaked s + length names - freed\<rparr>)"

definition player_btn_return_cb :: "player \<Rightarrow> player_call list \<times> player" where
  "player_btn_return_cb s =
     (let (c, s1) = player_rkadk_deinit (drop_list 0 s) in (c, s1\<lparr>pl_play_flag := False, pl_label := []\<rparr>))"

text \<open>
  A name is clicked: \<open>path\<close> has 50 bytes, and appending the name past them is \<open>None\<close>. The
  return values of the player only change the log.
\<close>

definition video_name_callback :: "bool \<Rightarrow> string \<Rightarrow> player \<Rightarrow> (player_call list \<times> player) option" where
  "video_name_callback made file_name s =
     (let path = ''/oem/'' @ file_name in
      if 50 < length path + 1 then None
      else let s1 = drop_list 1 (s\<lparr>pl_label := path\<rparr>);
               (c1, s2) = (if pl_player s1 then player_rkadk_deinit s1 else ([], s1));
               (c2, s3) = (if \<not> pl_player s2 then player_rkadk_init made s2 else ([], s2));
               s4 = (if pl_play_flag s3 then s3\<lparr>pl_play_flag := False\<rparr> else s3)
           in Some (c1 @ c2 @ [Pl_set_source path, Pl_prepare, Pl_play], s4\<lparr>pl_play_end := False\<rparr>))"

text \<open>
  The loop over the directory: \<open>(regular, name)\<close> entries, at most ten buttons; \<open>count\<close> is
  \<open>file_count\<close>.
\<close>

fun list_files :: "nat \<Rightarrow> (bool \<times> string) list \<Rightarrow> string list option" where
  "list_files count [] = Some []"
| "list_files count ((reg, name) # es) =
     (if \<not> reg then list_files count es
      else case file_is_supported name of
        None \<Rightarrow> None
      | Some False \<Rightarrow> list_files count es
      | Some True \<Rightarrow>
          if count + 1 \<ge> 10 then Some [name] else map_option ((#) name) (list_files (count + 1) es))"

definition player_list_button_callback ::
    "(bool \<times> string) list option \<Rightarrow> player \<Rightarrow> (player_call list \<times> player) option" where
  "player_list_button_callback dir s =
     (case pl_list s of
        None \<Rightarrow>
          (case dir of
             None \<Rightarrow> Some ([], s)
           | Some es \<Rightarrow> map_option (\<lambda>names. ([], s\<lparr>pl_list := Some names\<rparr>)) (list_files 0 es))
      | Some _ \<Rightarrow> Some ((if \<not> pl_play_flag s then [Pl_flush] else []), drop_list 0 s))"

definition player_start_button_callback :: "player \<Rightarrow> player_call list \<times> player" where
  "player_start_button_callback s =
     (if \<not> strncmp_eq (pl_label s) ''/oem/'' 5 then ([], s)
      else if pl_play_flag s \<or> pl_play_end s then
        ([Pl_stop, Pl_set_source (pl_label s), Pl_prepare, Pl_play], s\<lparr>pl_play_end := False\<rparr>)
      else ([Pl_play], s))"

definition player_stop_button_callback :: "player \<Rightarrow> player_call list \<times> player" where
  "player_stop_button_callback s = (if \<not> pl_play_flag s then ([], s) else ([Pl_pause], s))"

subsection \<open>The page\<close>

text \<open>
  What can happen to the page: an event of its player, while it has one; the return button; a
  click on a name, which is in the list; the three buttons.
\<close>

datatype player_op =
    PEvent player_event | PReturn | PName bool string | PList "(bool \<times> string) list option"
  | PStart | PStop

definition player_step :: "player_op \<Rightarrow> player \<Rightarrow> (player_call list \<times> player) option" where
  "player_step op s =
     (case op of
        PEvent ev \<Rightarrow> Some ([], if pl_player s then player_event_fn ev s else s)
      | PReturn \<Rightarrow> Some (player_btn_return_cb s)
      | PName made name \<Rightarrow>
          (case pl_list s of
             None \<Rightarrow> Some ([], s)
           | Some names \<Rightarrow>
               if name \<in> set names then video_name_callback made name s else Some ([], s))
      | PList dir \<Rightarrow> player_list_button_callback dir s
      | PStart \<Rightarrow> Some (player_start_button_callback s)
      | PStop \<Rightarrow> Some (player_stop_button_callback s))"

fun player_run :: "player_op list \<Rightarrow> player \<Rightarrow> (player_call list \<times> player) option" where
  "player_run [] s = Some ([], s)"
| "player_run (op # ops) s =
     (case player_step op s of
        None \<Rightarrow> None
      | Some (c, s1) \<Rightarrow> map_option (\<lambda>(cs, s2). (c @ cs, s2)) (player_run ops s1))"

subsection \<open>Supported files\<close>

text \<open>The searches agree with the division of the name at its last dot.\<close>

lemma strrstr_from_Some:
  "strrstr_from n str ''.'' = Some p \<longleftrightarrow>
     p < n \<and> p < length str \<and> str ! p = CHR ''.'' \<and> (\<forall>q < n. p < q \<longrightarrow> q < length str \<longrightarrow> str ! q \<noteq> CHR ''.'')"
proof (induction n)
  case (Suc n)
  have at: "strncmp_eq (drop n str) ''.'' (length ''.'') \<longleftrightarrow> n < length str \<and> str ! n = CHR ''.''"
  proof (cases "n < length str")
    case True
    then show ?thesis by (simp add: strncmp_eq_def Cons_nth_drop_Suc [symmetric])
  qed (simp add: strncmp_eq_def)
  show ?case
  proof (cases "n < length str \<and> str ! n = CHR ''.''")
    case True
    with at show ?thesis by (auto simp: less_Suc_eq)
  next
    case False
    with at Suc.IH show ?thesis by (auto simp: less_Suc_eq)
  qed
qed simp

lemma last_dot:
  assumes "CHR ''.'' \<notin> set ext"
  shows "strrstr (base @ ''.'' @ ext) ''.'' = Some (length base)"
proof -
  have "(base @ ''.'' @ ext) ! q \<noteq> CHR ''.''"
    if "length base < q" "q < length (base @ ''.'' @ ext)" for q
  proof -
    from that obtain k where k: "q = Suc (length base + k)" "k < length ext"
      by (auto dest: less_imp_Suc_add)
    with assms have "ext ! k \<noteq> CHR ''.''" by (metis nth_mem)
    with k show ?thesis by (simp add: nth_append)
  qed
  then show ?thesis unfolding strrstr_def strrstr_from_Some by (simp add: nth_append)
qed

text \<open>The part of a name after its last dot, in lower case.\<close>

definition has_suffix :: "string set \<Rightarrow> string \<Rightarrow> bool" where
  "has_suffix E name = (\<exists>base ext. name = base @ ''.'' @ ext \<and> CHR ''.'' \<notin> set ext \<and> strlwr ext \<in> E)"

lemma file_is_supported_split:
  assumes "CHR ''.'' \<notin> set ext"
  shows "file_is_supported (base @ ''.'' @ ext) = Some (strlwr ext \<in> {''mp4'', ''mp3''})"
  using last_dot [OF assms, of base] by (auto simp: file_is_supported_def strstr_b_iff)

lemma file_is_supported_spec:
  "file_is_supported name = Some (has_suffix {''mp4'', ''mp3''} name)"
proof (cases "CHR ''.'' \<in> set name")
  case True
  then obtain base ext where n: "name = base @ ''.'' @ ext" and e: "CHR ''.'' \<notin> set ext"
    by (metis append_Cons append_Nil split_list_last)
  have "base' = base \<and> ext' = ext" if "name = base' @ ''.'' @ ext'" "CHR ''.'' \<notin> set ext'" for base' ext'
  proof -
    from last_dot [OF e, of base] last_dot [OF that(2), of base']
    have "length base' = length base" unfolding n [symmetric] that(1) [symmetric] by simp
    moreover from n that(1) have "base' @ ''.'' @ ext' = base @ ''.'' @ ext" by (rule trans [OF sym, rotated])
    ultimately show ?thesis by simp
  qed
  then have "has_suffix {''mp4'', ''mp3''} name = (strlwr ext \<in> {''mp4'', ''mp3''})"
    unfolding has_suffix_def using n e by blast
  with n file_is_supported_split [OF e] show ?thesis by simp
next
  case False
  then have "\<not> strstr_b name ''.''" and "\<not> has_suffix {''mp4'', ''mp3''} name"
    by (auto simp: strstr_b_iff has_suffix_def)
  then show ?thesis by (simp add: file_is_supported_def)
qed

lemma list_files_from:
  assumes "count < 10"
  shows "list_files count es = Some (take (10 - count)
    (map snd (filter (\<lambda>(reg, name). reg \<and> has_suffix {''mp4'', ''mp3''} name) es)))"
  using assms
proof (induction es arbitrary: count)
  case (Cons e es)
  obtain reg name where e: "e = (reg, name)" by force
  obtain m where m: "10 - count = Suc m" using Cons.prems by (cases "10 - count") auto
  show ?case
  proof (cases "reg \<and> has_suffix {''mp4'', ''mp3''} name")
    case True
    show ?thesis
    proof (cases "count + 1 \<ge> 10")
      case False
      then have "10 - (count + 1) = m" using m by simp
      with Cons.IH [of "count + 1"] False True e m show ?thesis by (simp add: file_is_supported_spec)
    next
      case end_: True
      then have "m = 0" using m by simp
      with end_ True e m show ?thesis by (simp add: file_is_supported_spec)
    qed
  next
    case False
    with Cons e show ?thesis by (auto simp: file_is_supported_spec split: bool.splits)
  qed
qed simp

text \<open>
  C39. The list offers the first ten regular files of the directory, in its order, whose names
  end, after their last dot and in either case of letters, in \<open>mp4\<close> or \<open>mp3\<close>; no name makes
  the search for the dot read through a null pointer.
\<close>

theorem player_lists_media_files:
  "list_files 0 es = Some (take 10
     (map snd (filter (\<lambda>(reg, name). reg \<and> has_suffix {''mp4'', ''mp3''} name) es)))"
  by (subst list_files_from) simp_all

subsection \<open>One player at a time\<close>

definition player_inv :: "player \<Rightarrow> bool" where
  "player_inv s = (\<not> (pl_play_flag s \<and> pl_play_end s) \<and> (pl_play_flag s \<longrightarrow> pl_player s))"

definition op_ok :: "player_op \<Rightarrow> bool" where
  "op_ok op = (case op of PName made name \<Rightarrow> made \<and> length name \<le> 44 | _ \<Rightarrow> True)"

text \<open>A name in the label says that a player was made.\<close>

definition label_inv :: "player \<Rightarrow> bool" where
  "label_inv s = (strncmp_eq (pl_label s) ''/oem/'' 5 \<longrightarrow> pl_player s)"

lemma video_name_fits: "video_name_callback made name s \<noteq> None \<longleftrightarrow> length name \<le> 44"
  by (simp add: video_name_callback_def Let_def split_beta)

lemma drop_list_simps [simp]:
  "pl_player (drop_list n s) = pl_player s" "pl_play_flag (drop_list n s) = pl_play_flag s"
  "pl_play_end (drop_list n s) = pl_play_end s" "pl_label (drop_list n s) = pl_label s"
  by (simp_all add: drop_list_def split: option.split)

definition count_of :: "player \<Rightarrow> int" where
  "count_of s = (if pl_player s then 1 else 0)"

definition step_ok :: "player \<Rightarrow> (player_call list \<times> player) option \<Rightarrow> bool" where
  "step_ok s r = (case r of None \<Rightarrow> False | Some (c, s') \<Rightarrow>
     player_inv s' \<and> label_inv s' \<and> alive c (count_of s) = count_of s' \<and> live_use c (count_of s))"

lemmas step_defs = player_step_def step_ok_def player_inv_def label_inv_def count_of_def on_player_def

lemma video_name_step:
  assumes "length name \<le> 44"
  shows "step_ok s (video_name_callback True name s)"
  using assms by (simp add: step_defs video_name_callback_def player_rkadk_deinit_def player_rkadk_init_def Let_def)

lemma player_step_ok:
  assumes inv: "player_inv s" "label_inv s" and op: "op_ok op"
  shows "step_ok s (player_step op s)"
proof (cases op)
  case (PEvent ev)
  with inv show ?thesis by (cases ev) (auto simp: step_defs player_event_fn_def)
next
  case PReturn
  then show ?thesis
    by (simp add: step_defs player_btn_return_cb_def player_rkadk_deinit_def strncmp_eq_def)
next
  case (PName made name)
  with op have "made" "length name \<le> 44" by (simp_all add: op_ok_def)
  moreover from inv have "step_ok s (Some ([], s))" by (simp add: step_ok_def)
  ultimately show ?thesis using PName video_name_step
    by (simp add: player_step_def split: option.split)
next
  case (PList dir)
  have "list_files 0 es \<noteq> None" for es by (simp add: list_files_from)
  with PList inv show ?thesis
    by (auto simp: step_defs player_list_button_callback_def list_files_from split: option.split)
next
  case PStart
  with inv show ?thesis by (auto simp: step_defs player_start_button_callback_def)
next
  case PStop
  with inv show ?thesis by (auto simp: step_defs player_stop_button_callback_def)
qed

lemma player_run_ok:
  assumes "player_inv s" "label_inv s" "\<forall>op \<in> set ops. op_ok op"
  shows "\<exists>c s'. player_run ops s = Some (c, s') \<and> player_inv s' \<and> alive c (count_of s) = count_of s'
    \<and> live_use c (count_of s)"
  using assms
proof (induction ops arbitrary: s)
  case (Cons op ops)
  then obtain c s1 where s1: "player_step op s = Some (c, s1)" "player_inv s1" "label_inv s1"
      "alive c (count_of s) = count_of s1" "live_use c (count_of s)"
    using player_step_ok [of s op] by (auto simp: step_ok_def split: option.splits)
  with Cons.IH [OF s1(2,3)] Cons.prems(3) show ?case by auto
qed simp



text \<open>
  A name of 45 characters overruns \<open>path\<close>; of ten names listed nine are never freed when one
  is chosen.
\<close>

lemma long_name_overruns: "video_name_callback made (replicate 41 CHR ''a'' @ ''.mp4'') s = None"
  using video_name_fits [of made "replicate 41 CHR ''a'' @ ''.mp4''" s] by (auto simp del: not_None_eq)

lemma names_are_leaked:
  assumes "pl_list s = Some names" "names \<noteq> []" "video_name_callback made name s = Some (c, s')"
  shows "pl_leaked s' + 1 = pl_leaked s + length names"
  using assms by (cases names) (auto simp: video_name_callback_def drop_list_def Let_def
      player_rkadk_deinit_def player_rkadk_init_def split: if_splits)

end
