(* ===== verification/Monitor_UI.thy ===== *)
theory Monitor_UI
  imports Rkadk C_Float
begin

text \<open>
  \<open>intercom_homepage/video_monitor/ui_monitor.c\<close>: the monitor page. It plays a stream in a
  thread (\<open>rtsp_play\<close>); the state is shared by the user interface, that thread and the events
  of the player, and the model is their interleaving: \<open>mo_worker\<close> is where the thread is,
  \<open>mo_ui\<close> where the user interface waits for it.
\<close>

subsection \<open>State\<close>

datatype rk_state = ST_IDLE | ST_PLAY | ST_PAUSE | ST_STOP | ST_BUTT

datatype scale = SCALE_4_3 | SCALE_16_9 | SCALE_FULL

datatype worker = W_none | W_start | W_loop | W_done

text \<open>What follows \<open>stop_player\<close> in the callback that called it.\<close>

datatype after = A_stop | A_start | A_return

datatype ui_pc = U_idle | U_stopping after | U_joining after | U_join_null

datatype text_target = K_addr | K_float

record geom =
  ge_x :: int
  ge_y :: int
  ge_w :: int
  ge_h :: int

record monitor =
  mo_page :: bool
  mo_bg_hidden :: bool
  mo_timer :: bool
  mo_player :: bool
  mo_current :: rk_state
  mo_desired :: rk_state
  mo_thread :: bool
  mo_worker :: worker
  mo_ui :: ui_pc
  mo_audio :: bool
  mo_video :: bool
  mo_scale :: scale
  mo_checks :: "scale set"
  mo_geom :: geom
  mo_addr :: string
  mo_float :: "string option"
  mo_kb :: "text_target option"
  mo_rtsp :: string
  mo_overrun :: bool
  mo_setting :: bool
  mo_last :: rk_state
  mo_pause_label :: bool

definition monitor_boot :: monitor where
  "monitor_boot =
     \<lparr>mo_page = False, mo_bg_hidden = False, mo_timer = False, mo_player = False,
      mo_current = ST_BUTT, mo_desired = ST_BUTT, mo_thread = False, mo_worker = W_none,
      mo_ui = U_idle, mo_audio = True, mo_video = True, mo_scale = SCALE_FULL, mo_checks = {},
      mo_geom = \<lparr>ge_x = 0, ge_y = 0, ge_w = 0, ge_h = 0\<rparr>, mo_addr = [], mo_float = None,
      mo_kb = None, mo_rtsp = [], mo_overrun = False, mo_setting = False, mo_last = ST_BUTT,
      mo_pause_label = False\<rparr>"

subsection \<open>The area of the video\<close>

text \<open>
  \<open>a * k / b < c\<close> in doubles; a zero divisor gives an infinity of the sign of \<open>a\<close>, or a NaN.
\<close>

definition ratio_less :: "int \<Rightarrow> int \<Rightarrow> int \<Rightarrow> int \<Rightarrow> bool" where
  "ratio_less a k b c =
     (if b = 0 then a * k < 0 else fl 53 (fl 53 (of_int (a * k)) / of_int b) < of_int c)"

text \<open>\<open>a * k / b\<close> in doubles, converted to int, for a constant \<open>b\<close>\<close>

definition scaled :: "int \<Rightarrow> int \<Rightarrow> int \<Rightarrow> int" where
  "scaled a k b = c_trunc (fl 53 (fl 53 (of_int (a * k)) / of_int b))"

text \<open>
  \<open>calc_video_area\<close>, from the left and top of the area between the header and the controls and
  the width and height LVGL gives for it. The result is the frame the player gets.
\<close>

definition video_size :: "bool \<Rightarrow> scale \<Rightarrow> int \<Rightarrow> int \<Rightarrow> int \<times> int" where
  "video_size rk3506 mode cont_w cont_h =
     (case mode of
        SCALE_FULL \<Rightarrow> if rk3506 then (cont_w, cont_h) else (720, 512)
      | SCALE_4_3 \<Rightarrow>
          if ratio_less cont_w 3 cont_h 4 then (cont_w, scaled cont_w 3 4)
          else (scaled cont_h 4 3, cont_h)
      | SCALE_16_9 \<Rightarrow>
          if ratio_less cont_w 9 cont_h 16 then (cont_w, scaled cont_w 9 16)
          else (scaled cont_h 16 9, cont_h))"

definition calc_video_area :: "bool \<Rightarrow> scale \<Rightarrow> int \<Rightarrow> int \<Rightarrow> int \<Rightarrow> int \<Rightarrow> geom" where
  "calc_video_area rk3506 mode x1 y1 cont_w cont_h =
     (let (img_w, img_h) = video_size rk3506 mode cont_w cont_h in
      \<lparr>ge_x = x1 + c_div (cont_w - img_w) 2, ge_y = y1 + c_div (cont_h - img_h) 2,
       ge_w = img_w, ge_h = img_h\<rparr>)"

text \<open>\<open>param_init\<close>; the offsets are stored in unsigned fields.\<close>

definition monitor_frm :: "bool \<Rightarrow> int \<Rightarrow> geom \<Rightarrow> frm_info" where
  "monitor_frm rk3506 depth g =
     (vo_params rk3506 depth)\<lparr>fi_x := ge_x g mod 2 ^ 32, fi_y := ge_y g mod 2 ^ 32,
       fi_disp_w := ge_w g mod 2 ^ 32, fi_disp_h := ge_h g mod 2 ^ 32,
       fi_img_w := ge_w g mod 2 ^ 32, fi_img_h := ge_h g mod 2 ^ 32, fi_buf_len := 2\<rparr>"

subsection \<open>The player\<close>

definition monitor_event_fn :: "player_event \<Rightarrow> monitor \<Rightarrow> monitor" where
  "monitor_event_fn ev s =
     (case ev of
        EV_EOF \<Rightarrow>
          s\<lparr>mo_current := ST_STOP, mo_desired := if mo_desired s = ST_STOP then ST_BUTT else mo_desired s\<rparr>
      | EV_ERROR \<Rightarrow> s\<lparr>mo_current := ST_STOP, mo_desired := ST_BUTT\<rparr>
      | EV_PLAY \<Rightarrow>
          s\<lparr>mo_current := ST_PLAY, mo_desired := if mo_desired s = ST_PLAY then ST_BUTT else mo_desired s\<rparr>
      | EV_PAUSED \<Rightarrow>
          s\<lparr>mo_current := ST_PAUSE, mo_desired := if mo_desired s = ST_PAUSE then ST_BUTT else mo_desired s\<rparr>
      | EV_STOPPED \<Rightarrow> s\<lparr>mo_current := ST_STOP, mo_desired := ST_BUTT\<rparr>
      | _ \<Rightarrow> s)"

definition monitor_rkadk_init :: "bool \<Rightarrow> monitor \<Rightarrow> player_call list \<times> monitor" where
  "monitor_rkadk_init made s =
     ([Pl_sys_init, Pl_param_init, Pl_flush] @ (if made then [Pl_create] else []), s\<lparr>mo_player := made\<rparr>)"

definition monitor_rkadk_deinit :: "monitor \<Rightarrow> player_call list \<times> monitor" where
  "monitor_rkadk_deinit s = ([Pl_destroy], s\<lparr>mo_player := False\<rparr>)"

text \<open>
  \<open>rtsp_play\<close> up to its loop, by how far it comes; without a player setting the source fails.
  The address has 128 bytes. A return before the loop leaves \<open>video_thread\<close> set.
\<close>

datatype play_result = No_player | No_source | Not_prepared | Playing

definition rtsp_play_start :: "play_result \<Rightarrow> monitor \<Rightarrow> player_call list \<times> monitor" where
  "rtsp_play_start r s =
     (let (c1, s1) = (if mo_player s then let (c, s') = monitor_rkadk_deinit s in (Pl_stop # c, s')
                      else ([], s));
          (c2, s2) = (if \<not> mo_player s1 then monitor_rkadk_init (r \<noteq> No_player) s1 else ([], s1));
          s3 = s2\<lparr>mo_rtsp := mo_addr s, mo_overrun := mo_overrun s \<or> 128 < length (mo_addr s) + 1\<rparr>;
          src = Pl_set_source (mo_addr s)
      in case r of
           No_player \<Rightarrow> (c1 @ c2 @ [src], s3\<lparr>mo_worker := W_done\<rparr>)
         | No_source \<Rightarrow> (c1 @ c2 @ [src], s3\<lparr>mo_worker := W_done\<rparr>)
         | Not_prepared \<Rightarrow> (c1 @ c2 @ [src, Pl_prepare], s3\<lparr>mo_worker := W_done\<rparr>)
         | Playing \<Rightarrow>
             (c1 @ c2 @ [src, Pl_prepare, Pl_play], s3\<lparr>mo_desired := ST_PLAY, mo_worker := W_loop\<rparr>))"

text \<open>The loop ends when the state is STOP.\<close>

definition rtsp_play_end :: "monitor \<Rightarrow> monitor" where
  "rtsp_play_end s = s\<lparr>mo_thread := False, mo_worker := W_none\<rparr>"

subsection \<open>Callbacks\<close>

text \<open>What the callbacks do once the thread is gone.\<close>

definition after_stop :: "after \<Rightarrow> monitor \<Rightarrow> player_call list \<times> monitor" where
  "after_stop k s =
     (case k of
        A_stop \<Rightarrow> ([], s\<lparr>mo_ui := U_idle\<rparr>)
      | A_start \<Rightarrow>
          ([], s\<lparr>mo_ui := U_idle, mo_current := ST_IDLE, mo_thread := True, mo_worker := W_start\<rparr>)
      | A_return \<Rightarrow>
          (let (c, s1) = monitor_rkadk_deinit s in
           (c, s1\<lparr>mo_ui := U_idle, mo_kb := None, mo_timer := False, mo_page := False,
                  mo_bg_hidden := False\<rparr>)))"

text \<open>
  \<open>stop_player\<close>: the player is stopped, then \<open>video_thread\<close> is read again for the join; by
  then the thread may have set it to 0.
\<close>

definition stop_player :: "after \<Rightarrow> monitor \<Rightarrow> player_call list \<times> monitor" where
  "stop_player k s =
     (if mo_thread s then ([Pl_stop], s\<lparr>mo_ui := U_stopping k\<rparr>) else after_stop k s)"

definition stop_player_join :: "after \<Rightarrow> monitor \<Rightarrow> monitor" where
  "stop_player_join k s = s\<lparr>mo_ui := if mo_thread s then U_joining k else U_join_null\<rparr>"

definition stop_player_joined :: "after \<Rightarrow> monitor \<Rightarrow> player_call list \<times> monitor" where
  "stop_player_joined k s = after_stop k (s\<lparr>mo_thread := False, mo_worker := W_none\<rparr>)"

text \<open>\<open>net\<close>: the answer of \<open>is_network_enable\<close>.\<close>

definition rtsp_play_start_callback :: "bool \<Rightarrow> monitor \<Rightarrow> player_call list \<times> monitor" where
  "rtsp_play_start_callback net s =
     (if net then if mo_desired s \<noteq> ST_BUTT then ([], s) else stop_player A_start s else ([], s))"

definition rtsp_play_pause_callback :: "bool \<Rightarrow> monitor \<Rightarrow> player_call list \<times> monitor" where
  "rtsp_play_pause_callback net s =
     (if \<not> mo_thread s then rtsp_play_start_callback net s
      else if mo_current s = ST_PLAY then
        if mo_desired s \<noteq> ST_PAUSE then ([Pl_pause], s\<lparr>mo_desired := ST_PAUSE\<rparr>) else ([], s)
      else
        if mo_desired s \<noteq> ST_PLAY then ([Pl_play], s\<lparr>mo_desired := ST_PLAY\<rparr>) else ([], s))"

definition kb_cb :: "monitor \<Rightarrow> player_call list \<times> monitor" where
  "kb_cb s =
     ([Pl_flush], s\<lparr>mo_addr := (case mo_float s of Some t \<Rightarrow> t | None \<Rightarrow> mo_addr s), mo_float := None,
                   mo_kb := None\<rparr>)"

text \<open>\<open>covered\<close>: whether the keyboard covers the address.\<close>

definition rtsp_addr_set :: "bool \<Rightarrow> monitor \<Rightarrow> monitor" where
  "rtsp_addr_set covered s =
     (if mo_kb s \<noteq> None then s
      else if covered then s\<lparr>mo_float := Some (mo_addr s), mo_kb := Some K_float\<rparr>
      else s\<lparr>mo_kb := Some K_addr\<rparr>)"

text \<open>The keyboard edits the text it was given.\<close>

definition type_text :: "string \<Rightarrow> monitor \<Rightarrow> monitor" where
  "type_text t s =
     (case mo_kb s of
        None \<Rightarrow> s
      | Some K_addr \<Rightarrow> s\<lparr>mo_addr := t\<rparr>
      | Some K_float \<Rightarrow> s\<lparr>mo_float := Some t\<rparr>)"

definition rtsp_setting_callback :: "monitor \<Rightarrow> player_call list \<times> monitor" where
  "rtsp_setting_callback s =
     (if \<not> mo_setting s then ([], s\<lparr>mo_setting := True\<rparr>) else ([Pl_flush], s\<lparr>mo_setting := False\<rparr>))"

text \<open>\<open>None\<close>: the box itself is clicked; \<open>Some m\<close>: the check box of the ratio \<open>m\<close>.\<close>

definition ui_ratio_cb :: "bool \<Rightarrow> int \<Rightarrow> int \<Rightarrow> int \<Rightarrow> int \<Rightarrow> scale option \<Rightarrow> monitor \<Rightarrow> monitor" where
  "ui_ratio_cb rk3506 x1 y1 w h act s =
     (case act of
        None \<Rightarrow> s
      | Some m \<Rightarrow>
          s\<lparr>mo_checks := insert m (mo_checks s - {mo_scale s}), mo_scale := m,
            mo_geom := calc_video_area rk3506 m x1 y1 w h\<rparr>)"

definition ui_checkbox_cb :: "bool \<Rightarrow> monitor \<Rightarrow> monitor" where
  "ui_checkbox_cb checked s = s\<lparr>mo_audio := checked\<rparr>"

definition ui_update_state :: "monitor \<Rightarrow> monitor" where
  "ui_update_state s =
     (if mo_last s \<noteq> mo_current s then s\<lparr>mo_last := mo_current s, mo_pause_label := mo_current s = ST_PLAY\<rparr>
      else s)"

definition monitor_ui_init :: "bool \<Rightarrow> int \<Rightarrow> int \<Rightarrow> int \<Rightarrow> int \<Rightarrow> monitor \<Rightarrow> player_call list \<times> monitor" where
  "monitor_ui_init rk3506 x1 y1 w h s =
     (let s1 = s\<lparr>mo_bg_hidden := True\<rparr> in
      if mo_page s1 then ([], s1)
      else ([Pl_flush],
            s1\<lparr>mo_page := True, mo_addr := ''rtsp://192.168.1.120:8554/'', mo_pause_label := False,
               mo_setting := False, mo_checks := {mo_scale s},
               mo_geom := calc_video_area rk3506 (mo_scale s) x1 y1 w h, mo_timer := True\<rparr>))"

text \<open>
  The sizes of the controls, from the width and height of the address and the bottom of the
  control box: the side of a button, the height of the box, and the width of both in percent.
\<close>

definition control_sizes :: "int \<Rightarrow> int \<Rightarrow> int \<Rightarrow> int \<Rightarrow> int \<times> int \<times> int" where
  "control_sizes addr_w addr_h btn_y2 scr_h =
     (c_div (addr_w - 30) 4, addr_h * 2, if btn_y2 > scr_h - 1 then 50 else 100)"

subsection \<open>Steps\<close>

datatype actor = By_user | By_thread | By_player

text \<open>
  While the user interface waits in \<open>stop_player\<close> no callback runs; the thread and the player go
  on. The sizes LVGL gives are any.
\<close>

inductive mon_step :: "bool \<Rightarrow> actor \<Rightarrow> monitor \<Rightarrow> player_call list \<Rightarrow> monitor \<Rightarrow> bool" for rk where
  mon_enter: "mo_ui s = U_idle \<Longrightarrow> monitor_ui_init rk x1 y1 w h s = (c, s') \<Longrightarrow> mon_step rk By_user s c s'"
| mon_start: "mo_ui s = U_idle \<Longrightarrow> mo_page s \<Longrightarrow> rtsp_play_start_callback net s = (c, s')
    \<Longrightarrow> mon_step rk By_user s c s'"
| mon_pause: "mo_ui s = U_idle \<Longrightarrow> mo_page s \<Longrightarrow> rtsp_play_pause_callback net s = (c, s')
    \<Longrightarrow> mon_step rk By_user s c s'"
| mon_stop: "mo_ui s = U_idle \<Longrightarrow> mo_page s \<Longrightarrow> stop_player A_stop s = (c, s') \<Longrightarrow> mon_step rk By_user s c s'"
| mon_return: "mo_ui s = U_idle \<Longrightarrow> mo_page s \<Longrightarrow> stop_player A_return s = (c, s') \<Longrightarrow> mon_step rk By_user s c s'"
| mon_address: "mo_ui s = U_idle \<Longrightarrow> mo_page s \<Longrightarrow> mon_step rk By_user s [] (rtsp_addr_set covered s)"
| mon_type: "mo_ui s = U_idle \<Longrightarrow> mo_page s \<Longrightarrow> mon_step rk By_user s [] (type_text t s)"
| mon_kb: "mo_ui s = U_idle \<Longrightarrow> mo_page s \<Longrightarrow> mo_kb s \<noteq> None \<Longrightarrow> kb_cb s = (c, s') \<Longrightarrow> mon_step rk By_user s c s'"
| mon_setting: "mo_ui s = U_idle \<Longrightarrow> mo_page s \<Longrightarrow> rtsp_setting_callback s = (c, s') \<Longrightarrow> mon_step rk By_user s c s'"
| mon_ratio: "mo_ui s = U_idle \<Longrightarrow> mo_page s \<Longrightarrow> mon_step rk By_user s [] (ui_ratio_cb rk x1 y1 w h act s)"
| mon_check: "mo_ui s = U_idle \<Longrightarrow> mo_page s \<Longrightarrow> mon_step rk By_user s [] (ui_checkbox_cb b s)"
| mon_tick: "mo_ui s = U_idle \<Longrightarrow> mo_timer s \<Longrightarrow> mon_step rk By_user s [] (ui_update_state s)"
| mon_join: "mo_ui s = U_stopping k \<Longrightarrow> mon_step rk By_user s [] (stop_player_join k s)"
| mon_joined: "mo_ui s = U_joining k \<Longrightarrow> mo_worker s \<in> {W_none, W_done}
    \<Longrightarrow> stop_player_joined k s = (c, s') \<Longrightarrow> mon_step rk By_user s c s'"
| mon_play: "mo_worker s = W_start \<Longrightarrow> rtsp_play_start r s = (c, s') \<Longrightarrow> mon_step rk By_thread s c s'"
| mon_end: "mo_worker s = W_loop \<Longrightarrow> mo_current s = ST_STOP \<Longrightarrow> mon_step rk By_thread s [] (rtsp_play_end s)"
| mon_event: "mo_player s \<Longrightarrow> mon_step rk By_player s [] (monitor_event_fn ev s)"

inductive mon_reach :: "bool \<Rightarrow> monitor \<Rightarrow> player_call list \<Rightarrow> bool" for rk where
  reach_boot: "mon_reach rk monitor_boot []"
| reach_step: "mon_reach rk s tr \<Longrightarrow> mon_step rk who s c s' \<Longrightarrow> mon_reach rk s' (tr @ c)"

inductive_cases mon_stepE: "mon_step rk who s c s'"

subsection \<open>The video fits between the header and the controls\<close>

lemma exact_product:
  fixes a k :: int
  assumes "0 \<le> a" "a < 2 ^ 24" "0 \<le> k" "k \<le> 16"
  shows "fl 53 (of_int (a * k)) = of_int (a * k)" "0 \<le> a * k" "a * k < 2 ^ 53"
proof -
  have "a * k \<le> 2 ^ 24 * 16" using assms by (intro mult_mono) auto
  then show *: "a * k < 2 ^ 53" by simp
  show "0 \<le> a * k" using assms by simp
  with * show "fl 53 (of_int (a * k)) = of_int (a * k)" by (intro double.rnd_int) simp
qed

text \<open>On sizes of a screen the doubles decide and divide as the integers would.\<close>

lemma scaled_exact:
  assumes "0 \<le> a" "a < 2 ^ 24" "0 \<le> k" "k \<le> 16" "0 < b"
  shows "scaled a k b = a * k div b"
proof -
  let ?q = "fl 53 (of_int (a * k) / of_int b)"
  have fq: "\<lfloor>?q\<rfloor> = a * k div b"
    by (rule double.floor_quotient [OF exact_product(2,3) [OF assms(1-4)] assms(5)])
  moreover have "0 \<le> a * k div b" using assms by (simp add: pos_imp_zdiv_nonneg_iff)
  ultimately have "0 \<le> ?q" by (metis zero_le_floor)
  with fq show ?thesis unfolding scaled_def exact_product(1) [OF assms(1-4)] c_trunc_def by simp
qed

lemma ratio_less_exact:
  assumes "0 \<le> a" "a < 2 ^ 24" "0 \<le> k" "k \<le> 16" "0 < b"
  shows "ratio_less a k b c = (a * k < c * b)"
proof -
  have "(fl 53 (of_int (a * k) / of_int b) < of_int c) = (a * k div b < c)"
    using double.floor_quotient [OF exact_product(2,3) [OF assms(1-4)] assms(5)]
    by (metis floor_less_iff)
  also have "\<dots> = (of_int (a * k) / of_int b < (of_int c :: rat))"
    using floor_less_iff [of "of_int (a * k) / of_int b :: rat" c] floor_divide_of_int_eq [of "a * k" b]
    by (metis (no_types))
  also have "\<dots> = (of_int (a * k) < (of_int c * of_int b :: rat))"
    using assms(5) by (intro pos_divide_less_eq) simp
  also have "\<dots> = (a * k < c * b)" unfolding of_int_mult [symmetric] of_int_less_iff by simp
  finally show ?thesis
    using assms(5) unfolding ratio_less_def exact_product(1) [OF assms(1-4)] by simp
qed

text \<open>The shape of a picture, up to rounding down one of its sides.\<close>

definition shaped :: "scale \<Rightarrow> int \<Rightarrow> int \<Rightarrow> bool" where
  "shaped mode w h =
     (case mode of SCALE_4_3 \<Rightarrow> \<bar>3 * w - 4 * h\<bar> < 4 | SCALE_16_9 \<Rightarrow> \<bar>9 * w - 16 * h\<bar> < 16 | SCALE_FULL \<Rightarrow> True)"

lemma video_size_exact:
  assumes "0 < w" "w < 2 ^ 24" "0 < h" "h < 2 ^ 24"
  shows "video_size rk3506 mode w h =
    (case mode of
       SCALE_FULL \<Rightarrow> if rk3506 then (w, h) else (720, 512)
     | SCALE_4_3 \<Rightarrow> if w * 3 < 4 * h then (w, w * 3 div 4) else (h * 4 div 3, h)
     | SCALE_16_9 \<Rightarrow> if w * 9 < 16 * h then (w, w * 9 div 16) else (h * 16 div 9, h))"
  using assms by (cases mode) (simp_all add: video_size_def ratio_less_exact scaled_exact)

lemma video_size_fits:
  assumes "0 < w" "w < 2 ^ 24" "0 < h" "h < 2 ^ 24" "mode \<noteq> SCALE_FULL \<or> rk3506"
    and "video_size rk3506 mode w h = (iw, ih)"
  shows "0 \<le> iw \<and> iw \<le> w \<and> 0 \<le> ih \<and> ih \<le> h \<and> (iw = w \<or> ih = h) \<and> shaped mode iw ih"
  using assms(1,3,5,6) unfolding video_size_exact [OF assms(1-4)] shaped_def
  by (cases mode) (auto split: if_splits)

text \<open>
  C26. The frame given to the player lies inside the free part of the screen, touches two
  opposite sides of it, is centred to a pixel and has the chosen shape: for 4:3 and 16:9 on
  every chip, for stretching on the RK3506.
\<close>

theorem monitor_video_fits:
  assumes "0 < w" "w < 2 ^ 24" "0 < h" "h < 2 ^ 24" "mode \<noteq> SCALE_FULL \<or> rk3506"
  shows "let g = calc_video_area rk3506 mode x1 y1 w h;
             left = ge_x g - x1; right = (x1 + w) - (ge_x g + ge_w g);
             top = ge_y g - y1; bottom = (y1 + h) - (ge_y g + ge_h g)
         in 0 \<le> left \<and> left \<le> right \<and> right \<le> left + 1 \<and> 0 \<le> top \<and> top \<le> bottom \<and> bottom \<le> top + 1
            \<and> (ge_w g = w \<or> ge_h g = h) \<and> shaped mode (ge_w g) (ge_h g)"
proof -
  obtain iw ih where v: "video_size rk3506 mode w h = (iw, ih)" by force
  note f = video_size_fits [OF assms v]
  have half: "0 \<le> c_div d 2 \<and> 2 * c_div d 2 \<le> d \<and> d \<le> 2 * c_div d 2 + 1" if "0 \<le> d" for d
    using that by simp presburger
  from f half [of "w - iw"] half [of "h - ih"] show ?thesis
    unfolding calc_video_area_def v Let_def prod.case geom.select_convs by (intro conjI) (linarith | blast)+
qed

lemma monitor_video_fits_witness:
  "let g = calc_video_area False SCALE_16_9 0 128 720 700;
       left = ge_x g - 0; right = (0 + 720) - (ge_x g + ge_w g);
       top = ge_y g - 128; bottom = (128 + 700) - (ge_y g + ge_h g)
   in 0 \<le> left \<and> left \<le> right \<and> right \<le> left + 1 \<and> 0 \<le> top \<and> top \<le> bottom \<and> bottom \<le> top + 1
      \<and> (ge_w g = 720 \<or> ge_h g = 700) \<and> shaped SCALE_16_9 (ge_w g) (ge_h g)"
  by (rule monitor_video_fits) simp_all

text \<open>
  Stretching on the other chips is 720 by 512 whatever the screen is, so a smaller screen gives
  a negative offset, which the unsigned field turns into a huge one.
\<close>

lemma full_size_wraps:
  "calc_video_area False SCALE_FULL 0 27 480 200 = \<lparr>ge_x = -120, ge_y = -129, ge_w = 720, ge_h = 512\<rparr>"
  "fi_x (monitor_frm False 32 (calc_video_area False SCALE_FULL 0 27 480 200)) = 4294967176"
  by (simp_all add: calc_video_area_def video_size_def c_div_def monitor_frm_def)

subsection \<open>One thread, one player\<close>

definition mon_inv :: "monitor \<Rightarrow> bool" where
  "mon_inv s =
     ((mo_thread s \<longleftrightarrow> mo_worker s \<noteq> W_none) \<and> (mo_worker s = W_loop \<longrightarrow> mo_player s)
      \<and> (mo_page s \<longrightarrow> mo_timer s \<and> mo_checks s = {mo_scale s})
      \<and> (\<not> mo_page s \<longrightarrow>
           \<not> mo_player s \<and> \<not> mo_thread s \<and> \<not> mo_timer s \<and> mo_kb s = None \<and> mo_ui s = U_idle))"

definition mon_count :: "monitor \<Rightarrow> int" where
  "mon_count s = (if mo_player s then 1 else 0)"

definition mon_ok :: "monitor \<Rightarrow> player_call list \<times> monitor \<Rightarrow> bool" where
  "mon_ok s r = (mon_inv (snd r) \<and> alive (fst r) (mon_count s) = mon_count (snd r))"

lemmas mon_ok_defs = mon_ok_def mon_inv_def mon_count_def

lemma after_stop_ok:
  assumes "mon_inv s" "mo_page s" "\<not> mo_thread s"
  shows "mon_ok s (after_stop k s)"
  using assms by (cases k) (simp_all add: mon_ok_defs after_stop_def monitor_rkadk_deinit_def)

lemma stop_player_ok:
  assumes "mon_inv s" "mo_page s"
  shows "mon_ok s (stop_player k s)"
  using assms after_stop_ok [OF assms] by (auto simp: stop_player_def) (simp add: mon_ok_defs)

lemma start_callback_ok:
  assumes "mon_inv s" "mo_page s"
  shows "mon_ok s (rtsp_play_start_callback net s)"
  using assms stop_player_ok [OF assms]
  by (simp add: rtsp_play_start_callback_def) (simp add: mon_ok_defs)

lemma pause_callback_ok:
  assumes "mon_inv s" "mo_page s"
  shows "mon_ok s (rtsp_play_pause_callback net s)"
  using assms start_callback_ok [OF assms]
  by (simp add: rtsp_play_pause_callback_def) (simp add: mon_ok_defs)

lemma joined_ok:
  assumes "mon_inv s" "mo_page s"
  shows "mon_ok s (stop_player_joined k s)"
proof -
  let ?s = "s\<lparr>mo_thread := False, mo_worker := W_none\<rparr>"
  have "mon_inv ?s" "mo_page ?s" "\<not> mo_thread ?s" using assms by (simp_all add: mon_inv_def)
  from after_stop_ok [OF this, of k] show ?thesis
    by (simp add: stop_player_joined_def mon_ok_def mon_count_def)
qed

lemma play_start_ok:
  assumes "mon_inv s" "mo_worker s = W_start"
  shows "mon_ok s (rtsp_play_start r s)"
  using assms by (cases r; cases "mo_player s")
    (simp_all add: mon_ok_defs rtsp_play_start_def monitor_rkadk_init_def monitor_rkadk_deinit_def split: if_splits)

lemma enter_ok:
  assumes "mon_inv s"
  shows "mon_ok s (monitor_ui_init rk x1 y1 w h s)"
  using assms by (simp add: mon_ok_defs monitor_ui_init_def Let_def)

lemma quiet_callbacks_ok:
  assumes "mon_inv s" "mo_page s"
  shows "mon_ok s ([], rtsp_addr_set covered s)" "mon_ok s ([], type_text t s)" "mon_ok s (kb_cb s)"
    "mon_ok s (rtsp_setting_callback s)" "mon_ok s ([], ui_ratio_cb rk x1 y1 w h act s)"
    "mon_ok s ([], ui_checkbox_cb b s)"
  using assms by (auto simp: mon_ok_defs rtsp_addr_set_def type_text_def kb_cb_def rtsp_setting_callback_def
      ui_ratio_cb_def ui_checkbox_cb_def split: option.split text_target.split)

lemma event_ok:
  assumes "mon_inv s" "mo_player s"
  shows "mon_ok s ([], monitor_event_fn ev s)"
proof -
  have "mo_page s" using assms by (auto simp: mon_inv_def)
  with assms show ?thesis
    by (cases ev) (simp_all add: mon_ok_defs monitor_event_fn_def)
qed

lemma step_page:
  assumes "mon_inv s" "mo_ui s \<noteq> U_idle" shows "mo_page s"
  using assms by (auto simp: mon_inv_def split: if_splits)

lemma mon_step_ok:
  assumes "mon_step rk who s c s'" "mon_inv s"
  shows "mon_ok s (c, s')"
  using assms
proof (cases rule: mon_step.cases)
  case (mon_tick)
  with assms(2) show ?thesis by (auto simp: mon_ok_defs ui_update_state_def)
next
  case (mon_join k)
  with assms(2) step_page [OF assms(2)] show ?thesis
    by (simp add: mon_ok_defs stop_player_join_def)
next
  case mon_end
  with assms(2) show ?thesis by (auto simp: mon_ok_defs rtsp_play_end_def)
next
  case (mon_joined k)
  with assms(2) step_page [OF assms(2)] joined_ok [of s k] show ?thesis by simp
qed (use assms(2) enter_ok start_callback_ok pause_callback_ok stop_player_ok quiet_callbacks_ok
    play_start_ok event_ok in metis)+

lemma mon_reach_ok: "mon_reach rk s tr \<Longrightarrow> mon_inv s \<and> alive tr 0 = mon_count s"
proof (induction rule: mon_reach.induct)
  case reach_boot
  show ?case by (simp add: mon_inv_def mon_count_def monitor_boot_def)
next
  case (reach_step s tr who c s')
  then show ?case using mon_step_ok [OF reach_step.hyps(2)] by (simp add: mon_ok_def)
qed


text \<open>The page is entered, a stream played, paused, and ends before the pause is reported.\<close>

lemma reach_by:
  "mon_reach rk s tr \<Longrightarrow> mon_step rk who s (fst r) (snd r) \<Longrightarrow> mon_reach rk (snd r) (tr @ fst r)"
  by (rule mon_reach.reach_step)

definition stopped_paused :: "bool \<Rightarrow> monitor" where
  "stopped_paused rk =
     rtsp_play_end (monitor_event_fn EV_EOF (snd (rtsp_play_pause_callback True
       (monitor_event_fn EV_PLAY (snd (rtsp_play_start Playing (snd (rtsp_play_start_callback True
         (snd (monitor_ui_init rk 0 128 720 700 monitor_boot))))))))))"

lemma pair_eq: "f = (fst f, snd f)"
  by simp

lemmas monitor_run_defs = monitor_boot_def monitor_ui_init_def rtsp_play_start_callback_def
  stop_player_def after_stop_def rtsp_play_start_def monitor_rkadk_init_def monitor_event_fn_def
  rtsp_play_pause_callback_def rtsp_play_end_def

lemma stopped_paused_reach:
  "mon_reach rk (stopped_paused rk)
     [Pl_flush, Pl_sys_init, Pl_param_init, Pl_flush, Pl_create,
      Pl_set_source ''rtsp://192.168.1.120:8554/'', Pl_prepare, Pl_play, Pl_pause]"
proof -
  let ?s1 = "snd (monitor_ui_init rk 0 128 720 700 monitor_boot)"
  let ?s2 = "snd (rtsp_play_start_callback True ?s1)"
  let ?s3 = "snd (rtsp_play_start Playing ?s2)"
  let ?s4 = "monitor_event_fn EV_PLAY ?s3"
  let ?s5 = "snd (rtsp_play_pause_callback True ?s4)"
  let ?s6 = "monitor_event_fn EV_EOF ?s5"
  note r1 = reach_by [OF mon_reach.reach_boot mon_enter [OF _ pair_eq], of rk 0 128 720 700]
  have r1: "mon_reach rk ?s1 [Pl_flush]" using r1 by (simp add: monitor_boot_def monitor_ui_init_def)
  note r2 = reach_by [OF r1 mon_start [OF _ _ pair_eq], of True]
  have r2: "mon_reach rk ?s2 [Pl_flush]" using r2 by (simp add: monitor_run_defs Let_def)
  note r3 = reach_by [OF r2 mon_play [OF _ pair_eq], of Playing]
  have r3: "mon_reach rk ?s3 [Pl_flush, Pl_sys_init, Pl_param_init, Pl_flush, Pl_create,
      Pl_set_source ''rtsp://192.168.1.120:8554/'', Pl_prepare, Pl_play]"
    using r3 by (simp add: monitor_run_defs Let_def)
  note r4 = mon_reach.reach_step [OF r3 mon_event, of EV_PLAY]
  have r4: "mon_reach rk ?s4 [Pl_flush, Pl_sys_init, Pl_param_init, Pl_flush, Pl_create,
      Pl_set_source ''rtsp://192.168.1.120:8554/'', Pl_prepare, Pl_play]"
    using r4 by (simp add: monitor_run_defs Let_def)
  note r5 = reach_by [OF r4 mon_pause [OF _ _ pair_eq], of True]
  have r5: "mon_reach rk ?s5 [Pl_flush, Pl_sys_init, Pl_param_init, Pl_flush, Pl_create,
      Pl_set_source ''rtsp://192.168.1.120:8554/'', Pl_prepare, Pl_play, Pl_pause]"
    using r5 by (simp add: monitor_run_defs Let_def)
  note r6 = mon_reach.reach_step [OF r5 mon_event, of EV_EOF]
  have r6: "mon_reach rk ?s6 [Pl_flush, Pl_sys_init, Pl_param_init, Pl_flush, Pl_create,
      Pl_set_source ''rtsp://192.168.1.120:8554/'', Pl_prepare, Pl_play, Pl_pause]"
    using r6 by (simp add: monitor_run_defs Let_def)
  note r7 = mon_reach.reach_step [OF r6 mon_end]
  show ?thesis unfolding stopped_paused_def using r7 by (simp add: monitor_run_defs Let_def)
qed

lemma stopped_paused_state:
  "mo_desired (stopped_paused rk) = ST_PAUSE" "\<not> mo_thread (stopped_paused rk)"
  "mo_ui (stopped_paused rk) = U_idle" "mo_player (stopped_paused rk)" "mo_page (stopped_paused rk)"
  by (simp_all add: stopped_paused_def monitor_run_defs Let_def)


subsection \<open>A state the player never reports\<close>

text \<open>Runs in which the player reports nothing.\<close>

inductive quiet_run :: "bool \<Rightarrow> monitor \<Rightarrow> player_call list \<Rightarrow> monitor \<Rightarrow> bool" for rk where
  quiet_nil: "quiet_run rk s [] s"
| quiet_step: "quiet_run rk s tr s1 \<Longrightarrow> mon_step rk who s1 c s2 \<Longrightarrow> who \<noteq> By_player
    \<Longrightarrow> quiet_run rk s (tr @ c) s2"

definition mon_stuck :: "monitor \<Rightarrow> bool" where
  "mon_stuck s = (mo_desired s \<noteq> ST_BUTT \<and> \<not> mo_thread s \<and> mo_worker s = W_none \<and> mo_ui s = U_idle)"

lemma stuck_step:
  assumes "mon_step rk who s c s'" "who \<noteq> By_player" "mon_stuck s"
  shows "mon_stuck s' \<and> set c \<subseteq> {Pl_flush, Pl_destroy}"
  using assms
  by (cases rule: mon_step.cases)
    (auto simp: mon_stuck_def monitor_ui_init_def Let_def rtsp_play_start_callback_def
      rtsp_play_pause_callback_def stop_player_def after_stop_def monitor_rkadk_deinit_def
      rtsp_addr_set_def type_text_def kb_cb_def rtsp_setting_callback_def ui_ratio_cb_def
      ui_checkbox_cb_def ui_update_state_def
      split: if_splits option.splits text_target.splits)



text \<open>
  In \<open>stop_player\<close> the thread may end between the stop and the join, which then joins thread 0.
  A float over a covered address is not deleted with the page, and its text replaces the
  address the next time the keyboard closes.
\<close>

lemma stop_joins_null:
  assumes "mo_thread s" "mo_worker s = W_loop" "mo_current s = ST_PLAY" "mo_ui s = U_idle"
  shows "mo_ui (stop_player_join A_stop (rtsp_play_end (monitor_event_fn EV_STOPPED
    (snd (stop_player A_stop s))))) = U_join_null"
  using assms by (simp add: stop_player_def stop_player_join_def rtsp_play_end_def monitor_event_fn_def)

lemma float_outlives_page:
  assumes "mo_kb s = None" "\<not> mo_thread s"
  shows "mo_float (snd (stop_player A_return (rtsp_addr_set True s))) = Some (mo_addr s)"
  using assms by (simp add: rtsp_addr_set_def stop_player_def after_stop_def monitor_rkadk_deinit_def)

lemma long_address_overruns: "127 < length (mo_addr s) \<Longrightarrow> mo_overrun (snd (rtsp_play_start r s))"
  by (cases r) (simp_all add: rtsp_play_start_def monitor_rkadk_init_def monitor_rkadk_deinit_def Let_def)

end
