(* ===== verification/Setting_UI.thy ===== *)
theory Setting_UI
  imports RK_Prelude
begin

text \<open>
  \<open>setting/setting_ui.c\<close> with the time roller of \<open>setting/language_and_date_ui.c\<close>: the
  submenus of the settings page, which are made when first opened and destroyed with the page,
  its two radio buttons, and the choice of a time.
\<close>

subsection \<open>Submenus\<close>

text \<open>
  \<open>SUBMENU_MAX\<close> counts the entries; WiFi and Bluetooth follow the three that are always there.
\<close>

definition SUBMENU_WIFI :: int where
  "SUBMENU_WIFI = 3"

definition submenu_max :: "bool \<Rightarrow> bool \<Rightarrow> nat" where
  "submenu_max wifibt bt = 3 + (if wifibt then 1 else 0) + (if bt then 1 else 0)"

text \<open>
  A submenu is \<open>None\<close> while its \<open>menu\<close> is NULL, else whether it is visible. \<open>se_menus\<close> is
  \<open>submenu_desc\<close>; \<open>se_cur\<close> is \<open>cur_menu\<close>. \<open>se_page\<close> says that \<open>main\<close> and \<open>submenu_mask\<close> exist.
\<close>

record setting =
  se_page :: bool
  se_timer :: bool
  se_mask :: bool
  se_menus :: "bool option list"
  se_cur :: int
  se_wifi_blue :: bool
  se_bt_blue :: bool

definition setting_boot :: "nat \<Rightarrow> setting" where
  "setting_boot n =
     \<lparr>se_page = False, se_timer = False, se_mask = False, se_menus = replicate n None,
      se_cur = int n, se_wifi_blue = False, se_bt_blue = False\<rparr>"

text \<open>\<open>submenu_<name>\<close> and \<open>submenu_<name>_destroy\<close>; a new menu is visible.\<close>

definition submenu_open :: "nat \<Rightarrow> setting \<Rightarrow> setting" where
  "submenu_open i s =
     (if se_menus s ! i = None then s\<lparr>se_menus := (se_menus s)[i := Some True]\<rparr> else s)"

definition submenu_destroy :: "nat \<Rightarrow> setting \<Rightarrow> setting" where
  "submenu_destroy i s =
     (if se_menus s ! i \<noteq> None then s\<lparr>se_menus := (se_menus s)[i := None]\<rparr> else s)"

definition show_menu :: "int \<Rightarrow> bool \<Rightarrow> setting \<Rightarrow> setting" where
  "show_menu i vis s = s\<lparr>se_menus := (se_menus s)[nat i := Some vis]\<rparr>"

definition has_menu :: "int \<Rightarrow> setting \<Rightarrow> bool" where
  "has_menu i s = (0 \<le> i \<and> i < int (length (se_menus s)) \<and> se_menus s ! nat i \<noteq> None)"

definition menu_switch_cb :: "int \<Rightarrow> setting \<Rightarrow> setting" where
  "menu_switch_cb idx s =
     (if idx < 0 \<or> idx \<ge> int (length (se_menus s)) then s
      else
        let s1 = (if has_menu (se_cur s) s then show_menu (se_cur s) False s else s);
            s2 = submenu_open (nat idx) s1;
            s3 = s2\<lparr>se_cur := idx\<rparr>
        in if has_menu idx s3 then show_menu idx True (s3\<lparr>se_mask := True\<rparr>) else s3)"

text \<open>The result says whether the toast is shown instead.\<close>

definition wifi_switch_cb :: "bool \<Rightarrow> setting \<Rightarrow> bool \<times> setting" where
  "wifi_switch_cb init_done s =
     (if init_done then (False, menu_switch_cb SUBMENU_WIFI s) else (True, s))"

datatype bt_cmd = BT_ENABLE | BT_DISABLE

definition bt_switch_toggled :: "setting \<Rightarrow> bt_cmd \<times> setting" where
  "bt_switch_toggled s =
     (if se_bt_blue s then (BT_DISABLE, s\<lparr>se_bt_blue := False\<rparr>)
      else (BT_ENABLE, s\<lparr>se_bt_blue := True\<rparr>))"

definition submenu_mask_cb :: "setting \<Rightarrow> setting" where
  "submenu_mask_cb s = s\<lparr>se_mask := False\<rparr>"

definition setting_btn_return_cb :: "setting \<Rightarrow> setting" where
  "setting_btn_return_cb s =
     (let s1 = foldl (\<lambda>s i. submenu_destroy i s) (s\<lparr>se_timer := False\<rparr>) [0..<length (se_menus s)]
      in s1\<lparr>se_page := False, se_mask := False\<rparr>)"

text \<open>\<open>wifi\<close>: \<open>wifi_enabled\<close>; \<open>bt_on\<close>: whether the state in \<open>BT_INFO\<close> is at least \<open>BT_STATE_ON\<close>.\<close>

definition setting_state_update :: "bool \<Rightarrow> bool \<Rightarrow> setting \<Rightarrow> setting" where
  "setting_state_update wifi bt_on s = s\<lparr>se_wifi_blue := wifi, se_bt_blue := bt_on\<rparr>"

definition setting_ui_init :: "bool \<Rightarrow> bool \<Rightarrow> setting \<Rightarrow> setting" where
  "setting_ui_init wifi bt_on s =
     (if se_page s then s
      else (setting_state_update wifi bt_on s)\<lparr>se_page := True, se_mask := False, se_timer := True\<rparr>)"

subsection \<open>Steps\<close>

datatype setting_op =
    SEnter bool bool | SReturn | SMenu int | SWifi bool | SMask | STick bool bool | SBt

fun setting_step :: "setting_op \<Rightarrow> setting \<Rightarrow> setting" where
  "setting_step (SEnter w b) s = setting_ui_init w b s"
| "setting_step SReturn s = (if se_page s then setting_btn_return_cb s else s)"
| "setting_step (SMenu i) s = (if se_page s then menu_switch_cb i s else s)"
| "setting_step (SWifi d) s = (if se_page s then snd (wifi_switch_cb d s) else s)"
| "setting_step SMask s = (if se_page s then submenu_mask_cb s else s)"
| "setting_step (STick w b) s = (if se_timer s then setting_state_update w b s else s)"
| "setting_step SBt s = (if se_page s then snd (bt_switch_toggled s) else s)"

subsection \<open>One submenu at a time\<close>

definition setting_inv :: "nat \<Rightarrow> setting \<Rightarrow> bool" where
  "setting_inv n s =
     (length (se_menus s) = n
      \<and> (\<forall>i < n. se_menus s ! i = Some True \<longrightarrow> int i = se_cur s)
      \<and> (se_mask s \<longrightarrow> se_page s \<and> 0 \<le> se_cur s \<and> se_cur s < int n \<and> se_menus s ! nat (se_cur s) = Some True)
      \<and> (\<not> se_page s \<longrightarrow> \<not> se_timer s \<and> (\<forall>i < n. se_menus s ! i = None)))"

lemma destroyed:
  "length (se_menus (foldl (\<lambda>s i. submenu_destroy i s) s [0..<k])) = length (se_menus s)
   \<and> (\<forall>i < k. i < length (se_menus s) \<longrightarrow> se_menus (foldl (\<lambda>s i. submenu_destroy i s) s [0..<k]) ! i = None)"
proof (induction k)
  case (Suc k)
  then show ?case by (auto simp: submenu_destroy_def nth_list_update less_Suc_eq)
qed simp

lemma destroy_keeps:
  "se_cur (foldl (\<lambda>s i. submenu_destroy i s) s ks) = se_cur s"
  "se_timer (foldl (\<lambda>s i. submenu_destroy i s) s ks) = se_timer s"
  by (induction ks arbitrary: s) (simp_all add: submenu_destroy_def)

lemma menu_switch_inv:
  assumes inv: "setting_inv n s" and p: "se_page s"
  shows "setting_inv n (menu_switch_cb idx s)"
proof (cases "idx < 0 \<or> idx \<ge> int n")
  case True
  with inv show ?thesis by (auto simp: menu_switch_cb_def setting_inv_def)
next
  case False
  have len: "length (se_menus s) = n" using inv by (simp add: setting_inv_def)
  define s1 where "s1 = (if has_menu (se_cur s) s then show_menu (se_cur s) False s else s)"
  have none: "length (se_menus s1) = n" using len by (simp add: s1_def show_menu_def)
  have hidden: "se_menus s1 ! i \<noteq> Some True" if i: "i < n" for i
  proof (cases "se_menus s ! i = Some True")
    case True
    with inv i have "se_cur s = int i" by (simp add: setting_inv_def)
    with True i len show ?thesis by (simp add: s1_def has_menu_def show_menu_def)
  next
    case False
    with i len show ?thesis
      by (cases "nat (se_cur s) = i") (simp_all add: s1_def show_menu_def)
  qed
  have rest: "se_page s1 = se_page s" by (simp add: s1_def show_menu_def)
  define s2 where "s2 = submenu_open (nat idx) s1"
  have "nat idx < n" using False by linarith
  then have "has_menu idx (s2\<lparr>se_cur := idx\<rparr>)"
    using False none by (auto simp: s2_def has_menu_def submenu_open_def)
  then have "menu_switch_cb idx s = show_menu idx True (s2\<lparr>se_cur := idx, se_mask := True\<rparr>)"
    using False len unfolding menu_switch_cb_def Let_def s1_def [symmetric] s2_def [symmetric] by simp
  moreover have "se_menus s2 ! i \<noteq> Some True" if "i < n" "i \<noteq> nat idx" for i
    using none hidden that by (auto simp: s2_def submenu_open_def nth_list_update)
  ultimately show ?thesis
    using False none rest p
    by (auto simp: setting_inv_def show_menu_def s2_def submenu_open_def nth_list_update split: if_splits)
qed

lemma setting_step_inv: "setting_inv n s \<Longrightarrow> setting_inv n (setting_step op s)"
proof (cases op)
  case SReturn
  assume inv: "setting_inv n s"
  then have "length (se_menus s) = n" by (simp add: setting_inv_def)
  then have "setting_inv n (setting_btn_return_cb s)"
    using destroyed [of "s\<lparr>se_timer := False\<rparr>" n]
    by (simp add: setting_btn_return_cb_def Let_def setting_inv_def destroy_keeps)
  with inv SReturn show ?thesis by simp
next
  case (SMenu i)
  assume "setting_inv n s"
  with SMenu menu_switch_inv show ?thesis by simp
next
  case (SWifi d)
  assume "setting_inv n s"
  with SWifi menu_switch_inv show ?thesis by (simp add: wifi_switch_cb_def)
qed (auto simp: setting_inv_def setting_ui_init_def setting_state_update_def
    submenu_mask_cb_def bt_switch_toggled_def)

text \<open>
  C32. Whatever is opened and closed: at most one submenu is visible; while the submenu layer is
  shown it shows exactly \<open>cur_menu\<close>; and leaving the page destroys every submenu that was made.
\<close>

theorem setting_one_submenu:
  "let s = fold setting_step ops (setting_boot (submenu_max wifibt bt));
       visible = {i. i < length (se_menus s) \<and> se_menus s ! i = Some True}
   in card visible \<le> 1 \<and> (\<not> se_mask s \<or> visible = {nat (se_cur s)})
     \<and> (se_page s \<or> se_menus s = replicate (submenu_max wifibt bt) None)"
proof -
  let ?n = "submenu_max wifibt bt"
  let ?s = "fold setting_step ops (setting_boot ?n)"
  let ?V = "{i. i < length (se_menus ?s) \<and> se_menus ?s ! i = Some True}"
  have "setting_inv ?n (fold setting_step ops s0)" if "setting_inv ?n s0" for s0
    using that by (induction ops arbitrary: s0) (simp_all add: setting_step_inv)
  moreover have "setting_inv ?n (setting_boot ?n)"
    by (simp add: setting_inv_def setting_boot_def)
  ultimately have inv: "setting_inv ?n ?s" by simp
  then have V: "?V \<subseteq> {nat (se_cur ?s)}" by (auto simp: setting_inv_def)
  then have "card ?V \<le> 1" using card_mono [of "{nat (se_cur ?s)}" ?V] by simp
  moreover have "\<not> se_mask ?s \<or> ?V = {nat (se_cur ?s)}"
    using inv V by (auto simp: setting_inv_def)
  moreover have "se_page ?s \<or> se_menus ?s = replicate ?n None"
    using inv by (auto simp: setting_inv_def intro!: nth_equalityI)
  ultimately show ?thesis by (simp add: Let_def)
qed

text \<open>The witness opens two submenus one after the other.\<close>

lemma setting_one_submenu_witness:
  "let s = fold setting_step [SEnter True False, SMenu 0, SMenu 2] (setting_boot (submenu_max True True))
   in se_mask s \<and> {i. i < length (se_menus s) \<and> se_menus s ! i = Some True} = {2}"
proof -
  let ?s = "fold setting_step [SEnter True False, SMenu 0, SMenu 2] (setting_boot (submenu_max True True))"
  have shown: "se_mask ?s" "nat (se_cur ?s) = 2"
    by (simp_all add: setting_boot_def submenu_max_def setting_ui_init_def setting_state_update_def
      menu_switch_cb_def has_menu_def submenu_open_def show_menu_def Let_def) auto
  note all = setting_one_submenu [of "[SEnter True False, SMenu 0, SMenu 2]" True True, unfolded Let_def,
    THEN conjunct2, THEN conjunct1]
  show ?thesis unfolding Let_def
    by (rule conjI [OF shown(1)], rule disjE [OF all], erule notE, rule shown(1),
      erule trans, rule arg_cong [OF shown(2)])
qed

subsection \<open>Choosing a time\<close>

text \<open>The option strings as lists of lines; the second ends in a newline.\<close>

definition digit2 :: "nat \<Rightarrow> string" where
  "digit2 k = [char_of (48 + k div 10), char_of (48 + k mod 10)]"

definition hour_opts :: "string list" where
  "hour_opts = map digit2 [0..<24]"

definition min_opts :: "string list" where
  "min_opts = map digit2 ([0..<54] @ [55] @ [55..<60]) @ [[]]"

text \<open>\<open>atoi\<close> on an unsigned number\<close>

fun atoi_from :: "nat \<Rightarrow> string \<Rightarrow> nat" where
  "atoi_from n [] = n"
| "atoi_from n (c # cs) =
     (let d = of_char c :: nat in if 48 \<le> d \<and> d \<le> 57 then atoi_from (10 * n + (d - 48)) cs else n)"

definition confirm_cb :: "nat \<Rightarrow> nat \<Rightarrow> nat \<Rightarrow> nat \<times> nat" where
  "confirm_cb h m s = (atoi_from 0 (hour_opts ! h), atoi_from 0 (min_opts ! m))"

text \<open>The 54th minute is not offered: its line says 55.\<close>

lemma no_minute_54: "54 \<notin> atoi_from 0 ` set min_opts"
  by (simp add: min_opts_def digit2_def upt_rec)

lemma chosen_minute: "m < length min_opts \<Longrightarrow> snd (confirm_cb h m s) \<noteq> 54"
  using no_minute_54 by (force simp: confirm_cb_def)

end
