(* ===== verification/Local_IP.thy ===== *)
theory Local_IP
  imports RK_Prelude
begin

text \<open>
  \<open>local_ip.c\<close>: the addresses the call page shows. What the system reports is a parameter: for
  each interface its address as text, or \<open>None\<close> where the request fails.
\<close>

datatype ip_result = No_ip | Ip string | Ip_unterminated

text \<open>What one turn of the loop appends, for the value of \<open>intrface\<close> inside it.\<close>

definition ip_piece :: "nat \<Rightarrow> string option \<Rightarrow> string" where
  "ip_piece intrface addr =
     (case addr of
        None \<Rightarrow> []
      | Some ip \<Rightarrow> if ip \<noteq> ''127.0.0.1'' then ip @ (if intrface > 1 then '','' else []) else [])"

text \<open>\<open>while (intrface-- > 0)\<close>; a text beyond the \<open>cap\<close> bytes is \<open>None\<close>.\<close>

fun ip_loop :: "nat \<Rightarrow> nat \<Rightarrow> string option list \<Rightarrow> string \<Rightarrow> string option" where
  "ip_loop cap 0 addrs out = Some out"
| "ip_loop cap (Suc i) addrs out =
     (let out' = out @ ip_piece i (addrs ! i) in
      if cap < length out' + 1 then None else ip_loop cap i addrs out')"

text \<open>
  \<open>sock\<close>: the socket opens; \<open>ifs\<close>: the answer of \<open>SIOCGIFCONF\<close>. Without an interface nothing is
  allocated and nothing is written.
\<close>

definition get_local_ip :: "bool \<Rightarrow> string option list option \<Rightarrow> ip_result option" where
  "get_local_ip sock ifs =
     (if \<not> sock then Some No_ip
      else case ifs of
        None \<Rightarrow> Some No_ip
      | Some addrs \<Rightarrow>
          if addrs = [] then Some Ip_unterminated
          else map_option Ip (ip_loop (20 * length addrs) (length addrs) addrs ''IP:''))"

lemma ip_piece_length: "addr = None \<or> length (the addr) \<le> 15 \<Longrightarrow> length (ip_piece i addr) \<le> 16"
  by (cases addr) (auto simp: ip_piece_def)

lemma ip_loop_fits:
  assumes "n \<le> length addrs" "\<forall>a \<in> set addrs. a = None \<or> length (the a) \<le> 15" "length out + 16 * n < cap"
  shows "ip_loop cap n addrs out = Some (out @ concat (map (\<lambda>i. ip_piece i (addrs ! i)) (rev [0..<n])))"
  using assms
proof (induction n arbitrary: out)
  case (Suc n)
  have "length (ip_piece n (addrs ! n)) \<le> 16" using Suc.prems by (intro ip_piece_length) simp
  with Suc.IH [of "out @ ip_piece n (addrs ! n)"] Suc.prems show ?case by (simp add: Let_def)
qed simp

text \<open>
  With an interface and addresses of at most 15 characters, as \<open>inet_ntop\<close> makes them, the
  text is \<open>IP:\<close> and the addresses other than the loopback one, from the last interface to the
  first, each but those of the first two followed by a comma, and it fits its 20 bytes an
  interface.
\<close>

theorem local_ip_fits:
  assumes "addrs \<noteq> []" "\<forall>a \<in> set addrs. a = None \<or> length (the a) \<le> 15"
  shows "get_local_ip True (Some addrs) =
    Some (Ip (''IP:'' @ concat (map (\<lambda>i. ip_piece i (addrs ! i)) (rev [0..<length addrs]))))"
proof -
  have "length ''IP:'' + 16 * length addrs < 20 * length addrs" using assms(1) by (cases addrs) simp_all
  with ip_loop_fits [OF _ assms(2), of "length addrs" "''IP:''" "20 * length addrs"] assms(1)
  show ?thesis by (simp add: get_local_ip_def)
qed

text \<open>The witness is a board with the loopback, a wired and a wireless interface.\<close>

lemma local_ip_fits_witness:
  "get_local_ip True (Some [Some ''127.0.0.1'', Some ''192.168.1.20'', Some ''10.0.0.7'']) =
    Some (Ip ''IP:10.0.0.7,192.168.1.20'')"
  using local_ip_fits [of "[Some ''127.0.0.1'', Some ''192.168.1.20'', Some ''10.0.0.7'']"]
  by (simp add: ip_piece_def upt_rec)

text \<open>
  The first two addresses are not separated; without any interface the buffer returned holds no
  terminator.
\<close>

lemma addresses_run_together:
  "get_local_ip True (Some [Some ''10.0.0.7'', Some ''192.168.1.20'']) = Some (Ip ''IP:192.168.1.2010.0.0.7'')"
  "get_local_ip True (Some []) = Some Ip_unterminated"
  by (simp_all add: get_local_ip_def ip_piece_def Let_def)

end
