(* ===== verification/Pages.thy ===== *)
theory Pages
  imports C_Float
begin

text \<open>
  The pages and the ways between them: \<open>home/home_ui.c\<close>, the return buttons and jumps of
  \<open>smart_home_ui.c\<close>, \<open>furniture_control\<close>, \<open>intercom_homepage\<close> and \<open>setting_ui.c\<close>. A jump makes
  the new page first and then deletes the old one; what a page keeps besides its objects is
  its timer, the hidden background, the voice recogniser, and the blurred snapshot of the
  background its image shows.
\<close>

subsection \<open>State\<close>

datatype page = Home | Smart | Furniture | Icebox | Coffee | Player | Intercom | Monitor | Call | Settings

record config =
  cf_multimedia :: bool
  cf_asr :: bool

text \<open>
  \<open>nv_main p\<close> counts the objects made for \<open>main\<close> of the page \<open>p\<close> and not deleted, so it is
  zero when \<open>main\<close> is NULL; \<open>nv_timer p\<close> counts its timers. Snapshots are numbered: \<open>nv_snap\<close> is
  \<open>bg_snapshot\<close> of the home page, \<open>nv_image p\<close> the snapshot the image of \<open>p\<close> points to.
\<close>

record nav =
  nv_main :: "page \<Rightarrow> nat"
  nv_timer :: "page \<Rightarrow> nat"
  nv_bg_hidden :: bool
  nv_asr :: nat
  nv_snap :: "nat option"
  nv_next :: nat
  nv_image :: "page \<Rightarrow> nat option"

subsection \<open>The home page\<close>

definition create :: "page \<Rightarrow> nav \<Rightarrow> nav" where
  "create p s = s\<lparr>nv_main := (nv_main s)(p := nv_main s p + 1)\<rparr>"

definition destroy :: "page \<Rightarrow> nav \<Rightarrow> nav" where
  "destroy p s = s\<lparr>nv_main := (nv_main s)(p := nv_main s p - 1), nv_image := (nv_image s)(p := None)\<rparr>"

definition timer_new :: "page \<Rightarrow> nav \<Rightarrow> nav" where
  "timer_new p s = s\<lparr>nv_timer := (nv_timer s)(p := nv_timer s p + 1)\<rparr>"

definition timer_del :: "page \<Rightarrow> nav \<Rightarrow> nav" where
  "timer_del p s = s\<lparr>nv_timer := (nv_timer s)(p := nv_timer s p - 1)\<rparr>"

text \<open>\<open>ok\<close>: whether \<open>lv_snapshot_take\<close> succeeds.\<close>

definition bg_pic_snapshot_blur :: "bool \<Rightarrow> nav \<Rightarrow> nav" where
  "bg_pic_snapshot_blur ok s =
     (if nv_snap s \<noteq> None then s
      else if ok then s\<lparr>nv_snap := Some (nv_next s), nv_next := nv_next s + 1\<rparr> else s)"

definition get_bg_snapshot :: "bool \<Rightarrow> page \<Rightarrow> nav \<Rightarrow> nav" where
  "get_bg_snapshot ok p s =
     (let s1 = bg_pic_snapshot_blur ok s in s1\<lparr>nv_image := (nv_image s1)(p := nv_snap s1)\<rparr>)"

definition rk_demo_bg_set_img :: "bool \<Rightarrow> nav \<Rightarrow> nav" where
  "rk_demo_bg_set_img ok s = bg_pic_snapshot_blur ok (s\<lparr>nv_snap := None\<rparr>)"

definition rk_demo_bg_hide :: "nav \<Rightarrow> nav" where
  "rk_demo_bg_hide s = s\<lparr>nv_bg_hidden := True\<rparr>"

definition rk_demo_bg_show :: "nav \<Rightarrow> nav" where
  "rk_demo_bg_show s = s\<lparr>nv_bg_hidden := False\<rparr>"

definition home_ui_init :: "nav \<Rightarrow> nav" where
  "home_ui_init s = (if nv_main s Home > 0 then s else timer_new Home (create Home s))"

definition rk_demo_init :: nav where
  "rk_demo_init = home_ui_init
     \<lparr>nv_main = (\<lambda>_. 0), nv_timer = (\<lambda>_. 0), nv_bg_hidden = False, nv_asr = 0, nv_snap = None,
      nv_next = 0, nv_image = (\<lambda>_. None)\<rparr>"

text \<open>The grid of the home page for \<open>cnt\<close> buttons: columns and rows, and the arrays with their end mark.\<close>

definition home_grid :: "bool \<Rightarrow> int \<Rightarrow> int \<times> int" where
  "home_grid hor cnt = (if hor then (cnt, 1) else (2, \<lceil>fl 24 (of_int cnt / 2)\<rceil>))"

definition home_dsc :: "int \<Rightarrow> int \<Rightarrow> int \<Rightarrow> int list" where
  "home_dsc n item_w end_mark = (replicate (nat n + 1) item_w)[nat n := end_mark]"

subsection \<open>The other pages\<close>

definition smart_home_ui_init :: "config \<Rightarrow> bool \<Rightarrow> nav \<Rightarrow> nav" where
  "smart_home_ui_init cf ok s =
     (let s1 = (if cf_asr cf then s\<lparr>nv_asr := nv_asr s + 1\<rparr> else s) in
      if nv_main s1 Smart > 0 then s1 else create Smart (get_bg_snapshot ok Smart s1))"

definition furniture_control_ui_init :: "bool \<Rightarrow> nav \<Rightarrow> nav" where
  "furniture_control_ui_init ok s =
     (if nv_main s Furniture > 0 then s else get_bg_snapshot ok Furniture (create Furniture s))"

definition icebox_ui_init :: "bool \<Rightarrow> nav \<Rightarrow> nav" where
  "icebox_ui_init ok s =
     (if nv_main s Icebox > 0 then s else get_bg_snapshot ok Icebox (create Icebox s))"

definition coffee_machine_ui_init :: "nav \<Rightarrow> nav" where
  "coffee_machine_ui_init s = (if nv_main s Coffee > 0 then s else create Coffee s)"

definition player_page_init :: "nav \<Rightarrow> nav" where
  "player_page_init s =
     (let s1 = rk_demo_bg_hide s in if nv_main s1 Player > 0 then s1 else create Player s1)"

definition intercom_homepage_ui_init :: "nav \<Rightarrow> nav" where
  "intercom_homepage_ui_init s = (if nv_main s Intercom > 0 then s else create Intercom s)"

definition monitor_page_init :: "nav \<Rightarrow> nav" where
  "monitor_page_init s =
     (let s1 = rk_demo_bg_hide s in
      if nv_main s1 Monitor > 0 then s1 else timer_new Monitor (create Monitor s1))"

definition intercom_call_ui_init :: "nav \<Rightarrow> nav" where
  "intercom_call_ui_init s = (if nv_main s Call > 0 then s else timer_new Call (create Call s))"

definition setting_page_init :: "nav \<Rightarrow> nav" where
  "setting_page_init s = (if nv_main s Settings > 0 then s else timer_new Settings (create Settings s))"

subsection \<open>Jumps\<close>

text \<open>The buttons of the home page, by their \<open>user_data\<close>.\<close>

definition home_btn :: "config \<Rightarrow> bool \<Rightarrow> (nav \<Rightarrow> nav) list" where
  "home_btn cf ok =
     [smart_home_ui_init cf ok, furniture_control_ui_init ok, intercom_homepage_ui_init, setting_page_init]"

definition home_page_switch :: "config \<Rightarrow> bool \<Rightarrow> nat \<Rightarrow> nav \<Rightarrow> nav" where
  "home_page_switch cf ok i s =
     (if i < length (home_btn cf ok) then destroy Home (timer_del Home ((home_btn cf ok ! i) s)) else s)"

definition fc_btn :: "config \<Rightarrow> bool \<Rightarrow> (nav \<Rightarrow> nav) option list" where
  "fc_btn cf ok =
     [Some (icebox_ui_init ok), if cf_multimedia cf then Some player_page_init else None,
      Some coffee_machine_ui_init]"

definition fc_page_jump :: "config \<Rightarrow> bool \<Rightarrow> nat \<Rightarrow> nav \<Rightarrow> nav" where
  "fc_page_jump cf ok i s =
     (if i < length (fc_btn cf ok) then
        case fc_btn cf ok ! i of None \<Rightarrow> s | Some f \<Rightarrow> destroy Furniture (f s)
      else s)"

text \<open>The items of the intercom page with their callbacks; most have none.\<close>

definition intercom_private :: "config \<Rightarrow> (nav \<Rightarrow> nav) option list" where
  "intercom_private cf =
     [if cf_multimedia cf then Some monitor_page_init else None,
      if cf_multimedia cf then Some intercom_call_ui_init else None] @ replicate 8 None"

definition intercom_page_switch :: "config \<Rightarrow> nat \<Rightarrow> nav \<Rightarrow> nav" where
  "intercom_page_switch cf i s =
     (if i < length (intercom_private cf) then
        case intercom_private cf ! i of None \<Rightarrow> s | Some f \<Rightarrow> destroy Intercom (f s)
      else s)"

text \<open>The return buttons.\<close>

definition smart_return :: "config \<Rightarrow> nav \<Rightarrow> nav" where
  "smart_return cf s =
     (let s1 = destroy Smart (home_ui_init s) in
      if cf_asr cf then s1\<lparr>nv_asr := nv_asr s1 - 1\<rparr> else s1)"

definition furniture_return :: "nav \<Rightarrow> nav" where
  "furniture_return s = destroy Furniture (home_ui_init s)"

definition icebox_return :: "bool \<Rightarrow> nav \<Rightarrow> nav" where
  "icebox_return ok s = destroy Icebox (furniture_control_ui_init ok s)"

definition coffee_return :: "bool \<Rightarrow> nav \<Rightarrow> nav" where
  "coffee_return ok s = destroy Coffee (furniture_control_ui_init ok s)"

definition player_return :: "bool \<Rightarrow> nav \<Rightarrow> nav" where
  "player_return ok s = rk_demo_bg_show (destroy Player (furniture_control_ui_init ok s))"

definition intercom_return :: "nav \<Rightarrow> nav" where
  "intercom_return s = destroy Intercom (home_ui_init s)"

definition monitor_return :: "nav \<Rightarrow> nav" where
  "monitor_return s =
     rk_demo_bg_show (destroy Monitor (timer_del Monitor (intercom_homepage_ui_init s)))"

definition call_return :: "nav \<Rightarrow> nav" where
  "call_return s = timer_del Call (destroy Call (intercom_homepage_ui_init s))"

definition setting_return :: "nav \<Rightarrow> nav" where
  "setting_return s = destroy Settings (timer_del Settings (home_ui_init s))"

definition page_return :: "config \<Rightarrow> bool \<Rightarrow> page \<Rightarrow> nav \<Rightarrow> nav" where
  "page_return cf ok p s =
     (case p of
        Home \<Rightarrow> s | Smart \<Rightarrow> smart_return cf s | Furniture \<Rightarrow> furniture_return s
      | Icebox \<Rightarrow> icebox_return ok s | Coffee \<Rightarrow> coffee_return ok s | Player \<Rightarrow> player_return ok s
      | Intercom \<Rightarrow> intercom_return s | Monitor \<Rightarrow> monitor_return s | Call \<Rightarrow> call_return s
      | Settings \<Rightarrow> setting_return s)"

text \<open>
  An event reaches a page that exists; the snapshot is also taken by a timer, and a wallpaper
  chosen in the settings replaces it.
\<close>

datatype nav_event =
    N_home nat | N_furniture nat | N_intercom nat | N_return page | N_wallpaper | N_snapshot

definition nav_step :: "config \<Rightarrow> nav_event \<times> bool \<Rightarrow> nav \<Rightarrow> nav" where
  "nav_step cf e s =
     (case e of (ev, ok) \<Rightarrow>
        case ev of
          N_home i \<Rightarrow> if nv_main s Home > 0 then home_page_switch cf ok i s else s
        | N_furniture i \<Rightarrow> if nv_main s Furniture > 0 then fc_page_jump cf ok i s else s
        | N_intercom i \<Rightarrow> if nv_main s Intercom > 0 then intercom_page_switch cf i s else s
        | N_return p \<Rightarrow> if nv_main s p > 0 then page_return cf ok p s else s
        | N_wallpaper \<Rightarrow> if nv_main s Settings > 0 then rk_demo_bg_set_img ok s else s
        | N_snapshot \<Rightarrow> bg_pic_snapshot_blur ok s)"

subsection \<open>One page at a time\<close>

definition has_timer :: "page \<Rightarrow> bool" where
  "has_timer p = (p \<in> {Home, Monitor, Call, Settings})"

text \<open>What the state is while the page \<open>p\<close> is shown.\<close>

definition shows_page :: "config \<Rightarrow> page \<Rightarrow> nav \<Rightarrow> bool" where
  "shows_page cf p s =
     (nv_main s = (\<lambda>q. if q = p then 1 else 0)
      \<and> nv_timer s = (\<lambda>q. if q = p \<and> has_timer p then 1 else 0)
      \<and> nv_bg_hidden s = (p \<in> {Player, Monitor})
      \<and> nv_asr s = (if cf_asr cf \<and> p = Smart then 1 else 0)
      \<and> (\<forall>q. q \<noteq> p \<or> p \<notin> {Smart, Furniture, Icebox} \<longrightarrow> nv_image s q = None)
      \<and> (nv_image s p = None \<or> nv_image s p = nv_snap s))"

lemmas page_defs = shows_page_def create_def destroy_def timer_new_def timer_del_def has_timer_def
  bg_pic_snapshot_blur_def get_bg_snapshot_def rk_demo_bg_hide_def rk_demo_bg_show_def Let_def

lemma shown_only: "shows_page cf p s \<Longrightarrow> nv_main s q > 0 \<longleftrightarrow> q = p"
  by (simp add: shows_page_def)

lemma home_jumps:
  assumes "shows_page cf Home s"
  shows "shows_page cf Smart (destroy Home (timer_del Home (smart_home_ui_init cf ok s)))"
    "shows_page cf Furniture (destroy Home (timer_del Home (furniture_control_ui_init ok s)))"
    "shows_page cf Intercom (destroy Home (timer_del Home (intercom_homepage_ui_init s)))"
    "shows_page cf Settings (destroy Home (timer_del Home (setting_page_init s)))"
  using assms
  by (auto simp: page_defs fun_eq_iff smart_home_ui_init_def furniture_control_ui_init_def
      intercom_homepage_ui_init_def setting_page_init_def)

lemma furniture_jumps:
  assumes "shows_page cf Furniture s"
  shows "shows_page cf Icebox (destroy Furniture (icebox_ui_init ok s))"
    "shows_page cf Player (destroy Furniture (player_page_init s))"
    "shows_page cf Coffee (destroy Furniture (coffee_machine_ui_init s))"
    "shows_page cf Home (furniture_return s)"
  using assms
  by (auto simp: page_defs fun_eq_iff icebox_ui_init_def player_page_init_def coffee_machine_ui_init_def
      furniture_return_def home_ui_init_def)

lemma intercom_jumps:
  assumes "shows_page cf Intercom s"
  shows "shows_page cf Monitor (destroy Intercom (monitor_page_init s))"
    "shows_page cf Call (destroy Intercom (intercom_call_ui_init s))"
    "shows_page cf Home (intercom_return s)"
  using assms
  by (auto simp: page_defs fun_eq_iff monitor_page_init_def intercom_call_ui_init_def
      intercom_return_def home_ui_init_def)

lemma returns_to_home:
  "shows_page cf Smart s \<Longrightarrow> shows_page cf Home (smart_return cf s)"
  "shows_page cf Settings s \<Longrightarrow> shows_page cf Home (setting_return s)"
  by (auto simp: page_defs fun_eq_iff smart_return_def setting_return_def home_ui_init_def)

lemma returns_to_furniture:
  "shows_page cf Icebox s \<Longrightarrow> shows_page cf Furniture (icebox_return ok s)"
  "shows_page cf Coffee s \<Longrightarrow> shows_page cf Furniture (coffee_return ok s)"
  "shows_page cf Player s \<Longrightarrow> shows_page cf Furniture (player_return ok s)"
  by (auto simp: page_defs fun_eq_iff icebox_return_def coffee_return_def player_return_def
      furniture_control_ui_init_def)

lemma returns_to_intercom:
  "shows_page cf Monitor s \<Longrightarrow> shows_page cf Intercom (monitor_return s)"
  "shows_page cf Call s \<Longrightarrow> shows_page cf Intercom (call_return s)"
  by (auto simp: page_defs fun_eq_iff monitor_return_def call_return_def intercom_homepage_ui_init_def)

lemma snapshot_page: "shows_page cf p s \<Longrightarrow> shows_page cf p (bg_pic_snapshot_blur ok s)"
  by (auto simp: shows_page_def bg_pic_snapshot_blur_def)

lemma wallpaper_page: "shows_page cf Settings s \<Longrightarrow> shows_page cf Settings (rk_demo_bg_set_img ok s)"
  by (auto simp: shows_page_def bg_pic_snapshot_blur_def rk_demo_bg_set_img_def)

lemma home_switch_page:
  assumes "shows_page cf Home s" shows "\<exists>p. shows_page cf p (home_page_switch cf ok i s)"
proof (cases "i < 4")
  case True
  then have "i \<in> {0, 1, 2, 3}" by auto
  then show ?thesis
    by (elim insertE emptyE; simp add: home_page_switch_def home_btn_def; blast intro: home_jumps [OF assms])
next
  case False
  with assms show ?thesis by (auto simp: home_page_switch_def home_btn_def)
qed

lemma fc_jump_page:
  assumes "shows_page cf Furniture s" shows "\<exists>p. shows_page cf p (fc_page_jump cf ok i s)"
proof (cases "i < 3")
  case True
  then have "i \<in> {0, 1, 2}" by auto
  then show ?thesis
    by (elim insertE emptyE; simp add: fc_page_jump_def fc_btn_def; blast intro: furniture_jumps [OF assms] assms)
next
  case False
  with assms show ?thesis by (auto simp: fc_page_jump_def fc_btn_def)
qed

lemma intercom_switch_page:
  assumes "shows_page cf Intercom s" shows "\<exists>p. shows_page cf p (intercom_page_switch cf i s)"
proof (cases "i < 2")
  case True
  then have "i \<in> {0, 1}" by auto
  then show ?thesis
    by (elim insertE emptyE; simp add: intercom_page_switch_def intercom_private_def;
        blast intro: intercom_jumps [OF assms] assms)
next
  case False
  with assms show ?thesis
    by (auto simp: intercom_page_switch_def intercom_private_def nth_append)
qed

lemma return_page:
  assumes "shows_page cf p s" shows "\<exists>q. shows_page cf q (page_return cf ok p s)"
  using assms
  by (cases p; simp add: page_return_def)
    (blast intro: furniture_jumps(4) intercom_jumps(3) returns_to_home returns_to_furniture
      returns_to_intercom)+

lemma nav_step_page:
  assumes "shows_page cf p s" shows "\<exists>q. shows_page cf q (nav_step cf e s)"
proof -
  obtain ev ok where e: "e = (ev, ok)" by force
  note only = shown_only [OF assms]
  show ?thesis
  proof (cases ev)
    case (N_home i)
    with e only assms home_switch_page show ?thesis by (auto simp: nav_step_def)
  next
    case (N_furniture i)
    with e only assms fc_jump_page show ?thesis by (auto simp: nav_step_def)
  next
    case (N_intercom i)
    with e only assms intercom_switch_page show ?thesis by (auto simp: nav_step_def)
  next
    case (N_return q)
    with e only assms return_page show ?thesis by (auto simp: nav_step_def)
  next
    case N_wallpaper
    with e only [of Settings] assms show ?thesis
      by (simp add: nav_step_def) (blast intro: wallpaper_page)
  next
    case N_snapshot
    with e assms show ?thesis by (simp add: nav_step_def) (blast intro: snapshot_page)
  qed
qed

text \<open>
  C8. Wherever the user goes, exactly one page exists and it has its one timer, if it has any;
  the background is hidden exactly on the video and monitor pages; the recogniser runs exactly
  once, on the smart home page, and on no other; and no image shows a snapshot that a
  new wallpaper has freed.
\<close>

theorem pages_one_at_a_time:
  "\<exists>p. let s = fold (nav_step cf) evs rk_demo_init in
     nv_main s = (\<lambda>q. if q = p then 1 else 0)
     \<and> nv_timer s = (\<lambda>q. if q = p \<and> p \<in> {Home, Monitor, Call, Settings} then 1 else 0)
     \<and> nv_bg_hidden s = (p \<in> {Player, Monitor})
     \<and> nv_asr s = (if cf_asr cf \<and> p = Smart then 1 else 0)
     \<and> range (nv_image s) \<subseteq> {None, nv_snap s}"
proof -
  have "\<exists>q. shows_page cf q (fold (nav_step cf) evs s)" if "shows_page cf p s" for p s
    using that
  proof (induction evs arbitrary: p s)
    case (Cons e evs)
    from nav_step_page [OF Cons.prems] obtain q where "shows_page cf q (nav_step cf e s)" ..
    from Cons.IH [OF this] show ?case by simp
  qed auto
  moreover have "shows_page cf Home rk_demo_init"
    by (auto simp: page_defs rk_demo_init_def home_ui_init_def fun_eq_iff)
  ultimately obtain p where p: "shows_page cf p (fold (nav_step cf) evs rk_demo_init)" by blast
  then have "nv_image (fold (nav_step cf) evs rk_demo_init) q
      \<in> {None, nv_snap (fold (nav_step cf) evs rk_demo_init)}" for q
    by (cases "q = p") (simp_all add: shows_page_def)
  then have "range (nv_image (fold (nav_step cf) evs rk_demo_init))
      \<subseteq> {None, nv_snap (fold (nav_step cf) evs rk_demo_init)}" by (intro image_subsetI)
  with p show ?thesis
    unfolding shows_page_def has_timer_def Let_def by (intro exI [of _ p] conjI) simp_all
qed

subsection \<open>The grid of the home page\<close>

lemma home_grid_4: "home_grid False 4 = (2, 2)" "home_grid True 4 = (4, 1)"
  using fl_int [of 24 2] by (simp_all add: home_grid_def)

lemma home_dsc_ends: "0 \<le> n \<Longrightarrow> home_dsc n w m = replicate (nat n) w @ [m]"
proof -
  have "replicate (nat n + 1) w = replicate (nat n) w @ [w]" by (simp add: replicate_append_same)
  then show ?thesis unfolding home_dsc_def by (simp only: list_update_append) simp
qed

subsection \<open>The coffee machine\<close>

datatype coffee = Americano | Italian | Latte | Cappuccino | RK_coffee

text \<open>
  \<open>coffee_machine_png_box_scroll_callback\<close>: the zooms of the five pictures and the name.
\<close>

definition coffee_scroll :: "int \<Rightarrow> int list \<times> coffee \<Rightarrow> int list \<times> coffee" where
  "coffee_scroll v s =
     (let z = fst s in
      if 0 < v \<and> v \<le> 200 then (z[0 := 256, 1 := 192], Americano)
      else if 200 < v \<and> v \<le> 600 then (z[0 := 192, 1 := 256, 2 := 192], Italian)
      else if 600 < v \<and> v \<le> 1000 then (z[1 := 192, 2 := 256, 3 := 192], Latte)
      else if 1000 < v \<and> v \<le> 1400 then (z[2 := 192, 3 := 256, 4 := 192], Cappuccino)
      else if 1400 < v \<and> v \<le> 1800 then (z[3 := 192, 4 := 256], RK_coffee)
      else s)"

definition coffee_init :: "int list \<times> coffee" where
  "coffee_init = ([256, 192, 192, 192, 192], Americano)"

definition in_focus :: "nat \<Rightarrow> int list \<times> coffee" where
  "in_focus k = ((replicate 5 192)[k := 256], [Americano, Italian, Latte, Cappuccino, RK_coffee] ! k)"

text \<open>
  Scrolled past its neighbours in one event, a picture stays large: only moves to a neighbour
  leave exactly one large.
\<close>

lemma coffee_neighbours:
  "coffee_scroll 100 (in_focus 1) = in_focus 0" "coffee_scroll 400 (in_focus 0) = in_focus 1"
  "coffee_scroll 400 (in_focus 2) = in_focus 1" "coffee_scroll 800 (in_focus 1) = in_focus 2"
  "coffee_scroll 1200 (in_focus 2) = in_focus 3" "coffee_scroll 1600 (in_focus 3) = in_focus 4"
  by (simp_all add: coffee_scroll_def in_focus_def numeral_eq_Suc)

lemma coffee_jump: "coffee_scroll 1600 coffee_init = ([256, 192, 192, 192, 256], RK_coffee)"
  by (simp add: coffee_scroll_def coffee_init_def numeral_eq_Suc)

end
