(* ===== verification/Rkaudio_Param.thy ===== *)
theory Rkaudio_Param
  imports C_Float "HOL-Library.Monad_Syntax"
begin

unbundle bit_operations_syntax

text \<open>
  The parameters of the audio library (\<open>audio_algorithm/include/rkaudio_preprocess.h\<close>): the
  tables, the structures, the functions that allocate and fill them, and the functions that
  free them.

  The heap is a map from addresses to the structure stored there. \<open>calloc\<close> is a parameter
  \<open>a\<close>: the address it returns in a heap, \<open>None\<close> for \<open>NULL\<close>; what the code relies on is
  \<open>fresh a\<close>, that the address is not in use. A null or dangling pointer that is read or freed
  makes the operation \<open>None\<close>. A literal of type \<open>float\<close> is \<open>flt\<close>, one of type \<open>double\<close> stored
  into a \<open>float\<close> is \<open>dbl\<close>. The locale \<open>owner\<close> states what a pair of an init and a destroy
  function promises; it is interpreted on the three pairs of the header.
\<close>

subsection \<open>Constants and tables\<close>

definition flt :: "rat \<Rightarrow> rat" where "flt q = fl 24 q"
definition dbl :: "rat \<Rightarrow> rat" where "dbl q = fl 24 (fl 53 q)"

definition NUM_CHANNEL :: nat where "NUM_CHANNEL = 8"
definition NUM_REF_CHANNEL :: int where "NUM_REF_CHANNEL = 0"
definition NUM_DROP_CHANNEL :: int where "NUM_DROP_CHANNEL = 0"
definition REF_POSITION :: int where "REF_POSITION = 1"

definition Array :: "int list" where "Array = [6, 7, 2, 3, 4, 5, 0, 1]"

definition EqPara_16k :: "int list list" where
  "EqPara_16k =
    [[-1, -2, -1, 0, 0, -3, -4, -1, 0, -3, -6, -4, -1],
     [-1, -4, -5, -6, -10, -9, -3, -3, -11, -12, 2, 12, 0],
     [-16, -11, 2, -1, -11, -8, -4, -10, -6, 13, 7, -40, -62],
     [-17, 23, -22, -83, -57, 6, -14, -92, -126, -141, -200, -197, -54],
     [-8, -249, -390, 10, 428, -142, -1341, -1365, 208, 664, -2836, -8715, 32764]]"

definition LimitRatio_tab :: "rat list list" where
  "LimitRatio_tab = [[flt 5, flt 5, flt 5], [flt 5, flt 15, flt 5]]"

definition ThdSplitFreq_tab :: "int list list" where
  "ThdSplitFreq_tab = [[500, 1500], [3500, 6000], [0, 0], [0, 0]]"

definition ThdSupDegree_tab :: "rat list list" where
  "ThdSupDegree_tab =
    [[flt 0.5, flt 0.05, flt 0.05, flt 0.05, flt 0.01, flt 0.01, flt 0.01, flt 0.01, flt 0.01, flt 0.01],
     [flt 0.02, flt 0.02, flt 0.02, flt 0.02, flt 0.02, flt 0.05, flt 0.05, flt 0.05, flt 0.05, flt 0.05],
     [flt 0.001, flt 0.001, flt 0.001, flt 0.001, flt 0.001, flt 0.001, 0, 0, 0, 0],
     [flt 0.001, flt 0.001, flt 0.001, flt 0.001, flt 0.001, flt 0.001, flt 0.001, flt 0.001, flt 0.001, flt 0.001]]"

definition HardSplitFreq_tab :: "int list list" where
  "HardSplitFreq_tab = [[750, 1250], [0, 0], [0, 0], [0, 0], [1500, 3000]]"

definition HardThreshold_tab :: "rat list" where
  "HardThreshold_tab = [dbl 0.15, dbl 0.25, dbl 0.15, dbl 0.15]"

subsection \<open>Enables\<close>

text \<open>The enumerations of flags, each the bit it sets.\<close>

datatype RKAUDIOEnable = RKAUDIO_EN_AEC | RKAUDIO_EN_BF | RKAUDIO_EN_RX | RKAUDIO_EN_CMD

fun audio_bit :: "RKAUDIOEnable \<Rightarrow> int" where
  "audio_bit RKAUDIO_EN_AEC = push_bit 0 1"
| "audio_bit RKAUDIO_EN_BF = push_bit 1 1"
| "audio_bit RKAUDIO_EN_RX = push_bit 2 1"
| "audio_bit RKAUDIO_EN_CMD = push_bit 3 1"

datatype RKAecEnable = EN_DELAY | EN_ARRAY_RESET

fun aec_bit :: "RKAecEnable \<Rightarrow> int" where
  "aec_bit EN_DELAY = push_bit 0 1"
| "aec_bit EN_ARRAY_RESET = push_bit 1 1"

datatype RKPreprocessEnable = EN_Fastaec | EN_Wakeup | EN_Dereverberation | EN_Nlp | EN_AES | EN_Agc
  | EN_Anr | EN_GSC | GSC_Method | EN_Fix | EN_STDT | EN_CNG | EN_EQ | EN_CHN_SELECT | EN_HOWLING
  | EN_DOA | EN_WIND | EN_AINR

fun bf_bit :: "RKPreprocessEnable \<Rightarrow> int" where
  "bf_bit EN_Fastaec = push_bit 0 1"
| "bf_bit EN_Wakeup = push_bit 1 1"
| "bf_bit EN_Dereverberation = push_bit 2 1"
| "bf_bit EN_Nlp = push_bit 3 1"
| "bf_bit EN_AES = push_bit 4 1"
| "bf_bit EN_Agc = push_bit 5 1"
| "bf_bit EN_Anr = push_bit 6 1"
| "bf_bit EN_GSC = push_bit 7 1"
| "bf_bit GSC_Method = push_bit 8 1"
| "bf_bit EN_Fix = push_bit 9 1"
| "bf_bit EN_STDT = push_bit 10 1"
| "bf_bit EN_CNG = push_bit 11 1"
| "bf_bit EN_EQ = push_bit 12 1"
| "bf_bit EN_CHN_SELECT = push_bit 13 1"
| "bf_bit EN_HOWLING = push_bit 14 1"
| "bf_bit EN_DOA = push_bit 15 1"
| "bf_bit EN_WIND = push_bit 16 1"
| "bf_bit EN_AINR = push_bit 17 1"

datatype RkaudioRxEnable = EN_RX_Anr | EN_RX_HOWLING | EN_RX_AGC

fun rx_bit :: "RkaudioRxEnable \<Rightarrow> int" where
  "rx_bit EN_RX_Anr = push_bit 0 1"
| "rx_bit EN_RX_HOWLING = push_bit 1 1"
| "rx_bit EN_RX_AGC = push_bit 2 1"

subsection \<open>Structures\<close>

text \<open>
  A pointer is null, points to a block of the heap, or to the static array \<open>Array\<close>. The
  structures' pointers are \<open>void *\<close> in C, so a block may be of any of the structures.
\<close>

datatype ptr = Null | Dyn nat | Array_p

record SKVAECParameter =
  pos :: int
  drop_ref_channel :: int
  model_aec_en :: int
  delay_len :: int
  look_ahead :: int
  Array_list :: ptr
  filter_len :: int
  delay_para :: ptr

record SKVPreprocessParam =
  model_bf_en :: int
  ref_pos :: int
  Targ :: int
  num_ref_channel :: int
  bf_drop_ref_channel :: int
  dereverb_para :: ptr
  aes_para :: ptr
  nlp_para :: ptr
  anr_para :: ptr
  agc_para :: ptr
  cng_para :: ptr
  dtd_para :: ptr
  eq_para :: ptr
  howl_para :: ptr
  doa_para :: ptr
  ainr_para :: ptr

record RkaudioRxParam =
  model_rx_en :: int
  rx_anr_para :: ptr
  rx_howl_para :: ptr
  rx_agc_para :: ptr

record RKAudioDelayParam =
  MaxFrame :: int
  LeastDelay :: int
  JumpFrame :: int
  DelayOffset :: int
  MicAmpThr :: int
  RefAmpThr :: int
  StartFreq :: int
  EndFreq :: int
  SmoothFactor :: rat

record SKVANRParam =
  noiseFactor :: rat
  swU :: int
  PsiMin :: rat
  PsiMax :: rat
  fGmin :: rat
  Sup_Freq1 :: int
  Sup_Freq2 :: int
  Sup_Energy1 :: rat
  Sup_Energy2 :: rat
  InterV :: int
  BiasMin :: rat
  UpdateFrm :: int
  NPreGammaThr :: rat
  NPreZetaThr :: rat
  SabsGammaThr0 :: rat
  SabsGammaThr1 :: rat
  InfSmooth :: rat
  ProbSmooth :: rat
  CompCoeff :: rat
  PrioriMin :: rat
  PostMax :: rat
  PrioriRatio :: rat
  PrioriRatioLow :: rat
  SplitBand :: int
  PrioriSmooth :: rat
  TranMode :: int

record RKAudioDereverbParam =
  rlsLg :: int
  curveLg :: int
  rls_delay :: int
  forgetting :: rat
  T60 :: rat
  coCoeff :: rat

record RKAudioAESParameter =
  Beta_Up :: rat
  Beta_Down :: rat
  Beta_Up_Low :: rat
  Beta_Down_Low :: rat
  low_freq :: int
  high_freq :: int
  THD_Flag :: int
  HARD_Flag :: int
  LimitRatio :: "rat list list"
  ThdSplitFreq :: "int list list"
  ThdSupDegree :: "rat list list"
  HardSplitFreq :: "int list list"
  HardThreshold :: "rat list"

record RKDTDParam =
  ksiThd_high :: rat
  ksiThd_low :: rat

record RKAGCParam =
  attack_time :: rat
  release_time :: rat
  max_gain :: rat
  max_peak :: rat
  fRth0 :: rat
  fRk0 :: rat
  fRth1 :: rat
  agc_fs :: int
  frmlen :: int
  attenuate_time :: rat
  fRth2 :: rat
  fRk1 :: rat
  fRk2 :: rat
  fLineGainDb :: rat
  swSmL0 :: int
  swSmL1 :: int
  swSmL2 :: int

record RKCNGParam =
  fGain :: rat
  fMpy :: rat
  fSmoothAlpha :: rat
  fSpeechGain :: rat

record RKaudioEqParam =
  shwParaLen :: int
  pfCoeff :: "int list list"

record RKHOWLParam =
  howlMode :: int

record RKDOAParam =
  rad :: rat
  start_freq :: int
  end_freq :: int
  lg_num :: int
  lg_pitch_num :: int

record RKAinrParam =
  ainr_mode :: int
  datrs_optm :: int
  pregain :: rat
  mini_gain :: rat
  alpha1 :: rat
  alpha2 :: rat
  preserve1 :: rat
  preserve2 :: rat
  preserve3 :: rat
  preserve4 :: rat
  sfs_enable :: int
  ainr_Sup_Freq1 :: int
  ainr_Sup_Freq2 :: int
  ainr_Sup_Energy1 :: int
  ainr_Sup_Energy2 :: int
  eq_enable :: int
  speech_eq :: int
  eq_frqs_hz :: "int list"
  eq_gains :: "rat list"
  model_path :: ptr

record RKAUDIOParam =
  model_en :: int
  aec_param :: ptr
  bf_param :: ptr
  rx_param :: ptr
  read_size :: int

datatype block = Delay RKAudioDelayParam | Anr SKVANRParam | Dereverb RKAudioDereverbParam
  | Aes RKAudioAESParameter | Dtd RKDTDParam | Agc RKAGCParam | Cng RKCNGParam
  | Eq RKaudioEqParam | Howl RKHOWLParam | Doa RKDOAParam | Ainr RKAinrParam
  | Aec SKVAECParameter | Bf SKVPreprocessParam | Rx RkaudioRxParam

type_synonym mem = "nat \<rightharpoonup> block"
type_synonym alloc = "mem \<Rightarrow> nat option"

subsection \<open>Table copies\<close>

text \<open>
  \<open>for (i = 0; i < rows; i++) for (j = 0; j < cols; j++) dst[i][j] = src[i][j];\<close>
  with every access inside its array, and the same over one index.
\<close>

definition rd2 :: "'a list list \<Rightarrow> int \<Rightarrow> int \<Rightarrow> 'a option" where
  "rd2 t i j = do { r \<leftarrow> rd t i; rd r j }"

definition wr2 :: "'a list list \<Rightarrow> int \<Rightarrow> int \<Rightarrow> 'a \<Rightarrow> 'a list list option" where
  "wr2 t i j v = do { r \<leftarrow> rd t i; r' \<leftarrow> wr r j v; wr t i r' }"

definition copy1 :: "int \<Rightarrow> 'a list \<Rightarrow> 'a list \<Rightarrow> 'a list option" where
  "copy1 n src = each_c (\<lambda>i dst. do { v \<leftarrow> rd src i; wr dst i v }) [0..n - 1]"

definition copy2 :: "int \<Rightarrow> int \<Rightarrow> 'a list list \<Rightarrow> 'a list list \<Rightarrow> 'a list list option" where
  "copy2 rows cols src =
     each_c (\<lambda>i. each_c (\<lambda>j dst. do { v \<leftarrow> rd2 src i j; wr2 dst i j v }) [0..cols - 1]) [0..rows - 1]"

definition zeros2 :: "nat \<Rightarrow> nat \<Rightarrow> 'a::zero list list" where
  "zeros2 rows cols = replicate rows (replicate cols 0)"

lemma copy1_all:
  assumes "length src = n" "length dst = n"
  shows "copy1 (int n) src dst = Some src"
proof -
  have "copy1 (int n) src (take 0 src @ drop 0 dst) = Some (take n src @ drop n dst)"
    unfolding copy1_def
  proof (rule each_c_count [where S = "\<lambda>i. take i src @ drop i dst"])
    fix i
    assume "i < n"
    with assms show "(do { v \<leftarrow> rd src (int i); wr (take i src @ drop i dst) (int i) v })
        = Some (take (Suc i) src @ drop (Suc i) dst)"
      by (simp add: access_simps list_update_append take_Suc_conv_app_nth
          flip: Cons_nth_drop_Suc)
  qed
  with assms show ?thesis by simp
qed

lemma copy_row:
  assumes "i < length src" "i < length t" "length (src ! i) = n" "length (t ! i) = n"
  shows "each_c (\<lambda>j dst. do { v \<leftarrow> rd2 src (int i) j; wr2 dst (int i) j v }) [0..int n - 1] t
    = Some (t[i := src ! i])"
proof -
  let ?S = "\<lambda>j. t[i := take j (src ! i) @ drop j (t ! i)]"
  have "each_c (\<lambda>j dst. do { v \<leftarrow> rd2 src (int i) j; wr2 dst (int i) j v }) [0..int n - 1] (?S 0)
      = Some (?S n)"
  proof (rule each_c_count)
    fix j
    assume "j < n"
    with assms show "(do { v \<leftarrow> rd2 src (int i) (int j); wr2 (?S j) (int i) (int j) v }) = Some (?S (Suc j))"
      by (simp add: rd2_def wr2_def access_simps list_update_append take_Suc_conv_app_nth
          flip: Cons_nth_drop_Suc)
  qed
  with assms show ?thesis by simp
qed

lemma copy2_all:
  assumes "length src = m" "length dst = m" "\<And>i. i < m \<Longrightarrow> length (src ! i) = n"
    "\<And>i. i < m \<Longrightarrow> length (dst ! i) = n"
  shows "copy2 (int m) (int n) src dst = Some src"
proof -
  have "copy2 (int m) (int n) src (take 0 src @ drop 0 dst) = Some (take m src @ drop m dst)"
    unfolding copy2_def
  proof (rule each_c_count [where S = "\<lambda>i. take i src @ drop i dst"])
    fix i
    assume i: "i < m"
    let ?t = "take i src @ drop i dst"
    from i assms have "each_c (\<lambda>j dst. do { v \<leftarrow> rd2 src (int i) j; wr2 dst (int i) j v }) [0..int n - 1] ?t
        = Some (?t[i := src ! i])"
      by (intro copy_row) (auto simp: nth_append)
    with i assms show "each_c (\<lambda>j dst. do { v \<leftarrow> rd2 src (int i) j; wr2 dst (int i) j v }) [0..int n - 1] ?t
        = Some (take (Suc i) src @ drop (Suc i) dst)"
      by (simp add: list_update_append take_Suc_conv_app_nth flip: Cons_nth_drop_Suc)
  qed
  with assms show ?thesis by simp
qed

subsection \<open>Allocation\<close>

text \<open>
  \<open>calloc (1, size)\<close> and the assignments to the fields of the new block. \<open>fill\<close> takes the
  zeroed structure to the filled one; the pointer is used without a test, so \<open>NULL\<close> faults.
\<close>

definition leaf :: "alloc \<Rightarrow> 'r \<Rightarrow> ('r \<Rightarrow> block option) \<Rightarrow> mem \<Rightarrow> (ptr \<times> mem) option" where
  "leaf a z fill h = do { k \<leftarrow> a h; b \<leftarrow> fill z; Some (Dyn k, h(k \<mapsto> b)) }"

definition delay_zero :: RKAudioDelayParam where
  "delay_zero = \<lparr>MaxFrame = 0, LeastDelay = 0, JumpFrame = 0, DelayOffset = 0, MicAmpThr = 0,
     RefAmpThr = 0, StartFreq = 0, EndFreq = 0, SmoothFactor = 0\<rparr>"

definition rkaudio_delay_param_init :: "alloc \<Rightarrow> mem \<Rightarrow> (ptr \<times> mem) option" where
  "rkaudio_delay_param_init a = leaf a delay_zero (\<lambda>param. Some (Delay (param\<lparr>
     MaxFrame := 32,
     LeastDelay := 0,
     JumpFrame := 12,
     DelayOffset := 1,
     MicAmpThr := 50,
     RefAmpThr := 50,
     StartFreq := 1000,
     EndFreq := 4000,
     SmoothFactor := flt 0.99\<rparr>)))"

definition anr_zero :: SKVANRParam where
  "anr_zero = \<lparr>noiseFactor = 0, swU = 0, PsiMin = 0, PsiMax = 0, fGmin = 0, Sup_Freq1 = 0,
     Sup_Freq2 = 0, Sup_Energy1 = 0, Sup_Energy2 = 0, InterV = 0, BiasMin = 0, UpdateFrm = 0,
     NPreGammaThr = 0, NPreZetaThr = 0, SabsGammaThr0 = 0, SabsGammaThr1 = 0, InfSmooth = 0,
     ProbSmooth = 0, CompCoeff = 0, PrioriMin = 0, PostMax = 0, PrioriRatio = 0,
     PrioriRatioLow = 0, SplitBand = 0, PrioriSmooth = 0, TranMode = 0\<rparr>"

definition rkaudio_anr_param_init_tx :: "alloc \<Rightarrow> mem \<Rightarrow> (ptr \<times> mem) option" where
  "rkaudio_anr_param_init_tx a = leaf a anr_zero (\<lambda>param. Some (Anr (param\<lparr>
     noiseFactor := flt 0.88,
     swU := 12,
     PsiMin := dbl 0.02,
     PsiMax := dbl 0.516,
     fGmin := dbl 0.05,
     Sup_Freq1 := -3588,
     Sup_Freq2 := -3588,
     Sup_Energy1 := flt 10000,
     Sup_Energy2 := flt 10000,
     InterV := 16,
     BiasMin := flt 1.67,
     UpdateFrm := 15,
     NPreGammaThr := flt 4.6,
     NPreZetaThr := flt 1.67,
     SabsGammaThr0 := flt 1,
     SabsGammaThr1 := flt 3,
     InfSmooth := flt 0.8,
     ProbSmooth := flt 0.7,
     CompCoeff := flt 1.4,
     PrioriMin := flt 0.0316,
     PostMax := flt 40,
     PrioriRatio := flt 0.95,
     PrioriRatioLow := flt 0.95,
     SplitBand := 20,
     PrioriSmooth := flt 0.7,
     TranMode := 0\<rparr>)))"

definition dereverb_zero :: RKAudioDereverbParam where
  "dereverb_zero = \<lparr>rlsLg = 0, curveLg = 0, rls_delay = 0, forgetting = 0, T60 = 0, coCoeff = 0\<rparr>"

definition rkaudio_dereverb_param_init :: "alloc \<Rightarrow> mem \<Rightarrow> (ptr \<times> mem) option" where
  "rkaudio_dereverb_param_init a = leaf a dereverb_zero (\<lambda>param. Some (Dereverb (param\<lparr>
     rlsLg := 4,
     curveLg := 30,
     rls_delay := 2,
     forgetting := dbl 0.98,
     T60 := dbl 0.3,
     coCoeff := flt 1\<rparr>)))"

definition aes_zero :: RKAudioAESParameter where
  "aes_zero = \<lparr>Beta_Up = 0, Beta_Down = 0, Beta_Up_Low = 0, Beta_Down_Low = 0, low_freq = 0,
     high_freq = 0, THD_Flag = 0, HARD_Flag = 0, LimitRatio = zeros2 2 3, ThdSplitFreq = zeros2 4 2,
     ThdSupDegree = zeros2 4 10, HardSplitFreq = zeros2 5 2, HardThreshold = replicate 4 0\<rparr>"

definition rkaudio_aes_param_init :: "alloc \<Rightarrow> mem \<Rightarrow> (ptr \<times> mem) option" where
  "rkaudio_aes_param_init a = leaf a aes_zero (\<lambda>param. do {
     lr \<leftarrow> copy2 2 3 LimitRatio_tab (LimitRatio param);
     ts \<leftarrow> copy2 4 2 ThdSplitFreq_tab (ThdSplitFreq param);
     td \<leftarrow> copy2 4 10 ThdSupDegree_tab (ThdSupDegree param);
     hs \<leftarrow> copy2 5 2 HardSplitFreq_tab (HardSplitFreq param);
     ht \<leftarrow> copy1 4 HardThreshold_tab (HardThreshold param);
     Some (Aes (param\<lparr>
       Beta_Up := flt 0.001,
       Beta_Down := flt 0.001,
       Beta_Up_Low := flt 0.001,
       Beta_Down_Low := flt 0.001,
       low_freq := 1250,
       high_freq := 3750,
       THD_Flag := 1,
       HARD_Flag := 1,
       LimitRatio := lr,
       ThdSplitFreq := ts,
       ThdSupDegree := td,
       HardSplitFreq := hs,
       HardThreshold := ht\<rparr>)) })"

definition rkaudio_dtd_param_init :: "alloc \<Rightarrow> mem \<Rightarrow> (ptr \<times> mem) option" where
  "rkaudio_dtd_param_init a = leaf a \<lparr>ksiThd_high = 0, ksiThd_low = 0\<rparr>
     (\<lambda>param. Some (Dtd (param\<lparr>ksiThd_high := flt 0.60, ksiThd_low := flt 0.50\<rparr>)))"

definition agc_zero :: RKAGCParam where
  "agc_zero = \<lparr>attack_time = 0, release_time = 0, max_gain = 0, max_peak = 0, fRth0 = 0, fRk0 = 0,
     fRth1 = 0, agc_fs = 0, frmlen = 0, attenuate_time = 0, fRth2 = 0, fRk1 = 0, fRk2 = 0,
     fLineGainDb = 0, swSmL0 = 0, swSmL1 = 0, swSmL2 = 0\<rparr>"

definition agc_tx :: "RKAGCParam \<Rightarrow> RKAGCParam" where
  "agc_tx param = param\<lparr>
     attack_time := dbl 400,
     release_time := dbl 200,
     max_gain := flt 25,
     max_peak := dbl (-1),
     fRk0 := flt 2,
     fRth2 := flt (-35),
     fRth1 := flt (-83),
     fRth0 := flt (-85),
     agc_fs := 16000,
     frmlen := 256,
     attenuate_time := flt 1000,
     fRk1 := dbl 0.8,
     fRk2 := dbl 0.4,
     fLineGainDb := flt (-25),
     swSmL0 := 0,
     swSmL1 := 80,
     swSmL2 := 80\<rparr>"

definition rkaudio_agc_param_init :: "alloc \<Rightarrow> mem \<Rightarrow> (ptr \<times> mem) option" where
  "rkaudio_agc_param_init a = leaf a agc_zero (\<lambda>param. Some (Agc (agc_tx param)))"

definition rkaudio_cng_param_init :: "alloc \<Rightarrow> mem \<Rightarrow> (ptr \<times> mem) option" where
  "rkaudio_cng_param_init a = leaf a \<lparr>fGain = 0, fMpy = 0, fSmoothAlpha = 0, fSpeechGain = 0\<rparr>
     (\<lambda>param. Some (Cng (param\<lparr>
       fSmoothAlpha := flt 0.99,
       fSpeechGain := 0,
       fGain := dbl 10,
       fMpy := flt 10\<rparr>)))"

definition rkaudio_eq_param_init :: "alloc \<Rightarrow> mem \<Rightarrow> (ptr \<times> mem) option" where
  "rkaudio_eq_param_init a = leaf a \<lparr>shwParaLen = 0, pfCoeff = zeros2 5 13\<rparr> (\<lambda>param. do {
     c \<leftarrow> copy2 5 13 EqPara_16k (pfCoeff param);
     Some (Eq (param\<lparr>shwParaLen := 65, pfCoeff := c\<rparr>)) })"

definition rkaudio_howl_param_init_tx :: "alloc \<Rightarrow> mem \<Rightarrow> (ptr \<times> mem) option" where
  "rkaudio_howl_param_init_tx a = leaf a \<lparr>howlMode = 0\<rparr> (\<lambda>param. Some (Howl (param\<lparr>howlMode := 5\<rparr>)))"

definition rkaudio_doa_param_init :: "alloc \<Rightarrow> mem \<Rightarrow> (ptr \<times> mem) option" where
  "rkaudio_doa_param_init a =
     leaf a \<lparr>rad = 0, start_freq = 0, end_freq = 0, lg_num = 0, lg_pitch_num = 0\<rparr>
     (\<lambda>param. Some (Doa (param\<lparr>
       rad := flt 0.04,
       start_freq := 1000,
       end_freq := 4000,
       lg_num := 40,
       lg_pitch_num := 1\<rparr>)))"

definition ainr_zero :: RKAinrParam where
  "ainr_zero = \<lparr>ainr_mode = 0, datrs_optm = 0, pregain = 0, mini_gain = 0, alpha1 = 0, alpha2 = 0,
     preserve1 = 0, preserve2 = 0, preserve3 = 0, preserve4 = 0, sfs_enable = 0,
     ainr_Sup_Freq1 = 0, ainr_Sup_Freq2 = 0, ainr_Sup_Energy1 = 0, ainr_Sup_Energy2 = 0,
     eq_enable = 0, speech_eq = 0, eq_frqs_hz = replicate 11 0, eq_gains = replicate 11 0,
     model_path = Null\<rparr>"

definition ainr_frqs :: "int list" where
  "ainr_frqs = [0, 800, 1500, 4000, 4100, 4200, 8000, -1, -1, -1, -1]"

definition ainr_gains :: "rat list" where
  "ainr_gains = [dbl 0.25, dbl 1, dbl 1.5, dbl 1.5, dbl 1, dbl 0.5, dbl 0.5, 0, 0, 0, 0]"

definition rkaudio_ainr_param_init :: "alloc \<Rightarrow> mem \<Rightarrow> (ptr \<times> mem) option" where
  "rkaudio_ainr_param_init a = leaf a ainr_zero (\<lambda>param. do {
     fs \<leftarrow> copy1 11 ainr_frqs (eq_frqs_hz param);
     gs \<leftarrow> copy1 11 ainr_gains (eq_gains param);
     Some (Ainr (param\<lparr>
       ainr_mode := 1,
       datrs_optm := 1,
       alpha1 := dbl 0.6,
       alpha2 := dbl 0.80,
       mini_gain := dbl 0.02,
       pregain := dbl 8,
       preserve1 := dbl 1.1,
       preserve2 := dbl 5,
       preserve3 := dbl 0.6,
       preserve4 := dbl 0.95,
       sfs_enable := 0,
       ainr_Sup_Freq1 := -3588,
       ainr_Sup_Freq2 := -3588,
       ainr_Sup_Energy1 := 10000,
       ainr_Sup_Energy2 := 10000,
       eq_enable := 1,
       speech_eq := 1,
       eq_frqs_hz := fs,
       eq_gains := gs\<rparr>)) })"

definition rkaudio_anr_param_init_rx :: "alloc \<Rightarrow> mem \<Rightarrow> (ptr \<times> mem) option" where
  "rkaudio_anr_param_init_rx a = leaf a anr_zero (\<lambda>param. Some (Anr (param\<lparr>
     noiseFactor := flt 0.88,
     swU := 10,
     PsiMin := dbl 0.02,
     PsiMax := dbl 0.516,
     fGmin := dbl 0.05,
     Sup_Freq1 := -3588,
     Sup_Freq2 := -3588,
     Sup_Energy1 := flt 100000,
     Sup_Energy2 := flt 100000,
     InterV := 8,
     BiasMin := flt 1.67,
     UpdateFrm := 15,
     NPreGammaThr := flt 4.6,
     NPreZetaThr := flt 1.67,
     SabsGammaThr0 := flt 1,
     SabsGammaThr1 := flt 3,
     InfSmooth := flt 0.8,
     ProbSmooth := flt 0.7,
     CompCoeff := flt 1.4,
     PrioriMin := flt 0.0316,
     PostMax := flt 40,
     PrioriRatio := flt 0.95,
     PrioriRatioLow := flt 0.95,
     SplitBand := 20,
     PrioriSmooth := flt 0.7,
     TranMode := 0\<rparr>)))"

definition rkaudio_howl_param_init_rx :: "alloc \<Rightarrow> mem \<Rightarrow> (ptr \<times> mem) option" where
  "rkaudio_howl_param_init_rx a = leaf a \<lparr>howlMode = 0\<rparr> (\<lambda>param. Some (Howl (param\<lparr>howlMode := 4\<rparr>)))"

text \<open>
  The receiver's gain control is allocated with \<open>malloc\<close>: its fields start as whatever \<open>junk\<close>
  the memory holds.
\<close>

definition agc_rx :: "RKAGCParam \<Rightarrow> RKAGCParam" where
  "agc_rx param = param\<lparr>
     attack_time := dbl 200,
     release_time := dbl 200,
     max_gain := dbl 5,
     max_peak := flt (-1),
     fRk0 := flt 2,
     fRth2 := flt (-25),
     fRth1 := flt (-35),
     fRth0 := flt (-45),
     agc_fs := 16000,
     frmlen := 256,
     attenuate_time := flt 1000,
     fRk1 := dbl 0.8,
     fRk2 := dbl 0.4,
     fLineGainDb := flt (-25),
     swSmL0 := 40,
     swSmL1 := 80,
     swSmL2 := 80\<rparr>"

definition rkaudio_agc_param_init_rx :: "RKAGCParam \<Rightarrow> alloc \<Rightarrow> mem \<Rightarrow> (ptr \<times> mem) option" where
  "rkaudio_agc_param_init_rx junk a = leaf a junk (\<lambda>param. Some (Agc (agc_rx param)))"

subsection \<open>The three parts\<close>

definition rkaudio_aec_param_init :: "alloc \<Rightarrow> mem \<Rightarrow> (ptr \<times> mem) option" where
  "rkaudio_aec_param_init a h = do {
     k \<leftarrow> a h;
     let param = \<lparr>pos = REF_POSITION, drop_ref_channel = NUM_DROP_CHANNEL, model_aec_en = 0,
       delay_len = 0, look_ahead = 0, Array_list = Array_p, filter_len = 2, delay_para = Null\<rparr>;
     (p, h) \<leftarrow> rkaudio_delay_param_init a (h(k \<mapsto> Aec param));
     Some (Dyn k, h(k \<mapsto> Aec (param\<lparr>delay_para := p\<rparr>))) }"

text \<open>\<open>param->field = init ();\<close> on the structure at \<open>k\<close>.\<close>

definition attach_bf :: "nat \<Rightarrow> (mem \<Rightarrow> (ptr \<times> mem) option)
    \<Rightarrow> (ptr \<Rightarrow> SKVPreprocessParam \<Rightarrow> SKVPreprocessParam) \<Rightarrow> mem \<Rightarrow> mem option" where
  "attach_bf k init put h = do {
     (p, h) \<leftarrow> init h;
     case h k of Some (Bf r) \<Rightarrow> Some (h(k \<mapsto> Bf (put p r))) | _ \<Rightarrow> None }"

definition bf_zero :: SKVPreprocessParam where
  "bf_zero = \<lparr>model_bf_en = 0, ref_pos = 0, Targ = 0, num_ref_channel = 0, bf_drop_ref_channel = 0,
     dereverb_para = Null, aes_para = Null, nlp_para = Null, anr_para = Null, agc_para = Null,
     cng_para = Null, dtd_para = Null, eq_para = Null, howl_para = Null, doa_para = Null,
     ainr_para = Null\<rparr>"

definition rkaudio_preprocess_param_init :: "alloc \<Rightarrow> mem \<Rightarrow> (ptr \<times> mem) option" where
  "rkaudio_preprocess_param_init a h = do {
     k \<leftarrow> a h;
     let h = h(k \<mapsto> Bf (bf_zero\<lparr>
       model_bf_en := bf_bit EN_Wakeup,
       Targ := 0,
       ref_pos := REF_POSITION,
       num_ref_channel := NUM_REF_CHANNEL,
       bf_drop_ref_channel := NUM_DROP_CHANNEL\<rparr>));
     h \<leftarrow> attach_bf k (rkaudio_anr_param_init_tx a) (\<lambda>p. anr_para_update (\<lambda>_. p)) h;
     h \<leftarrow> attach_bf k (rkaudio_dereverb_param_init a) (\<lambda>p. dereverb_para_update (\<lambda>_. p)) h;
     h \<leftarrow> attach_bf k (rkaudio_aes_param_init a) (\<lambda>p. aes_para_update (\<lambda>_. p)) h;
     h \<leftarrow> attach_bf k (rkaudio_dtd_param_init a) (\<lambda>p. dtd_para_update (\<lambda>_. p)) h;
     h \<leftarrow> attach_bf k (rkaudio_agc_param_init a) (\<lambda>p. agc_para_update (\<lambda>_. p)) h;
     h \<leftarrow> attach_bf k (rkaudio_cng_param_init a) (\<lambda>p. cng_para_update (\<lambda>_. p)) h;
     h \<leftarrow> attach_bf k (rkaudio_eq_param_init a) (\<lambda>p. eq_para_update (\<lambda>_. p)) h;
     h \<leftarrow> attach_bf k (rkaudio_howl_param_init_tx a) (\<lambda>p. howl_para_update (\<lambda>_. p)) h;
     h \<leftarrow> attach_bf k (rkaudio_doa_param_init a) (\<lambda>p. doa_para_update (\<lambda>_. p)) h;
     h \<leftarrow> attach_bf k (rkaudio_ainr_param_init a) (\<lambda>p. ainr_para_update (\<lambda>_. p)) h;
     Some (Dyn k, h) }"

definition attach_rx :: "nat \<Rightarrow> (mem \<Rightarrow> (ptr \<times> mem) option)
    \<Rightarrow> (ptr \<Rightarrow> RkaudioRxParam \<Rightarrow> RkaudioRxParam) \<Rightarrow> mem \<Rightarrow> mem option" where
  "attach_rx k init put h = do {
     (p, h) \<leftarrow> init h;
     case h k of Some (Rx r) \<Rightarrow> Some (h(k \<mapsto> Rx (put p r))) | _ \<Rightarrow> None }"

definition rkaudio_rx_param_init :: "RKAGCParam \<Rightarrow> alloc \<Rightarrow> mem \<Rightarrow> (ptr \<times> mem) option" where
  "rkaudio_rx_param_init junk a h = do {
     k \<leftarrow> a h;
     let h = h(k \<mapsto> Rx \<lparr>model_rx_en = rx_bit EN_RX_AGC OR rx_bit EN_RX_Anr OR rx_bit EN_RX_HOWLING,
       rx_anr_para = Null, rx_howl_para = Null, rx_agc_para = Null\<rparr>);
     h \<leftarrow> attach_rx k (rkaudio_anr_param_init_rx a) (\<lambda>p. rx_anr_para_update (\<lambda>_. p)) h;
     h \<leftarrow> attach_rx k (rkaudio_howl_param_init_rx a) (\<lambda>p. rx_howl_para_update (\<lambda>_. p)) h;
     h \<leftarrow> attach_rx k (rkaudio_agc_param_init_rx junk a) (\<lambda>p. rx_agc_para_update (\<lambda>_. p)) h;
     Some (Dyn k, h) }"

subsection \<open>Release\<close>

text \<open>\<open>free (p)\<close>: nothing for null; a pointer that is not to a live block faults.\<close>

fun free_c :: "ptr \<Rightarrow> mem \<Rightarrow> mem option" where
  "free_c Null h = Some h"
| "free_c (Dyn k) h = (if h k = None then None else Some (h(k := None)))"
| "free_c Array_p h = None"

definition rkaudio_aec_param_destory :: "ptr \<Rightarrow> mem \<Rightarrow> mem option" where
  "rkaudio_aec_param_destory p h = (case p of Dyn k \<Rightarrow>
     (case h k of Some (Aec r) \<Rightarrow> do {
        h \<leftarrow> free_c (delay_para r) h;
        if h k = None then None else free_c p (h(k \<mapsto> Aec (r\<lparr>delay_para := Null\<rparr>))) }
      | _ \<Rightarrow> None)
    | _ \<Rightarrow> None)"

text \<open>\<open>free (param->field); param->field = NULL;\<close>\<close>

definition drop_bf :: "nat \<Rightarrow> (SKVPreprocessParam \<Rightarrow> ptr)
    \<Rightarrow> ((ptr \<Rightarrow> ptr) \<Rightarrow> SKVPreprocessParam \<Rightarrow> SKVPreprocessParam) \<Rightarrow> mem \<Rightarrow> mem option" where
  "drop_bf k get upd h = (case h k of Some (Bf r) \<Rightarrow> do {
     h \<leftarrow> free_c (get r) h;
     case h k of Some (Bf r) \<Rightarrow> Some (h(k \<mapsto> Bf (upd (\<lambda>_. Null) r))) | _ \<Rightarrow> None }
   | _ \<Rightarrow> None)"

definition rkaudio_preprocess_param_destory :: "ptr \<Rightarrow> mem \<Rightarrow> mem option" where
  "rkaudio_preprocess_param_destory p h = (case p of Dyn k \<Rightarrow> do {
     h \<leftarrow> drop_bf k dereverb_para dereverb_para_update h;
     h \<leftarrow> drop_bf k aes_para aes_para_update h;
     h \<leftarrow> drop_bf k anr_para anr_para_update h;
     h \<leftarrow> drop_bf k agc_para agc_para_update h;
     h \<leftarrow> (case h k of Some (Bf r) \<Rightarrow> Some (h(k \<mapsto> Bf (r\<lparr>nlp_para := Null\<rparr>))) | _ \<Rightarrow> None);
     h \<leftarrow> drop_bf k cng_para cng_para_update h;
     h \<leftarrow> drop_bf k dtd_para dtd_para_update h;
     h \<leftarrow> drop_bf k eq_para eq_para_update h;
     h \<leftarrow> drop_bf k howl_para howl_para_update h;
     h \<leftarrow> drop_bf k doa_para doa_para_update h;
     h \<leftarrow> drop_bf k ainr_para ainr_para_update h;
     free_c p h }
   | _ \<Rightarrow> None)"

definition drop_rx :: "nat \<Rightarrow> (RkaudioRxParam \<Rightarrow> ptr)
    \<Rightarrow> ((ptr \<Rightarrow> ptr) \<Rightarrow> RkaudioRxParam \<Rightarrow> RkaudioRxParam) \<Rightarrow> mem \<Rightarrow> mem option" where
  "drop_rx k get upd h = (case h k of Some (Rx r) \<Rightarrow> do {
     h \<leftarrow> free_c (get r) h;
     case h k of Some (Rx r) \<Rightarrow> Some (h(k \<mapsto> Rx (upd (\<lambda>_. Null) r))) | _ \<Rightarrow> None }
   | _ \<Rightarrow> None)"

definition rkaudio_rx_param_destory :: "ptr \<Rightarrow> mem \<Rightarrow> mem option" where
  "rkaudio_rx_param_destory p h = (case p of Dyn k \<Rightarrow> do {
     h \<leftarrow> drop_rx k rx_anr_para rx_anr_para_update h;
     h \<leftarrow> drop_rx k rx_howl_para rx_howl_para_update h;
     h \<leftarrow> drop_rx k rx_agc_para rx_agc_para_update h;
     free_c p h }
   | _ \<Rightarrow> None)"

definition rkaudio_param_deinit :: "RKAUDIOParam \<Rightarrow> mem \<Rightarrow> mem option" where
  "rkaudio_param_deinit param h = do {
     h \<leftarrow> (if aec_param param \<noteq> Null then rkaudio_aec_param_destory (aec_param param) h else Some h);
     h \<leftarrow> (if bf_param param \<noteq> Null then rkaudio_preprocess_param_destory (bf_param param) h else Some h);
     if rx_param param \<noteq> Null then rkaudio_rx_param_destory (rx_param param) h else Some h }"

subsection \<open>Ownership\<close>

text \<open>
  What an init and its destroy function promise. The init function adds blocks of its own,
  \<open>F\<close>, and leaves the rest of the heap alone; the destroy function removes exactly these, in
  whatever heap they stand; it faults on a pointer to no live block; and allocation that never
  fails makes the init function succeed.
\<close>

definition fresh :: "alloc \<Rightarrow> bool" where
  "fresh a = (\<forall>h k. a h = Some k \<longrightarrow> k \<notin> dom h)"

definition enough :: "alloc \<Rightarrow> bool" where
  "enough a = (\<forall>h. finite (dom h) \<longrightarrow> a h \<noteq> None)"

definition owned :: "(ptr \<Rightarrow> mem \<Rightarrow> mem option) \<Rightarrow> ptr \<Rightarrow> mem \<Rightarrow> bool" where
  "owned destory p F = (\<forall>g. dom g \<inter> dom F = {} \<longrightarrow> destory p (g ++ F) = Some g)"

locale owner =
  fixes init :: "alloc \<Rightarrow> mem \<Rightarrow> (ptr \<times> mem) option"
    and destory :: "ptr \<Rightarrow> mem \<Rightarrow> mem option"
  assumes init_owned: "fresh a \<Longrightarrow> init a h = Some (p, h') \<Longrightarrow>
      \<exists>k F. p = Dyn k \<and> k \<in> dom F \<and> finite (dom F) \<and> dom F \<inter> dom h = {} \<and> h' = h ++ F
        \<and> owned destory p F"
    and init_enough: "fresh a \<Longrightarrow> enough a \<Longrightarrow> finite (dom h) \<Longrightarrow> init a h \<noteq> None"
    and destory_dangling: "h k = None \<Longrightarrow> destory (Dyn k) h = None"
begin

lemma init_ownedE:
  assumes "fresh a" "init a h = Some (p, h')"
  obtains k F where "p = Dyn k" "k \<in> dom F" "finite (dom F)" "dom F \<inter> dom h = {}" "h' = h ++ F"
    "owned destory p F"
  using init_owned [OF assms] by (elim exE conjE)

lemma destory_init:
  assumes "fresh a" "init a h = Some (p, h')"
  shows "destory p h' = Some h"
proof -
  from init_owned [OF assms] obtain F where "dom F \<inter> dom h = {}" "h' = h ++ F" "owned destory p F"
    by blast
  then show ?thesis unfolding owned_def by (metis inf_commute)
qed

lemma init_succeeds:
  assumes "fresh a" "enough a" "finite (dom h)"
  obtains p h' where "init a h = Some (p, h')" "finite (dom h')"
proof -
  from init_enough [OF assms] obtain p h' where i: "init a h = Some (p, h')" by auto
  obtain F where "finite (dom F)" "h' = h ++ F" by (rule init_ownedE [OF assms(1) i])
  with assms(3) that [OF i] show thesis by simp
qed

lemma init_keeps:
  assumes "fresh a" "init a h = Some (p, h')"
  shows "h \<subseteq>\<^sub>m h'"
proof -
  from init_owned [OF assms] obtain F where "dom F \<inter> dom h = {}" "h' = h ++ F" by blast
  then show ?thesis by (metis map_add_comm map_le_map_add)
qed

text \<open>The pointer that stays behind after the destroy function dangles.\<close>

lemma destory_again:
  assumes "fresh a" "init a h = Some (p, h')" "destory p h' = Some h''"
  shows "destory p h'' = None"
proof -
  from init_owned [OF assms(1,2)] obtain k and F :: mem
    where p: "p = Dyn k" and F: "k \<in> dom F" "dom F \<inter> dom h = {}" by (elim exE conjE) (rule that)
  from F have "k \<notin> dom h" by blast
  then have "h k = None" by (simp add: domIff)
  moreover from destory_init [OF assms(1,2)] assms(3) have "h'' = h" by simp
  ultimately show ?thesis unfolding p using destory_dangling by simp
qed

end

lemma leaf_Some:
  assumes "leaf a z fill h = Some (p, h')" "fresh a"
  obtains k b where "p = Dyn k" "h k = None" "h' = h(k \<mapsto> b)"
proof -
  from assms(1) obtain k b where "a h = Some k" "p = Dyn k" "h' = h(k \<mapsto> b)"
    by (auto simp: leaf_def split: Option.bind_splits)
  moreover from assms(2) this(1) have "h k = None" by (auto simp: fresh_def)
  ultimately show thesis using that by blast
qed

lemma leaf_enough:
  "enough a \<Longrightarrow> finite (dom h) \<Longrightarrow> fill z \<noteq> None \<Longrightarrow> \<exists>k b. leaf a z fill h = Some (Dyn k, h(k \<mapsto> b)) \<and> a h = Some k"
  by (auto simp: leaf_def enough_def split: Option.bind_splits)

named_theorems leaf_inits \<open>the functions that allocate one block\<close>

lemmas [leaf_inits] = rkaudio_delay_param_init_def rkaudio_anr_param_init_tx_def
  rkaudio_dereverb_param_init_def rkaudio_aes_param_init_def rkaudio_dtd_param_init_def
  rkaudio_agc_param_init_def rkaudio_cng_param_init_def rkaudio_eq_param_init_def
  rkaudio_howl_param_init_tx_def rkaudio_doa_param_init_def rkaudio_ainr_param_init_def
  rkaudio_anr_param_init_rx_def rkaudio_howl_param_init_rx_def rkaudio_agc_param_init_rx_def

text \<open>The static tables have the shape of the fields they are copied to.\<close>

lemma table_copies:
  "copy2 2 3 LimitRatio_tab (zeros2 2 3) = Some LimitRatio_tab"
  "copy2 4 2 ThdSplitFreq_tab (zeros2 4 2) = Some ThdSplitFreq_tab"
  "copy2 4 10 ThdSupDegree_tab (zeros2 4 10) = Some ThdSupDegree_tab"
  "copy2 5 2 HardSplitFreq_tab (zeros2 5 2) = Some HardSplitFreq_tab"
  "copy2 5 13 EqPara_16k (zeros2 5 13) = Some EqPara_16k"
  "copy1 4 HardThreshold_tab (replicate 4 0) = Some HardThreshold_tab"
  "copy1 11 ainr_frqs (replicate 11 0) = Some ainr_frqs"
  "copy1 11 ainr_gains (replicate 11 0) = Some ainr_gains"
proof -
  have shape: "copy2 (int m) (int n) src (zeros2 m n) = Some src"
    if "length src = m" "\<forall>r \<in> set src. length r = n" for m n and src :: "'a::zero list list"
    using that by (intro copy2_all) (auto simp: zeros2_def)
  have line: "copy1 (int n) src (replicate n 0) = Some src"
    if "length src = n" for n and src :: "'a::zero list"
    using that by (intro copy1_all) auto
  show "copy2 2 3 LimitRatio_tab (zeros2 2 3) = Some LimitRatio_tab"
    using shape [of LimitRatio_tab 2 3] by (simp add: LimitRatio_tab_def)
  show "copy2 4 2 ThdSplitFreq_tab (zeros2 4 2) = Some ThdSplitFreq_tab"
    using shape [of ThdSplitFreq_tab 4 2] by (simp add: ThdSplitFreq_tab_def)
  show "copy2 4 10 ThdSupDegree_tab (zeros2 4 10) = Some ThdSupDegree_tab"
    using shape [of ThdSupDegree_tab 4 10] by (simp add: ThdSupDegree_tab_def)
  show "copy2 5 2 HardSplitFreq_tab (zeros2 5 2) = Some HardSplitFreq_tab"
    using shape [of HardSplitFreq_tab 5 2] by (simp add: HardSplitFreq_tab_def)
  show "copy2 5 13 EqPara_16k (zeros2 5 13) = Some EqPara_16k"
    using shape [of EqPara_16k 5 13] by (simp add: EqPara_16k_def)
  show "copy1 4 HardThreshold_tab (replicate 4 0) = Some HardThreshold_tab"
    using line [of HardThreshold_tab 4] by (simp add: HardThreshold_tab_def)
  show "copy1 11 ainr_frqs (replicate 11 0) = Some ainr_frqs"
    using line [of ainr_frqs 11] by (simp add: ainr_frqs_def)
  show "copy1 11 ainr_gains (replicate 11 0) = Some ainr_gains"
    using line [of ainr_gains 11] by (simp add: ainr_gains_def)
qed

subsection \<open>The three pairs of functions\<close>

lemma fresh_None: "fresh a \<Longrightarrow> a h = Some k \<Longrightarrow> h k = None"
  by (auto simp: fresh_def)

text \<open>Where allocation does not fail, none of the steps does.\<close>

lemma bind_ok: "\<exists>x. m = Some x \<and> Q x \<Longrightarrow> (\<And>x. Q x \<Longrightarrow> f x \<noteq> None) \<Longrightarrow> m \<bind> f \<noteq> None"
  by auto

lemma alloc_ok: "enough a \<Longrightarrow> finite (dom h) \<Longrightarrow> \<exists>k. a h = Some k \<and> True"
  by (simp add: enough_def)

lemma alloc_then:
  assumes "enough a" "finite (dom h)" "\<And>k. a h = Some k \<Longrightarrow> P (Some k)"
  shows "P (a h)"
  using assms by (cases "a h") (auto simp: enough_def)

text \<open>Disjoint parts of a heap may be listed in any order.\<close>

lemma add_swap: "dom A \<inter> dom B = {} \<Longrightarrow> h ++ A ++ B = h ++ B ++ A"
  by (metis map_add_assoc map_add_comm)

lemma not_in_dom: "dom g \<inter> dom F = {} \<Longrightarrow> F k \<noteq> None \<Longrightarrow> g k = None"
  by (auto simp: domIff)

lemma ownedI:
  assumes "\<And>g. (\<And>k. k \<in> dom F \<Longrightarrow> g k = None) \<Longrightarrow> destory p (g ++ F) = Some g"
  shows "owned destory p F"
  unfolding owned_def
proof (intro allI impI)
  fix g :: mem
  assume "dom g \<inter> dom F = {}"
  then have "\<And>k. k \<in> dom F \<Longrightarrow> g k = None" by (auto simp: domIff)
  then show "destory p (g ++ F) = Some g" by (rule assms)
qed

lemma aec_init_cases:
  assumes "rkaudio_aec_param_init a h = Some (p, h')" "fresh a"
  obtains k d r b where "p = Dyn k" "h k = None" "h d = None" "d \<noteq> k"
    "h' = h(k \<mapsto> Aec r, d \<mapsto> b)" "delay_para r = Dyn d"
proof -
  let ?r = "\<lambda>q. \<lparr>pos = REF_POSITION, drop_ref_channel = NUM_DROP_CHANNEL, model_aec_en = 0,
    delay_len = 0, look_ahead = 0, Array_list = Array_p, filter_len = 2, delay_para = q\<rparr>"
  from assms(1) obtain k q h1 where k: "a h = Some k"
    and init: "rkaudio_delay_param_init a (h(k \<mapsto> Aec (?r Null))) = Some (q, h1)"
    and p: "p = Dyn k" and h': "h' = h1(k \<mapsto> Aec (?r q))"
    by (auto simp: rkaudio_aec_param_init_def split: Option.bind_splits)
  from init assms(2) obtain d b where d: "q = Dyn d" "(h(k \<mapsto> Aec (?r Null))) d = None"
    "h1 = h(k \<mapsto> Aec (?r Null), d \<mapsto> b)"
    unfolding rkaudio_delay_param_init_def by (rule leaf_Some)
  then have "d \<noteq> k" "h d = None" by (auto split: if_splits)
  moreover from this d h' have "h' = h(k \<mapsto> Aec (?r (Dyn d)), d \<mapsto> b)" by (simp add: fun_upd_twist)
  moreover from fresh_None [OF assms(2) k] have "h k = None" .
  ultimately show thesis using p that [of k d "?r (Dyn d)" b] by simp
qed

interpretation aec: owner rkaudio_aec_param_init rkaudio_aec_param_destory
proof
  fix a h p h'
  assume "fresh a" "rkaudio_aec_param_init a h = Some (p, h')"
  then obtain k d r b where p: "p = Dyn k" and n: "h k = None" "h d = None" "d \<noteq> k"
    and h': "h' = h(k \<mapsto> Aec r, d \<mapsto> b)" and r: "delay_para r = Dyn d"
    by (elim aec_init_cases)
  let ?F = "[k \<mapsto> Aec r, d \<mapsto> b] :: mem"
  have "owned rkaudio_aec_param_destory p ?F"
  proof (rule ownedI)
    fix g :: mem
    assume "\<And>x. x \<in> dom ?F \<Longrightarrow> g x = None"
    then have "g k = None" "g d = None" by auto
    then have "(g ++ ?F)(d := None, k := None) = g" by (auto simp: fun_eq_iff)
    with n r p show "rkaudio_aec_param_destory p (g ++ ?F) = Some g"
      by (simp add: rkaudio_aec_param_destory_def)
  qed
  moreover have "k \<in> dom ?F" "dom ?F \<inter> dom h = {}" "h' = h ++ ?F" using n h' by auto
  moreover have "finite (dom ?F)" by simp
  ultimately show "\<exists>k F. p = Dyn k \<and> k \<in> dom F \<and> finite (dom F) \<and> dom F \<inter> dom h = {} \<and> h' = h ++ F
      \<and> owned rkaudio_aec_param_destory p F" using p by blast
next
  fix a and h :: mem
  assume "fresh a" "enough a" "finite (dom h)"
  then show "rkaudio_aec_param_init a h \<noteq> None"
    unfolding rkaudio_aec_param_init_def rkaudio_delay_param_init_def leaf_def Let_def
    by (intro bind_ok [OF alloc_ok]) (simp_all del: fun_upd_apply, elim alloc_then, simp_all del: fun_upd_apply)
next
  fix h :: mem and k
  assume "h k = None"
  then show "rkaudio_aec_param_destory (Dyn k) h = None" by (simp add: rkaudio_aec_param_destory_def)
qed

text \<open>
  For the two larger structures: a heap is written \<open>M(k \<mapsto> Bf r)\<close>, with the structure's block
  last. Attaching a part adds one block to \<open>M\<close>, dropping a part removes it.
\<close>

lemma attach_bf_leaf:
  assumes "attach_bf k (leaf a z fill) put (M(k \<mapsto> Bf r)) = Some h'" "fresh a"
  obtains d b where "d \<noteq> k" "M d = None" "h' = M(d \<mapsto> b, k \<mapsto> Bf (put (Dyn d) r))"
proof -
  from assms(1) obtain p h1 where init: "leaf a z fill (M(k \<mapsto> Bf r)) = Some (p, h1)"
    by (auto simp: attach_bf_def split: Option.bind_splits)
  from leaf_Some [OF this assms(2)] obtain d b
    where d: "p = Dyn d" "(M(k \<mapsto> Bf r)) d = None" "h1 = M(k \<mapsto> Bf r, d \<mapsto> b)" by metis
  then have "d \<noteq> k" "M d = None" by (auto split: if_splits)
  moreover from this d init assms(1) have "h' = M(d \<mapsto> b, k \<mapsto> Bf (put (Dyn d) r))"
    by (simp add: attach_bf_def fun_upd_twist)
  ultimately show thesis by (rule that)
qed

lemma attach_rx_leaf:
  assumes "attach_rx k (leaf a z fill) put (M(k \<mapsto> Rx r)) = Some h'" "fresh a"
  obtains d b where "d \<noteq> k" "M d = None" "h' = M(d \<mapsto> b, k \<mapsto> Rx (put (Dyn d) r))"
proof -
  from assms(1) obtain p h1 where init: "leaf a z fill (M(k \<mapsto> Rx r)) = Some (p, h1)"
    by (auto simp: attach_rx_def split: Option.bind_splits)
  from leaf_Some [OF this assms(2)] obtain d b
    where d: "p = Dyn d" "(M(k \<mapsto> Rx r)) d = None" "h1 = M(k \<mapsto> Rx r, d \<mapsto> b)" by metis
  then have "d \<noteq> k" "M d = None" by (auto split: if_splits)
  moreover from this d init assms(1) have "h' = M(d \<mapsto> b, k \<mapsto> Rx (put (Dyn d) r))"
    by (simp add: attach_rx_def fun_upd_twist)
  ultimately show thesis by (rule that)
qed

lemma attach_bf_ok:
  assumes "finite (dom h) \<and> (\<exists>r. h k = Some (Bf r))" "fresh a" "enough a" "fill z \<noteq> None"
  shows "\<exists>h'. attach_bf k (leaf a z fill) put h = Some h' \<and> finite (dom h') \<and> (\<exists>r. h' k = Some (Bf r))"
proof -
  from leaf_enough [where fill = fill and z = z, OF assms(3) conjunct1 [OF assms(1)] assms(4)] obtain d b
    where "leaf a z fill h = Some (Dyn d, h(d \<mapsto> b))" "a h = Some d" by blast
  moreover from fresh_None [OF assms(2) this(2)] assms(1) have "d \<noteq> k" by auto
  ultimately show ?thesis using assms(1) by (auto simp: attach_bf_def)
qed

lemma attach_rx_ok:
  assumes "finite (dom h) \<and> (\<exists>r. h k = Some (Rx r))" "fresh a" "enough a" "fill z \<noteq> None"
  shows "\<exists>h'. attach_rx k (leaf a z fill) put h = Some h' \<and> finite (dom h') \<and> (\<exists>r. h' k = Some (Rx r))"
proof -
  from leaf_enough [where fill = fill and z = z, OF assms(3) conjunct1 [OF assms(1)] assms(4)] obtain d b
    where "leaf a z fill h = Some (Dyn d, h(d \<mapsto> b))" "a h = Some d" by blast
  moreover from fresh_None [OF assms(2) this(2)] assms(1) have "d \<noteq> k" by auto
  ultimately show ?thesis using assms(1) by (auto simp: attach_rx_def)
qed

lemma drop_bf_block [simp]:
  assumes "get r = Dyn d" "d \<noteq> k" "M d \<noteq> None"
  shows "drop_bf k get upd (M(k \<mapsto> Bf r)) = Some ((M(d := None))(k \<mapsto> Bf (upd (\<lambda>_. Null) r)))"
  using assms by (simp add: drop_bf_def fun_upd_twist)

lemma drop_rx_block [simp]:
  assumes "get r = Dyn d" "d \<noteq> k" "M d \<noteq> None"
  shows "drop_rx k get upd (M(k \<mapsto> Rx r)) = Some ((M(d := None))(k \<mapsto> Rx (upd (\<lambda>_. Null) r)))"
  using assms by (simp add: drop_rx_def fun_upd_twist)

lemma rx_init_cases:
  assumes "rkaudio_rx_param_init junk a h = Some (p, h')" "fresh a"
  obtains k x y z bx bv bz r where "p = Dyn k" "h k = None" "h x = None" "h y = None" "h z = None"
    "distinct [k, x, y, z]" "h' = h(x \<mapsto> bx, y \<mapsto> bv, z \<mapsto> bz, k \<mapsto> Rx r)"
    "rx_anr_para r = Dyn x" "rx_howl_para r = Dyn y" "rx_agc_para r = Dyn z"
proof -
  let ?r = "\<lparr>model_rx_en = rx_bit EN_RX_AGC OR rx_bit EN_RX_Anr OR rx_bit EN_RX_HOWLING,
    rx_anr_para = Null, rx_howl_para = Null, rx_agc_para = Null\<rparr>"
  from assms(1) obtain k h1 h2 where k: "a h = Some k"
    and s1: "attach_rx k (rkaudio_anr_param_init_rx a) (\<lambda>p. rx_anr_para_update (\<lambda>_. p)) (h(k \<mapsto> Rx ?r)) = Some h1"
    and s2: "attach_rx k (rkaudio_howl_param_init_rx a) (\<lambda>p. rx_howl_para_update (\<lambda>_. p)) h1 = Some h2"
    and s3: "attach_rx k (rkaudio_agc_param_init_rx junk a) (\<lambda>p. rx_agc_para_update (\<lambda>_. p)) h2 = Some h'"
    and p: "p = Dyn k"
    by (auto simp: rkaudio_rx_param_init_def Let_def split: Option.bind_splits)
  note leaf = attach_rx_leaf [OF _ assms(2)]
  from s1 obtain x bx where x: "x \<noteq> k" "h x = None"
    and h1: "h1 = h(x \<mapsto> bx, k \<mapsto> Rx (?r\<lparr>rx_anr_para := Dyn x\<rparr>))"
    unfolding leaf_inits by (rule leaf)
  from s2 [unfolded h1] obtain y bv where y: "y \<noteq> k" "(h(x \<mapsto> bx)) y = None"
    and h2: "h2 = h(x \<mapsto> bx, y \<mapsto> bv, k \<mapsto> Rx (?r\<lparr>rx_anr_para := Dyn x, rx_howl_para := Dyn y\<rparr>))"
    unfolding leaf_inits by (rule leaf)
  from s3 [unfolded h2] obtain z bz where z: "z \<noteq> k" "(h(x \<mapsto> bx, y \<mapsto> bv)) z = None"
    and h3: "h' = h(x \<mapsto> bx, y \<mapsto> bv, z \<mapsto> bz,
      k \<mapsto> Rx (?r\<lparr>rx_anr_para := Dyn x, rx_howl_para := Dyn y, rx_agc_para := Dyn z\<rparr>))"
    unfolding leaf_inits by (rule leaf)
  from x y z have "distinct [k, x, y, z]" "h y = None" "h z = None" by (auto split: if_splits)
  moreover from fresh_None [OF assms(2) k] have "h k = None" .
  ultimately show thesis using that [OF p _ x(2) _ _ _ h3] by simp
qed

interpretation rx: owner "rkaudio_rx_param_init junk" rkaudio_rx_param_destory for junk
proof
  fix a h p h'
  assume "fresh a" "rkaudio_rx_param_init junk a h = Some (p, h')"
  then obtain k x y z bx bv bz r where p: "p = Dyn k"
    and n: "h k = None" "h x = None" "h y = None" "h z = None" "distinct [k, x, y, z]"
    and h': "h' = h(x \<mapsto> bx, y \<mapsto> bv, z \<mapsto> bz, k \<mapsto> Rx r)"
    and r: "rx_anr_para r = Dyn x" "rx_howl_para r = Dyn y" "rx_agc_para r = Dyn z"
    by (elim rx_init_cases)
  let ?F = "[x \<mapsto> bx, y \<mapsto> bv, z \<mapsto> bz, k \<mapsto> Rx r] :: mem"
  have "owned rkaudio_rx_param_destory p ?F"
  proof (rule ownedI)
    fix g :: mem
    assume "\<And>i. i \<in> dom ?F \<Longrightarrow> g i = None"
    then have "g k = None" "g x = None" "g y = None" "g z = None" by auto
    then have "(g(x \<mapsto> bx, y \<mapsto> bv, z \<mapsto> bz))(x := None, y := None, z := None, k := None) = g"
      by (auto simp: fun_eq_iff)
    with n r p show "rkaudio_rx_param_destory p (g ++ ?F) = Some g"
      by (simp add: rkaudio_rx_param_destory_def)
  qed
  moreover have "k \<in> dom ?F" "dom ?F \<inter> dom h = {}" "h' = h ++ ?F" using n h' by auto
  moreover have "finite (dom ?F)" by simp
  ultimately show "\<exists>k F. p = Dyn k \<and> k \<in> dom F \<and> finite (dom F) \<and> dom F \<inter> dom h = {} \<and> h' = h ++ F
      \<and> owned rkaudio_rx_param_destory p F" using p by blast
next
  fix a and h :: mem
  assume "fresh a" "enough a" "finite (dom h)"
  then show "rkaudio_rx_param_init junk a h \<noteq> None"
    unfolding rkaudio_rx_param_init_def leaf_inits Let_def
    by (intro bind_ok [OF alloc_ok] bind_ok [OF attach_rx_ok]) auto
next
  fix h :: mem and k
  assume "h k = None"
  then show "rkaudio_rx_param_destory (Dyn k) h = None"
    by (simp add: rkaudio_rx_param_destory_def drop_rx_def)
qed

text \<open>
  The structure with ten parts: the blocks attached so far are a map \<open>F\<close> of their own. A step adds
  a block to it, and five steps are taken twice.
\<close>

lemma attach_bf_step:
  assumes "attach_bf k (leaf a z fill) put ((h ++ F)(k \<mapsto> Bf r)) = Some h'" "fresh a"
    and "k \<notin> dom F" "dom F \<inter> dom h = {}"
  obtains d F' where "d \<notin> dom F" "dom F' = insert d (dom F)" "k \<notin> dom F'" "dom F' \<inter> dom h = {}"
    "h' = (h ++ F')(k \<mapsto> Bf (put (Dyn d) r))"
proof -
  from assms(1,2) obtain d b where d: "d \<noteq> k" "(h ++ F) d = None"
    and h': "h' = (h ++ F)(d \<mapsto> b, k \<mapsto> Bf (put (Dyn d) r))" by (rule attach_bf_leaf)
  from d(2) have n: "d \<notin> dom F" "d \<notin> dom h" by (auto simp: map_add_None)
  show thesis
  proof (rule that [of d "F(d \<mapsto> b)"])
    show "d \<notin> dom F" by (rule n)
    show "dom (F(d \<mapsto> b)) = insert d (dom F)" by simp
    show "k \<notin> dom (F(d \<mapsto> b))" using d(1) assms(3) by simp
    show "dom (F(d \<mapsto> b)) \<inter> dom h = {}" using n assms(4) by simp
    show "h' = (h ++ F(d \<mapsto> b))(k \<mapsto> Bf (put (Dyn d) r))" using h' by simp
  qed
qed

lemma attach_bf_five:
  assumes "attach_bf k (leaf a z1 f1) p1 ((h ++ F)(k \<mapsto> Bf r)) = Some h1"
    "attach_bf k (leaf a z2 f2) p2 h1 = Some h2"
    "attach_bf k (leaf a z3 f3) p3 h2 = Some h3"
    "attach_bf k (leaf a z4 f4) p4 h3 = Some h4"
    "attach_bf k (leaf a z5 f5) p5 h4 = Some h5" "fresh a" "k \<notin> dom F" "dom F \<inter> dom h = {}"
  obtains d1 d2 d3 d4 d5 F' where "distinct [d1, d2, d3, d4, d5]" "set [d1, d2, d3, d4, d5] \<inter> dom F = {}"
    "dom F' = set [d1, d2, d3, d4, d5] \<union> dom F" "k \<notin> dom F'" "dom F' \<inter> dom h = {}"
    "h5 = (h ++ F')(k \<mapsto> Bf (p5 (Dyn d5) (p4 (Dyn d4) (p3 (Dyn d3) (p2 (Dyn d2) (p1 (Dyn d1) r))))))"
proof -
  note step = attach_bf_step [OF _ assms(6)]
  from assms(1,7,8) obtain d1 F1 where 1: "d1 \<notin> dom F" "dom F1 = insert d1 (dom F)"
    "k \<notin> dom F1" "dom F1 \<inter> dom h = {}" and h1: "h1 = (h ++ F1)(k \<mapsto> Bf (p1 (Dyn d1) r))" by (rule step)
  from assms(2) [unfolded h1] 1(3,4) obtain d2 F2 where 2: "d2 \<notin> dom F1" "dom F2 = insert d2 (dom F1)"
    "k \<notin> dom F2" "dom F2 \<inter> dom h = {}" and h2: "h2 = (h ++ F2)(k \<mapsto> Bf (p2 (Dyn d2) (p1 (Dyn d1) r)))"
    by (rule step)
  from assms(3) [unfolded h2] 2(3,4) obtain d3 F3 where 3: "d3 \<notin> dom F2" "dom F3 = insert d3 (dom F2)"
    "k \<notin> dom F3" "dom F3 \<inter> dom h = {}"
    and h3: "h3 = (h ++ F3)(k \<mapsto> Bf (p3 (Dyn d3) (p2 (Dyn d2) (p1 (Dyn d1) r))))" by (rule step)
  from assms(4) [unfolded h3] 3(3,4) obtain d4 F4 where 4: "d4 \<notin> dom F3" "dom F4 = insert d4 (dom F3)"
    "k \<notin> dom F4" "dom F4 \<inter> dom h = {}"
    and h4: "h4 = (h ++ F4)(k \<mapsto> Bf (p4 (Dyn d4) (p3 (Dyn d3) (p2 (Dyn d2) (p1 (Dyn d1) r)))))" by (rule step)
  from assms(5) [unfolded h4] 4(3,4) obtain d5 F5 where 5: "d5 \<notin> dom F4" "dom F5 = insert d5 (dom F4)"
    "k \<notin> dom F5" "dom F5 \<inter> dom h = {}"
    and h5: "h5 = (h ++ F5)(k \<mapsto> Bf (p5 (Dyn d5) (p4 (Dyn d4) (p3 (Dyn d3) (p2 (Dyn d2) (p1 (Dyn d1) r))))))"
    by (rule step)
  note D = 1(2) 2(2) 3(2) 4(2)
  show thesis
  proof (rule that [OF _ _ _ 5(3,4) h5])
    show "distinct [d1, d2, d3, d4, d5]" "set [d1, d2, d3, d4, d5] \<inter> dom F = {}"
      using 1(1) 2(1) 3(1) 4(1) 5(1) unfolding D by auto
    show "dom F5 = set [d1, d2, d3, d4, d5] \<union> dom F" unfolding 5(2) D by auto
  qed
qed

lemma bf_init_cases:
  assumes "rkaudio_preprocess_param_init a h = Some (p, h')" "fresh a"
  obtains k d1 d2 d3 d4 d5 d6 d7 d8 d9 d10 F r
  where "p = Dyn k" "k \<notin> dom h" "k \<notin> dom F" "dom F = set [d1, d2, d3, d4, d5, d6, d7, d8, d9, d10]"
    "distinct [d1, d2, d3, d4, d5, d6, d7, d8, d9, d10]" "dom F \<inter> dom h = {}" "h' = (h ++ F)(k \<mapsto> Bf r)"
    "anr_para r = Dyn d1" "dereverb_para r = Dyn d2" "aes_para r = Dyn d3" "dtd_para r = Dyn d4"
    "agc_para r = Dyn d5" "cng_para r = Dyn d6" "eq_para r = Dyn d7" "howl_para r = Dyn d8"
    "doa_para r = Dyn d9" "ainr_para r = Dyn d10"
proof -
  let ?r = "bf_zero\<lparr>model_bf_en := bf_bit EN_Wakeup, Targ := 0, ref_pos := REF_POSITION,
    num_ref_channel := NUM_REF_CHANNEL, bf_drop_ref_channel := NUM_DROP_CHANNEL\<rparr>"
  from assms(1) obtain k h1 h2 h3 h4 h5 h6 h7 h8 h9 where k: "a h = Some k" and p: "p = Dyn k"
    and s1: "attach_bf k (rkaudio_anr_param_init_tx a) (\<lambda>p. anr_para_update (\<lambda>_. p)) ((h ++ Map.empty)(k \<mapsto> Bf ?r)) = Some h1"
      "attach_bf k (rkaudio_dereverb_param_init a) (\<lambda>p. dereverb_para_update (\<lambda>_. p)) h1 = Some h2"
      "attach_bf k (rkaudio_aes_param_init a) (\<lambda>p. aes_para_update (\<lambda>_. p)) h2 = Some h3"
      "attach_bf k (rkaudio_dtd_param_init a) (\<lambda>p. dtd_para_update (\<lambda>_. p)) h3 = Some h4"
      "attach_bf k (rkaudio_agc_param_init a) (\<lambda>p. agc_para_update (\<lambda>_. p)) h4 = Some h5"
    and s2: "attach_bf k (rkaudio_cng_param_init a) (\<lambda>p. cng_para_update (\<lambda>_. p)) h5 = Some h6"
      "attach_bf k (rkaudio_eq_param_init a) (\<lambda>p. eq_para_update (\<lambda>_. p)) h6 = Some h7"
      "attach_bf k (rkaudio_howl_param_init_tx a) (\<lambda>p. howl_para_update (\<lambda>_. p)) h7 = Some h8"
      "attach_bf k (rkaudio_doa_param_init a) (\<lambda>p. doa_para_update (\<lambda>_. p)) h8 = Some h9"
      "attach_bf k (rkaudio_ainr_param_init a) (\<lambda>p. ainr_para_update (\<lambda>_. p)) h9 = Some h'"
    unfolding rkaudio_preprocess_param_init_def Let_def map_add_empty by (auto split: Option.bind_splits)
  have "k \<notin> dom Map.empty" "dom Map.empty \<inter> dom h = {}" by simp_all
  from s1 [unfolded leaf_inits] assms(2) this obtain d1 d2 d3 d4 d5 F where
    1: "distinct [d1, d2, d3, d4, d5]" "dom F = set [d1, d2, d3, d4, d5] \<union> dom (Map.empty :: mem)"
      "k \<notin> dom F" "dom F \<inter> dom h = {}"
    and h5: "h5 = (h ++ F)(k \<mapsto> Bf (?r\<lparr>anr_para := Dyn d1, dereverb_para := Dyn d2, aes_para := Dyn d3,
      dtd_para := Dyn d4, agc_para := Dyn d5\<rparr>))"
    by (rule attach_bf_five)
  from s2 [unfolded leaf_inits h5] assms(2) 1(3,4) obtain d6 d7 d8 d9 d10 F' where
    2: "distinct [d6, d7, d8, d9, d10]" "set [d6, d7, d8, d9, d10] \<inter> dom F = {}"
      "dom F' = set [d6, d7, d8, d9, d10] \<union> dom F" "k \<notin> dom F'" "dom F' \<inter> dom h = {}"
    and h': "h' = (h ++ F')(k \<mapsto> Bf (?r\<lparr>anr_para := Dyn d1, dereverb_para := Dyn d2, aes_para := Dyn d3,
      dtd_para := Dyn d4, agc_para := Dyn d5, cng_para := Dyn d6, eq_para := Dyn d7,
      howl_para := Dyn d8, doa_para := Dyn d9, ainr_para := Dyn d10\<rparr>))"
    by (rule attach_bf_five)
  have n: "k \<notin> dom h" using fresh_None [OF assms(2) k] by (simp add: domIff)
  have D: "dom F' = set [d1, d2, d3, d4, d5, d6, d7, d8, d9, d10]" using 1(2) 2(3) by auto
  have "distinct ([d1, d2, d3, d4, d5] @ [d6, d7, d8, d9, d10])"
    unfolding distinct_append using 1(1,2) 2(1,2) by blast
  then have "distinct [d1, d2, d3, d4, d5, d6, d7, d8, d9, d10]" by (simp only: append.simps)
  from that [OF p n 2(4) D this 2(5) h'] show thesis by simp
qed

text \<open>Dropping a part restricts the heap of the parts; when all are dropped, none of \<open>F\<close> is left.\<close>

lemma drop_bf_part:
  assumes "get r = Dyn d" "d \<in> dom M" "k \<notin> dom M"
  shows "drop_bf k get upd (M(k \<mapsto> Bf r)) = Some ((M |` (- {d}))(k \<mapsto> Bf (upd (\<lambda>_. Null) r)))"
proof -
  have "d \<noteq> k" "M d \<noteq> None" "M(d := None) = M |` (- {d})" using assms by (auto simp: restrict_map_def)
  with assms(1) show ?thesis by simp
qed

lemma restrict_None:
  assumes "k \<notin> dom M"
  shows "(M |` A)(k := None) = M |` A"
  using assms by (auto simp: restrict_map_def domIff)

lemma bf_destory_parts:
  assumes d: "distinct [d1, d2, d3, d4, d5, d6, d7, d8, d9, d10]" and k: "k \<notin> dom M"
    and M: "set [d1, d2, d3, d4, d5, d6, d7, d8, d9, d10] \<subseteq> dom M"
    and r: "anr_para r = Dyn d1" "dereverb_para r = Dyn d2" "aes_para r = Dyn d3" "dtd_para r = Dyn d4"
      "agc_para r = Dyn d5" "cng_para r = Dyn d6" "eq_para r = Dyn d7" "howl_para r = Dyn d8"
      "doa_para r = Dyn d9" "ainr_para r = Dyn d10"
  shows "rkaudio_preprocess_param_destory (Dyn k) (M(k \<mapsto> Bf r)) =
    Some (M |` (- set [d1, d2, d3, d4, d5, d6, d7, d8, d9, d10]))"
proof -
  from d have "distinct (rev [d1, d2, d3, d4, d5, d6, d7, d8, d9, d10])"
    by (simp only: distinct_rev)
  note ne = d [simplified] this [simplified]
  have "rkaudio_preprocess_param_destory (Dyn k) (M(k \<mapsto> Bf r)) = Some (M |` (- {d2} \<inter> - {d3} \<inter> - {d1}
      \<inter> - {d5} \<inter> - {d6} \<inter> - {d4} \<inter> - {d7} \<inter> - {d8} \<inter> - {d9} \<inter> - {d10}))"
    using M k by (simp add: rkaudio_preprocess_param_destory_def drop_bf_part restrict_None ne r
      del: drop_bf_block fun_upd_None_restrict)
  also have "- {d2} \<inter> - {d3} \<inter> - {d1} \<inter> - {d5} \<inter> - {d6} \<inter> - {d4} \<inter> - {d7} \<inter> - {d8} \<inter> - {d9} \<inter> - {d10} =
      - set [d1, d2, d3, d4, d5, d6, d7, d8, d9, d10]" by auto
  finally show ?thesis .
qed

interpretation bf: owner rkaudio_preprocess_param_init rkaudio_preprocess_param_destory
proof
  fix a h p h'
  assume "fresh a" "rkaudio_preprocess_param_init a h = Some (p, h')"
  then obtain k d1 d2 d3 d4 d5 d6 d7 d8 d9 d10 F r
    where p: "p = Dyn k" and n: "k \<notin> dom h" "k \<notin> dom F"
    and D: "dom F = set [d1, d2, d3, d4, d5, d6, d7, d8, d9, d10]"
    and d: "distinct [d1, d2, d3, d4, d5, d6, d7, d8, d9, d10]" "dom F \<inter> dom h = {}"
    and h': "h' = (h ++ F)(k \<mapsto> Bf r)"
    and r: "anr_para r = Dyn d1" "dereverb_para r = Dyn d2" "aes_para r = Dyn d3" "dtd_para r = Dyn d4"
      "agc_para r = Dyn d5" "cng_para r = Dyn d6" "eq_para r = Dyn d7" "howl_para r = Dyn d8"
      "doa_para r = Dyn d9" "ainr_para r = Dyn d10"
    by (elim bf_init_cases)
  let ?F = "F(k \<mapsto> Bf r)"
  have "owned rkaudio_preprocess_param_destory p ?F"
  proof (rule ownedI)
    fix g :: mem
    assume g: "\<And>i. i \<in> dom ?F \<Longrightarrow> g i = None"
    from g [of k] n(2) have "k \<notin> dom (g ++ F)" by (simp add: domIff)
    moreover have "set [d1, d2, d3, d4, d5, d6, d7, d8, d9, d10] \<subseteq> dom (g ++ F)" using D by auto
    ultimately have "rkaudio_preprocess_param_destory p ((g ++ F)(k \<mapsto> Bf r)) = Some ((g ++ F) |` (- dom F))"
      unfolding p D by (rule bf_destory_parts [OF d(1) _ _ r])
    also have "(g ++ F) |` (- dom F) = g"
      using g by (auto simp: fun_eq_iff restrict_map_def map_add_dom_app_simps)
    finally show "rkaudio_preprocess_param_destory p (g ++ ?F) = Some g" unfolding map_add_upd .
  qed
  moreover have "k \<in> dom ?F" "dom ?F \<inter> dom h = {}" "h' = h ++ ?F" using n d(2) h' by auto
  moreover have "finite (dom ?F)" using D by simp
  ultimately show "\<exists>k F. p = Dyn k \<and> k \<in> dom F \<and> finite (dom F) \<and> dom F \<inter> dom h = {} \<and> h' = h ++ F
      \<and> owned rkaudio_preprocess_param_destory p F" using p by blast
next
  fix a and h :: mem
  assume "fresh a" "enough a" "finite (dom h)"
  then show "rkaudio_preprocess_param_init a h \<noteq> None"
    unfolding rkaudio_preprocess_param_init_def leaf_inits Let_def
    by (intro bind_ok [OF alloc_ok] bind_ok [OF attach_bf_ok])
      (auto simp: aes_zero_def ainr_zero_def table_copies)
next
  fix h :: mem and k
  assume "h k = None"
  then show "rkaudio_preprocess_param_destory (Dyn k) h = None"
    by (simp add: rkaudio_preprocess_param_destory_def drop_bf_def)
qed

subsection \<open>Properties\<close>

text \<open>C15. The parameters of the three parts, made one after the other by their init functions, are
  released by \<open>rkaudio_param_deinit\<close> to the block: it frees what the init functions allocated,
  once each, nothing else (not the static channel table), and leaves the heap as it was before
  them. The structure keeps its pointers, so a second \<open>rkaudio_param_deinit\<close> faults.\<close>

theorem rkaudio_params_balanced:
  assumes "fresh a"
    and "rkaudio_aec_param_init a h = Some (p1, h1)"
    and "rkaudio_preprocess_param_init a h1 = Some (p2, h2)"
    and "rkaudio_rx_param_init junk a h2 = Some (p3, h3)"
    and "param = \<lparr>model_en = en, aec_param = p1, bf_param = p2, rx_param = p3, read_size = n\<rparr>"
  shows "rkaudio_param_deinit param h3 = Some h \<and> rkaudio_param_deinit param h = None"
proof
  obtain k1 F1 where 1: "p1 = Dyn k1" "k1 \<in> dom F1" "dom F1 \<inter> dom h = {}" "h1 = h ++ F1"
    "owned rkaudio_aec_param_destory p1 F1" by (rule aec.init_ownedE [OF assms(1,2)])
  obtain k2 F2 where 2: "p2 = Dyn k2" "k2 \<in> dom F2" "dom F2 \<inter> dom h1 = {}" "h2 = h1 ++ F2"
    "owned rkaudio_preprocess_param_destory p2 F2" by (rule bf.init_ownedE [OF assms(1,3)])
  obtain k3 F3 where 3: "p3 = Dyn k3" "k3 \<in> dom F3" "dom F3 \<inter> dom h2 = {}" "h3 = h2 ++ F3"
    "owned rkaudio_rx_param_destory p3 F3" by (rule rx.init_ownedE [OF assms(1,4)])
  have dom: "dom h1 = dom F1 \<union> dom h" "dom h2 = dom F2 \<union> dom F1 \<union> dom h" using 1(4) 2(4) by auto
  have d: "dom F1 \<inter> dom F2 = {}" "dom F1 \<inter> dom F3 = {}" "dom F2 \<inter> dom F3 = {}"
    "dom h \<inter> dom F2 = {}" "dom h \<inter> dom F3 = {}"
    using 2(3) 3(3) unfolding dom by blast+
  have "h3 = h ++ F2 ++ F3 ++ F1"
    using add_swap [OF d(1), of h] add_swap [OF d(2), of "h ++ F2"] 1 2 3 by simp
  moreover have "dom (h ++ F2 ++ F3) \<inter> dom F1 = {}" using d 1 by auto
  ultimately have "rkaudio_aec_param_destory p1 h3 = Some (h ++ F2 ++ F3)"
    using 1 by (simp add: owned_def)
  moreover have "dom (h ++ F3) \<inter> dom F2 = {}" using d by auto
  then have "rkaudio_preprocess_param_destory p2 (h ++ F2 ++ F3) = Some (h ++ F3)"
    using 2 add_swap [OF d(3), of h] by (simp add: owned_def)
  moreover have "rkaudio_rx_param_destory p3 (h ++ F3) = Some h" using 3(5) d(5) by (simp add: owned_def)
  ultimately show "rkaudio_param_deinit param h3 = Some h"
    using 1(1) 2(1) 3(1) assms(5) by (simp add: rkaudio_param_deinit_def)
  from 1(2,3) have "k1 \<notin> dom h" by blast
  then have "h k1 = None" by (simp add: domIff)
  with 1(1) assms(5) show "rkaudio_param_deinit param h = None"
    by (simp add: rkaudio_param_deinit_def aec.destory_dangling)
qed

text \<open>An allocator that always takes the address after the highest in use.\<close>

definition bump :: alloc where
  "bump h = (if finite (dom h) then Some (Suc (Max (insert 0 (dom h)))) else None)"

lemma bump_fresh: "fresh bump"
  unfolding fresh_def bump_def
proof (intro allI impI)
  fix h k
  assume *: "(if finite (dom h) then Some (Suc (Max (insert 0 (dom h)))) else None) = Some k"
  then have "finite (insert 0 (dom h))" "k = Suc (Max (insert 0 (dom h)))" by (auto split: if_splits)
  then have "\<And>j. j \<in> insert 0 (dom h) \<Longrightarrow> j < k" by (simp add: le_imp_less_Suc del: Max_insert)
  then show "k \<notin> dom h" by blast
qed

lemma bump_enough: "enough bump"
  by (simp add: enough_def bump_def)

theorem rkaudio_params_balanced_witness:
  "\<exists>p1 p2 p3 h1 h2 h3. rkaudio_aec_param_init bump Map.empty = Some (p1, h1)
    \<and> rkaudio_preprocess_param_init bump h1 = Some (p2, h2)
    \<and> rkaudio_rx_param_init agc_zero bump h2 = Some (p3, h3)
    \<and> rkaudio_param_deinit \<lparr>model_en = audio_bit RKAUDIO_EN_BF, aec_param = p1, bf_param = p2,
        rx_param = p3, read_size = 0\<rparr> h3 = Some Map.empty"
proof -
  note ok = bump_fresh bump_enough
  obtain p1 h1 where 1: "rkaudio_aec_param_init bump Map.empty = Some (p1, h1)" "finite (dom h1)"
    by (rule aec.init_succeeds [OF ok, of Map.empty]) auto
  obtain p2 h2 where 2: "rkaudio_preprocess_param_init bump h1 = Some (p2, h2)" "finite (dom h2)"
    by (rule bf.init_succeeds [OF ok 1(2)])
  obtain p3 h3 where 3: "rkaudio_rx_param_init agc_zero bump h2 = Some (p3, h3)" "finite (dom h3)"
    by (rule rx.init_succeeds [OF ok 2(2)])
  from rkaudio_params_balanced [OF ok(1) 1(1) 2(1) 3(1) refl] 1(1) 2(1) 3(1) show ?thesis by blast
qed


text \<open>
  The gain curves: the three thresholds are in order, and the gain added at the upper one stays
  below the peak (the condition noted beside \<open>fRth2\<close>). The receiver's structure is allocated with
  \<open>malloc\<close>, but every field is assigned: what the memory held does not matter.
\<close>

lemma flt_int: "\<bar>n\<bar> < 2 ^ 24 \<Longrightarrow> flt (of_int n) = of_int n"
  by (simp add: flt_def single.rnd_int)

lemma dbl_int: "\<bar>n\<bar> < 2 ^ 24 \<Longrightarrow> dbl (of_int n) = of_int n"
  by (simp add: dbl_def single.rnd_int double.rnd_int)

lemma rkaudio_agc_curves:
  "fRth0 (agc_tx r) < fRth1 (agc_tx r) \<and> fRth1 (agc_tx r) < fRth2 (agc_tx r)
    \<and> fRth2 (agc_tx r) + max_gain (agc_tx r) < max_peak (agc_tx r)"
  "fRth0 (agc_rx r) < fRth1 (agc_rx r) \<and> fRth1 (agc_rx r) < fRth2 (agc_rx r)
    \<and> fRth2 (agc_rx r) + max_gain (agc_rx r) < max_peak (agc_rx r)"
  using flt_int [of 25] flt_int [of "-35"] flt_int [of "-83"] flt_int [of "-85"] dbl_int [of "-1"]
    dbl_int [of 5] flt_int [of "-1"] flt_int [of "-25"] flt_int [of "-45"]
  by (simp_all add: agc_tx_def agc_rx_def)

lemma agc_rx_junk: "rkaudio_rx_param_init junk = rkaudio_rx_param_init junk'"
proof -
  have "agc_rx junk = agc_rx junk'" by (cases junk; cases junk') (simp add: agc_rx_def)
  then have eq: "rkaudio_agc_param_init_rx junk = rkaudio_agc_param_init_rx junk'"
    by (simp add: rkaudio_agc_param_init_rx_def leaf_def fun_eq_iff)
  show ?thesis by (intro ext) (simp only: rkaudio_rx_param_init_def eq)
qed

end
