(* ===== verification/Widgets.thy ===== *)
theory Widgets
  imports RK_Prelude "HOL-Library.State_Monad"
begin

text \<open>
  The calls that build the pages' widgets, and what LVGL's interface asks of them.

  A constructor of the source is a program in a state monad: it creates objects, which get the
  numbers 0, 1, \<open>...\<close> in the order of their creation, and records every call with its arguments,
  newest first. LVGL itself is not modelled. The record is checked against the interface as a
  program against a type system: \<open>check\<close> keeps the classes and parents of the live objects and
  is \<open>None\<close> at a call on an object that does not exist (any more) or is not of the class the
  function is for, such as setting the text of something that is no label. \<open>typed\<close> is that
  judgement for a program, with what holds afterwards; its rules follow the form of the program.

  The screen and the layers are there from the start, as objects 0 to 2.
\<close>

subsection \<open>Calls\<close>

text \<open>Widget classes, styles of the program, and the paths of \<open>ui_resource.h\<close>.\<close>

datatype cls = Obj | Label | Img | Btn | Switch | Slider | Roller | Dropdown | Dropdown_list
  | Calendar | Calendar_header | Textarea | Keyboard | Checkbox | Canvas | Tileview | Tile
  | List_w | List_btn | Inputbox | Inputbox_btns | Inputbox_text

datatype style_name = style_asr | style_list | style_txt | style_txt_l | style_txt_m | style_txt_s

datatype resource_img = Img_return_btn | Img_rk_logo | Img_phone | Img_wifi_on | Img_wifi_off | Img_smart_home
  | Img_setting | Img_furniture | Img_cancel | Img_icebox | Img_player | Img_coffee
  | Img_rice | Img_play | Img_skip_back | Img_skip_forward | Img_vol_down | Img_vol_up
  | Img_vol_mute

datatype resource_icon = Icon_wifi | Icon_bt | Icon_wallpaper | Icon_data | Icon_about | Wifi_on_pic
  | Wifi_off_pic | Wifi_scanning

datatype resource_photo = Bg_pic_0 | Bg_pic_1 | Bg_pic_2 | Bg_pic_3 | Wallpaper_0 | Wallpaper_1 | Wallpaper_2
  | Wallpaper_3 | Coffee_1 | Coffee_2 | Coffee_3 | Coffee_4 | Coffee_5

datatype resource_intercom = Img_intercom_pause | Img_intercom_round | Img_intercom_webcam | Img_intercom_arrowup
  | Img_intercom_backward | Img_intercom_rectangle1 | Img_intercom_contuine

datatype resource = R_img resource_img | R_icon resource_icon | R_photo resource_photo
  | R_intercom resource_intercom

abbreviation "IMG_RETURN_BTN \<equiv> R_img Img_return_btn"
abbreviation "IMG_RK_LOGO \<equiv> R_img Img_rk_logo"
abbreviation "IMG_PHONE \<equiv> R_img Img_phone"
abbreviation "IMG_WIFI_ON \<equiv> R_img Img_wifi_on"
abbreviation "IMG_WIFI_OFF \<equiv> R_img Img_wifi_off"
abbreviation "IMG_SMART_HOME \<equiv> R_img Img_smart_home"
abbreviation "IMG_SETTING \<equiv> R_img Img_setting"
abbreviation "IMG_FURNITURE \<equiv> R_img Img_furniture"
abbreviation "IMG_CANCEL \<equiv> R_img Img_cancel"
abbreviation "IMG_ICEBOX \<equiv> R_img Img_icebox"
abbreviation "IMG_PLAYER \<equiv> R_img Img_player"
abbreviation "IMG_COFFEE \<equiv> R_img Img_coffee"
abbreviation "IMG_RICE \<equiv> R_img Img_rice"
abbreviation "IMG_PLAY \<equiv> R_img Img_play"
abbreviation "IMG_SKIP_BACK \<equiv> R_img Img_skip_back"
abbreviation "IMG_SKIP_FORWARD \<equiv> R_img Img_skip_forward"
abbreviation "IMG_VOL_DOWN \<equiv> R_img Img_vol_down"
abbreviation "IMG_VOL_UP \<equiv> R_img Img_vol_up"
abbreviation "IMG_VOL_MUTE \<equiv> R_img Img_vol_mute"

abbreviation "ICON_WIFI \<equiv> R_icon Icon_wifi"
abbreviation "ICON_BT \<equiv> R_icon Icon_bt"
abbreviation "ICON_WALLPAPER \<equiv> R_icon Icon_wallpaper"
abbreviation "ICON_DATA \<equiv> R_icon Icon_data"
abbreviation "ICON_ABOUT \<equiv> R_icon Icon_about"
abbreviation "WIFI_ON_PIC \<equiv> R_icon Wifi_on_pic"
abbreviation "WIFI_OFF_PIC \<equiv> R_icon Wifi_off_pic"
abbreviation "WIFI_SCANNING \<equiv> R_icon Wifi_scanning"

abbreviation "BG_PIC_0 \<equiv> R_photo Bg_pic_0"
abbreviation "BG_PIC_1 \<equiv> R_photo Bg_pic_1"
abbreviation "BG_PIC_2 \<equiv> R_photo Bg_pic_2"
abbreviation "BG_PIC_3 \<equiv> R_photo Bg_pic_3"
abbreviation "WALLPAPER_0 \<equiv> R_photo Wallpaper_0"
abbreviation "WALLPAPER_1 \<equiv> R_photo Wallpaper_1"
abbreviation "WALLPAPER_2 \<equiv> R_photo Wallpaper_2"
abbreviation "WALLPAPER_3 \<equiv> R_photo Wallpaper_3"
abbreviation "COFFEE_1 \<equiv> R_photo Coffee_1"
abbreviation "COFFEE_2 \<equiv> R_photo Coffee_2"
abbreviation "COFFEE_3 \<equiv> R_photo Coffee_3"
abbreviation "COFFEE_4 \<equiv> R_photo Coffee_4"
abbreviation "COFFEE_5 \<equiv> R_photo Coffee_5"

abbreviation "IMG_INTERCOM_PAUSE \<equiv> R_intercom Img_intercom_pause"
abbreviation "IMG_INTERCOM_ROUND \<equiv> R_intercom Img_intercom_round"
abbreviation "IMG_INTERCOM_WEBCAM \<equiv> R_intercom Img_intercom_webcam"
abbreviation "IMG_INTERCOM_ARROWUP \<equiv> R_intercom Img_intercom_arrowup"
abbreviation "IMG_INTERCOM_BACKWARD \<equiv> R_intercom Img_intercom_backward"
abbreviation "IMG_INTERCOM_RECTANGLE1 \<equiv> R_intercom Img_intercom_rectangle1"
abbreviation "IMG_INTERCOM_CONTUINE \<equiv> R_intercom Img_intercom_contuine"

definition PATH_PREFIX :: string where "PATH_PREFIX = ''/usr/share/resource''"

fun img_path :: "resource_img \<Rightarrow> string" where
  "img_path Img_return_btn = ''/arrow-left-fill.png''"
| "img_path Img_rk_logo = ''/logo.png''"
| "img_path Img_phone = ''/phone.png''"
| "img_path Img_wifi_on = ''/wifi.png''"
| "img_path Img_wifi_off = ''/wifi-off.png''"
| "img_path Img_smart_home = ''/home.png''"
| "img_path Img_setting = ''/sliders.png''"
| "img_path Img_furniture = ''/cpu.png''"
| "img_path Img_cancel = ''/cancel.png''"
| "img_path Img_icebox = ''/icebox.png''"
| "img_path Img_player = ''/player.png''"
| "img_path Img_coffee = ''/coffee_machine.png''"
| "img_path Img_rice = ''/rice.png''"
| "img_path Img_play = ''/play-fill.png''"
| "img_path Img_skip_back = ''/skip-back-fill.png''"
| "img_path Img_skip_forward = ''/skip-forward-fill.png''"
| "img_path Img_vol_down = ''/volume-down-fill.png''"
| "img_path Img_vol_up = ''/volume-up-fill.png''"
| "img_path Img_vol_mute = ''/volume-mute-fill.png''"

fun icon_path :: "resource_icon \<Rightarrow> string" where
  "icon_path Icon_wifi = ''/wifi-fill.png''"
| "icon_path Icon_bt = ''/bluetooth-fill.png''"
| "icon_path Icon_wallpaper = ''/image-2-fill.png''"
| "icon_path Icon_data = ''/calendar-2-fill.png''"
| "icon_path Icon_about = ''/information-fill.png''"
| "icon_path Wifi_on_pic = ''/wifi.png''"
| "icon_path Wifi_off_pic = ''/wifi-off.png''"
| "icon_path Wifi_scanning = ''/scanning.png''"

fun photo_path :: "resource_photo \<Rightarrow> string" where
  "photo_path Bg_pic_0 = ''/bg_pic_0.sjpg''"
| "photo_path Bg_pic_1 = ''/bg_pic_1.sjpg''"
| "photo_path Bg_pic_2 = ''/bg_pic_2.sjpg''"
| "photo_path Bg_pic_3 = ''/bg_pic_3.sjpg''"
| "photo_path Wallpaper_0 = ''/wallpaper_0.png''"
| "photo_path Wallpaper_1 = ''/wallpaper_1.png''"
| "photo_path Wallpaper_2 = ''/wallpaper_2.png''"
| "photo_path Wallpaper_3 = ''/wallpaper_3.png''"
| "photo_path Coffee_1 = ''/coffee1.png''"
| "photo_path Coffee_2 = ''/coffee2.png''"
| "photo_path Coffee_3 = ''/coffee3.png''"
| "photo_path Coffee_4 = ''/coffee4.png''"
| "photo_path Coffee_5 = ''/coffee5.png''"

fun intercom_path :: "resource_intercom \<Rightarrow> string" where
  "intercom_path Img_intercom_pause = ''/pause-fill.png''"
| "intercom_path Img_intercom_round = ''/round.png''"
| "intercom_path Img_intercom_webcam = ''/webcam-fill.png''"
| "intercom_path Img_intercom_arrowup = ''/arrow-up-fill.png''"
| "intercom_path Img_intercom_backward = ''/backward.png''"
| "intercom_path Img_intercom_rectangle1 = ''/rectangle_1.png''"
| "intercom_path Img_intercom_contuine = ''/continue.png''"

fun resource_path :: "resource \<Rightarrow> string" where
  "resource_path (R_img r) = ''A:'' @ PATH_PREFIX @ img_path r"
| "resource_path (R_icon r) = ''A:'' @ PATH_PREFIX @ icon_path r"
| "resource_path (R_photo r) = ''A:'' @ PATH_PREFIX @ photo_path r"
| "resource_path (R_intercom r) = ''A:'' @ PATH_PREFIX @ intercom_path r"

text \<open>The constants and functions of LVGL that the program names, by their kind.\<close>

datatype sym_align = Align_bottom_left | Align_bottom_mid | Align_bottom_right | Align_center
  | Align_left_mid | Align_out_bottom_left | Align_out_bottom_mid
  | Align_out_bottom_right | Align_out_left_mid | Align_out_left_top
  | Align_out_right_mid | Align_out_top_left | Align_out_top_mid | Align_out_top_right
  | Align_right_mid | Align_top_left | Align_top_mid | Align_top_right

datatype sym_const = Anim_off | Anim_repeat_infinite | Btnmatrix_width | Dir_left | Dir_right
  | Grid_align_stretch | Grid_template_last | Keyboard_mode_user_1 | Label_long_scroll
  | Label_long_scroll_circular | Layout_grid | Palette_grey | Radius_circle
  | Roller_mode_infinite | Roller_mode_normal | Scroll_snap_center | Size_content
  | Text_align_right

datatype sym_event = Event_cancel | Event_clicked | Event_draw_main_begin | Event_draw_post_end
  | Event_ready | Event_scroll | Event_value_changed

datatype sym_flex = Flex_align_center | Flex_align_end | Flex_flow_column | Flex_flow_row

datatype sym_flag = Obj_flag_clickable | Obj_flag_event_bubble | Obj_flag_hidden | Obj_flag_ignore_layout
  | Obj_flag_scrollable

datatype sym_opa = Opa_20 | Opa_80 | Opa_cover | Opa_transp

datatype sym_part = Part_indicator | Part_knob | Part_main

datatype sym_state = State_checked | State_default | State_focused | State_pressed

datatype sym_symbol = Symbol_backspace | Symbol_left | Symbol_mute | Symbol_next | Symbol_play | Symbol_prev
  | Symbol_right | Symbol_volume_max | Symbol_volume_mid

datatype sym = S_align sym_align | S_const sym_const | S_event sym_event | S_flex sym_flex
  | S_flag sym_flag | S_opa sym_opa | S_part sym_part | S_state sym_state
  | S_symbol sym_symbol

abbreviation "LV_ALIGN_BOTTOM_LEFT \<equiv> S_align Align_bottom_left"
abbreviation "LV_ALIGN_BOTTOM_MID \<equiv> S_align Align_bottom_mid"
abbreviation "LV_ALIGN_BOTTOM_RIGHT \<equiv> S_align Align_bottom_right"
abbreviation "LV_ALIGN_CENTER \<equiv> S_align Align_center"
abbreviation "LV_ALIGN_LEFT_MID \<equiv> S_align Align_left_mid"
abbreviation "LV_ALIGN_OUT_BOTTOM_LEFT \<equiv> S_align Align_out_bottom_left"
abbreviation "LV_ALIGN_OUT_BOTTOM_MID \<equiv> S_align Align_out_bottom_mid"
abbreviation "LV_ALIGN_OUT_BOTTOM_RIGHT \<equiv> S_align Align_out_bottom_right"
abbreviation "LV_ALIGN_OUT_LEFT_MID \<equiv> S_align Align_out_left_mid"
abbreviation "LV_ALIGN_OUT_LEFT_TOP \<equiv> S_align Align_out_left_top"
abbreviation "LV_ALIGN_OUT_RIGHT_MID \<equiv> S_align Align_out_right_mid"
abbreviation "LV_ALIGN_OUT_TOP_LEFT \<equiv> S_align Align_out_top_left"
abbreviation "LV_ALIGN_OUT_TOP_MID \<equiv> S_align Align_out_top_mid"
abbreviation "LV_ALIGN_OUT_TOP_RIGHT \<equiv> S_align Align_out_top_right"
abbreviation "LV_ALIGN_RIGHT_MID \<equiv> S_align Align_right_mid"
abbreviation "LV_ALIGN_TOP_LEFT \<equiv> S_align Align_top_left"
abbreviation "LV_ALIGN_TOP_MID \<equiv> S_align Align_top_mid"
abbreviation "LV_ALIGN_TOP_RIGHT \<equiv> S_align Align_top_right"

abbreviation "LV_ANIM_OFF \<equiv> S_const Anim_off"
abbreviation "LV_ANIM_REPEAT_INFINITE \<equiv> S_const Anim_repeat_infinite"
abbreviation "LV_BTNMATRIX_WIDTH \<equiv> S_const Btnmatrix_width"
abbreviation "LV_DIR_LEFT \<equiv> S_const Dir_left"
abbreviation "LV_DIR_RIGHT \<equiv> S_const Dir_right"
abbreviation "LV_GRID_ALIGN_STRETCH \<equiv> S_const Grid_align_stretch"
abbreviation "LV_GRID_TEMPLATE_LAST \<equiv> S_const Grid_template_last"
abbreviation "LV_KEYBOARD_MODE_USER_1 \<equiv> S_const Keyboard_mode_user_1"
abbreviation "LV_LABEL_LONG_SCROLL \<equiv> S_const Label_long_scroll"
abbreviation "LV_LABEL_LONG_SCROLL_CIRCULAR \<equiv> S_const Label_long_scroll_circular"
abbreviation "LV_LAYOUT_GRID \<equiv> S_const Layout_grid"
abbreviation "LV_PALETTE_GREY \<equiv> S_const Palette_grey"
abbreviation "LV_RADIUS_CIRCLE \<equiv> S_const Radius_circle"
abbreviation "LV_ROLLER_MODE_INFINITE \<equiv> S_const Roller_mode_infinite"
abbreviation "LV_ROLLER_MODE_NORMAL \<equiv> S_const Roller_mode_normal"
abbreviation "LV_SCROLL_SNAP_CENTER \<equiv> S_const Scroll_snap_center"
abbreviation "LV_SIZE_CONTENT \<equiv> S_const Size_content"
abbreviation "LV_TEXT_ALIGN_RIGHT \<equiv> S_const Text_align_right"

abbreviation "LV_EVENT_CANCEL \<equiv> S_event Event_cancel"
abbreviation "LV_EVENT_CLICKED \<equiv> S_event Event_clicked"
abbreviation "LV_EVENT_DRAW_MAIN_BEGIN \<equiv> S_event Event_draw_main_begin"
abbreviation "LV_EVENT_DRAW_POST_END \<equiv> S_event Event_draw_post_end"
abbreviation "LV_EVENT_READY \<equiv> S_event Event_ready"
abbreviation "LV_EVENT_SCROLL \<equiv> S_event Event_scroll"
abbreviation "LV_EVENT_VALUE_CHANGED \<equiv> S_event Event_value_changed"

abbreviation "LV_FLEX_ALIGN_CENTER \<equiv> S_flex Flex_align_center"
abbreviation "LV_FLEX_ALIGN_END \<equiv> S_flex Flex_align_end"
abbreviation "LV_FLEX_FLOW_COLUMN \<equiv> S_flex Flex_flow_column"
abbreviation "LV_FLEX_FLOW_ROW \<equiv> S_flex Flex_flow_row"

abbreviation "LV_OBJ_FLAG_CLICKABLE \<equiv> S_flag Obj_flag_clickable"
abbreviation "LV_OBJ_FLAG_EVENT_BUBBLE \<equiv> S_flag Obj_flag_event_bubble"
abbreviation "LV_OBJ_FLAG_HIDDEN \<equiv> S_flag Obj_flag_hidden"
abbreviation "LV_OBJ_FLAG_IGNORE_LAYOUT \<equiv> S_flag Obj_flag_ignore_layout"
abbreviation "LV_OBJ_FLAG_SCROLLABLE \<equiv> S_flag Obj_flag_scrollable"

abbreviation "LV_OPA_20 \<equiv> S_opa Opa_20"
abbreviation "LV_OPA_80 \<equiv> S_opa Opa_80"
abbreviation "LV_OPA_COVER \<equiv> S_opa Opa_cover"
abbreviation "LV_OPA_TRANSP \<equiv> S_opa Opa_transp"

abbreviation "LV_PART_INDICATOR \<equiv> S_part Part_indicator"
abbreviation "LV_PART_KNOB \<equiv> S_part Part_knob"
abbreviation "LV_PART_MAIN \<equiv> S_part Part_main"

abbreviation "LV_STATE_CHECKED \<equiv> S_state State_checked"
abbreviation "LV_STATE_DEFAULT \<equiv> S_state State_default"
abbreviation "LV_STATE_FOCUSED \<equiv> S_state State_focused"
abbreviation "LV_STATE_PRESSED \<equiv> S_state State_pressed"

abbreviation "LV_SYMBOL_BACKSPACE \<equiv> S_symbol Symbol_backspace"
abbreviation "LV_SYMBOL_LEFT \<equiv> S_symbol Symbol_left"
abbreviation "LV_SYMBOL_MUTE \<equiv> S_symbol Symbol_mute"
abbreviation "LV_SYMBOL_NEXT \<equiv> S_symbol Symbol_next"
abbreviation "LV_SYMBOL_PLAY \<equiv> S_symbol Symbol_play"
abbreviation "LV_SYMBOL_PREV \<equiv> S_symbol Symbol_prev"
abbreviation "LV_SYMBOL_RIGHT \<equiv> S_symbol Symbol_right"
abbreviation "LV_SYMBOL_VOLUME_MAX \<equiv> S_symbol Symbol_volume_max"
abbreviation "LV_SYMBOL_VOLUME_MID \<equiv> S_symbol Symbol_volume_mid"

datatype fn_obj = Anim_start | Obj_add_event_cb | Obj_add_flag | Obj_add_state | Obj_add_style
  | Obj_align | Obj_align_to | Obj_center | Obj_clear_flag | Obj_clear_state
  | Obj_get_user_data | Obj_refr_pos | Obj_refr_size | Obj_remove_style_all
  | Obj_set_align | Obj_set_flex_align | Obj_set_flex_flow | Obj_set_grid_cell
  | Obj_set_height | Obj_set_layout | Obj_set_pos | Obj_set_scroll_snap_x
  | Obj_set_size | Obj_set_user_data | Obj_set_width | Obj_set_y

datatype fn_calendar = Calendar_set_showed_date | Calendar_set_today_date

datatype fn_checkbox = Checkbox_set_text

datatype fn_dropdown = Dropdown_set_options | Dropdown_set_selected

datatype fn_img = Img_set_angle | Img_set_offset_x | Img_set_offset_y | Img_set_src | Img_set_zoom

datatype fn_keyboard = Keyboard_set_map | Keyboard_set_mode | Keyboard_set_textarea

datatype fn_label = Label_set_long_mode | Label_set_text | Label_set_text_fmt

datatype fn_list = List_get_btn_text

datatype fn_style = Obj_set_style_bg_color | Obj_set_style_bg_img_src | Obj_set_style_bg_opa
  | Obj_set_style_clip_corner | Obj_set_style_grid_column_dsc_array
  | Obj_set_style_grid_row_dsc_array | Obj_set_style_pad_all | Obj_set_style_pad_column
  | Obj_set_style_pad_gap | Obj_set_style_pad_hor | Obj_set_style_pad_row
  | Obj_set_style_radius | Obj_set_style_shadow_color | Obj_set_style_shadow_opa
  | Obj_set_style_shadow_spread | Obj_set_style_shadow_width | Obj_set_style_text_align
  | Obj_set_style_text_color

datatype fn_roller = Roller_get_selected_str | Roller_set_options | Roller_set_selected
  | Roller_set_visible_row_count

datatype fn_slider = Slider_set_range | Slider_set_value

datatype fn_textarea = Textarea_set_cursor_pos | Textarea_set_one_line | Textarea_set_password_mode
  | Textarea_set_text

datatype fn = F_obj fn_obj | F_calendar fn_calendar | F_checkbox fn_checkbox
  | F_dropdown fn_dropdown | F_img fn_img | F_keyboard fn_keyboard | F_label fn_label
  | F_list fn_list | F_style fn_style | F_roller fn_roller | F_slider fn_slider
  | F_textarea fn_textarea

abbreviation "lv_anim_start \<equiv> F_obj Anim_start"
abbreviation "lv_obj_add_event_cb \<equiv> F_obj Obj_add_event_cb"
abbreviation "lv_obj_add_flag \<equiv> F_obj Obj_add_flag"
abbreviation "lv_obj_add_state \<equiv> F_obj Obj_add_state"
abbreviation "lv_obj_add_style \<equiv> F_obj Obj_add_style"
abbreviation "lv_obj_align \<equiv> F_obj Obj_align"
abbreviation "lv_obj_align_to \<equiv> F_obj Obj_align_to"
abbreviation "lv_obj_center \<equiv> F_obj Obj_center"
abbreviation "lv_obj_clear_flag \<equiv> F_obj Obj_clear_flag"
abbreviation "lv_obj_clear_state \<equiv> F_obj Obj_clear_state"
abbreviation "lv_obj_get_user_data \<equiv> F_obj Obj_get_user_data"
abbreviation "lv_obj_refr_pos \<equiv> F_obj Obj_refr_pos"
abbreviation "lv_obj_refr_size \<equiv> F_obj Obj_refr_size"
abbreviation "lv_obj_remove_style_all \<equiv> F_obj Obj_remove_style_all"
abbreviation "lv_obj_set_align \<equiv> F_obj Obj_set_align"
abbreviation "lv_obj_set_flex_align \<equiv> F_obj Obj_set_flex_align"
abbreviation "lv_obj_set_flex_flow \<equiv> F_obj Obj_set_flex_flow"
abbreviation "lv_obj_set_grid_cell \<equiv> F_obj Obj_set_grid_cell"
abbreviation "lv_obj_set_height \<equiv> F_obj Obj_set_height"
abbreviation "lv_obj_set_layout \<equiv> F_obj Obj_set_layout"
abbreviation "lv_obj_set_pos \<equiv> F_obj Obj_set_pos"
abbreviation "lv_obj_set_scroll_snap_x \<equiv> F_obj Obj_set_scroll_snap_x"
abbreviation "lv_obj_set_size \<equiv> F_obj Obj_set_size"
abbreviation "lv_obj_set_user_data \<equiv> F_obj Obj_set_user_data"
abbreviation "lv_obj_set_width \<equiv> F_obj Obj_set_width"
abbreviation "lv_obj_set_y \<equiv> F_obj Obj_set_y"

abbreviation "lv_calendar_set_showed_date \<equiv> F_calendar Calendar_set_showed_date"
abbreviation "lv_calendar_set_today_date \<equiv> F_calendar Calendar_set_today_date"

abbreviation "lv_checkbox_set_text \<equiv> F_checkbox Checkbox_set_text"

abbreviation "lv_dropdown_set_options \<equiv> F_dropdown Dropdown_set_options"
abbreviation "lv_dropdown_set_selected \<equiv> F_dropdown Dropdown_set_selected"

abbreviation "lv_img_set_angle \<equiv> F_img Img_set_angle"
abbreviation "lv_img_set_offset_x \<equiv> F_img Img_set_offset_x"
abbreviation "lv_img_set_offset_y \<equiv> F_img Img_set_offset_y"
abbreviation "lv_img_set_src \<equiv> F_img Img_set_src"
abbreviation "lv_img_set_zoom \<equiv> F_img Img_set_zoom"

abbreviation "lv_keyboard_set_map \<equiv> F_keyboard Keyboard_set_map"
abbreviation "lv_keyboard_set_mode \<equiv> F_keyboard Keyboard_set_mode"
abbreviation "lv_keyboard_set_textarea \<equiv> F_keyboard Keyboard_set_textarea"

abbreviation "lv_label_set_long_mode \<equiv> F_label Label_set_long_mode"
abbreviation "lv_label_set_text \<equiv> F_label Label_set_text"
abbreviation "lv_label_set_text_fmt \<equiv> F_label Label_set_text_fmt"

abbreviation "lv_list_get_btn_text \<equiv> F_list List_get_btn_text"

abbreviation "lv_obj_set_style_bg_color \<equiv> F_style Obj_set_style_bg_color"
abbreviation "lv_obj_set_style_bg_img_src \<equiv> F_style Obj_set_style_bg_img_src"
abbreviation "lv_obj_set_style_bg_opa \<equiv> F_style Obj_set_style_bg_opa"
abbreviation "lv_obj_set_style_clip_corner \<equiv> F_style Obj_set_style_clip_corner"
abbreviation "lv_obj_set_style_grid_column_dsc_array \<equiv> F_style Obj_set_style_grid_column_dsc_array"
abbreviation "lv_obj_set_style_grid_row_dsc_array \<equiv> F_style Obj_set_style_grid_row_dsc_array"
abbreviation "lv_obj_set_style_pad_all \<equiv> F_style Obj_set_style_pad_all"
abbreviation "lv_obj_set_style_pad_column \<equiv> F_style Obj_set_style_pad_column"
abbreviation "lv_obj_set_style_pad_gap \<equiv> F_style Obj_set_style_pad_gap"
abbreviation "lv_obj_set_style_pad_hor \<equiv> F_style Obj_set_style_pad_hor"
abbreviation "lv_obj_set_style_pad_row \<equiv> F_style Obj_set_style_pad_row"
abbreviation "lv_obj_set_style_radius \<equiv> F_style Obj_set_style_radius"
abbreviation "lv_obj_set_style_shadow_color \<equiv> F_style Obj_set_style_shadow_color"
abbreviation "lv_obj_set_style_shadow_opa \<equiv> F_style Obj_set_style_shadow_opa"
abbreviation "lv_obj_set_style_shadow_spread \<equiv> F_style Obj_set_style_shadow_spread"
abbreviation "lv_obj_set_style_shadow_width \<equiv> F_style Obj_set_style_shadow_width"
abbreviation "lv_obj_set_style_text_align \<equiv> F_style Obj_set_style_text_align"
abbreviation "lv_obj_set_style_text_color \<equiv> F_style Obj_set_style_text_color"

abbreviation "lv_roller_get_selected_str \<equiv> F_roller Roller_get_selected_str"
abbreviation "lv_roller_set_options \<equiv> F_roller Roller_set_options"
abbreviation "lv_roller_set_selected \<equiv> F_roller Roller_set_selected"
abbreviation "lv_roller_set_visible_row_count \<equiv> F_roller Roller_set_visible_row_count"

abbreviation "lv_slider_set_range \<equiv> F_slider Slider_set_range"
abbreviation "lv_slider_set_value \<equiv> F_slider Slider_set_value"

abbreviation "lv_textarea_set_cursor_pos \<equiv> F_textarea Textarea_set_cursor_pos"
abbreviation "lv_textarea_set_one_line \<equiv> F_textarea Textarea_set_one_line"
abbreviation "lv_textarea_set_password_mode \<equiv> F_textarea Textarea_set_password_mode"
abbreviation "lv_textarea_set_text \<equiv> F_textarea Textarea_set_text"

text \<open>
  An argument: a number, a percentage \<open>lv_pct (n)\<close>, a text, a text given by its UTF-8 bytes, a
  list of lines, a picture, a constant, a set of flags, a style, a callback by its name, another object, a
  colour by its RGB value, a coordinate table, a linked-in picture, the blurred background snapshot, or \<open>NULL\<close>.
\<close>

datatype arg = I int | Pct int | T string | U "int list" | Lines "string list" | R resource | K sym
  | Fl "sym list" | Sty style_name | Cb string | H nat | Hex int | Tab "int list" | Dsc string | Snapshot | Nul

datatype call = Create cls nat "arg list" nat | On fn nat "arg list" | Del nat | Clean nat | Anim_del string | Null_call

record ui =
  next_obj :: nat
  log :: "call list"

type_synonym 'a gui = "(ui, 'a) state"

definition create_with :: "cls \<Rightarrow> nat \<Rightarrow> arg list \<Rightarrow> nat gui" where
  "create_with c p as = State (\<lambda>s. (next_obj s,
     s\<lparr>next_obj := Suc (next_obj s), log := Create c p as (next_obj s) # log s\<rparr>))"

definition on :: "fn \<Rightarrow> nat \<Rightarrow> arg list \<Rightarrow> unit gui" where
  "on f h as = State (\<lambda>s. ((), s\<lparr>log := On f h as # log s\<rparr>))"

definition del :: "nat \<Rightarrow> unit gui" where
  "del h = State (\<lambda>s. ((), s\<lparr>log := Del h # log s\<rparr>))"

text \<open>\<open>lv_obj_clean\<close> deletes all below an object and keeps the object.\<close>

definition obj_clean :: "nat \<Rightarrow> unit gui" where
  "obj_clean h = State (\<lambda>s. ((), s\<lparr>log := Clean h # log s\<rparr>))"

text \<open>\<open>lv_anim_del (&a, NULL)\<close> for a descriptor \<open>a\<close> of the program, which is no object.\<close>

definition anim_del :: "string \<Rightarrow> unit gui" where
  "anim_del a = State (\<lambda>s. ((), s\<lparr>log := Anim_del a # log s\<rparr>))"

text \<open>A call that is handed a null pointer.\<close>

definition null_call :: "unit gui" where
  "null_call = State (\<lambda>s. ((), s\<lparr>log := Null_call # log s\<rparr>))"

abbreviation lv_obj_create where "lv_obj_create p \<equiv> create_with Obj p []"
abbreviation lv_label_create where "lv_label_create p \<equiv> create_with Label p []"
abbreviation lv_img_create where "lv_img_create p \<equiv> create_with Img p []"
abbreviation lv_btn_create where "lv_btn_create p \<equiv> create_with Btn p []"
abbreviation lv_switch_create where "lv_switch_create p \<equiv> create_with Switch p []"
abbreviation lv_slider_create where "lv_slider_create p \<equiv> create_with Slider p []"
abbreviation lv_roller_create where "lv_roller_create p \<equiv> create_with Roller p []"
abbreviation lv_dropdown_create where "lv_dropdown_create p \<equiv> create_with Dropdown p []"
abbreviation lv_dropdown_get_list where "lv_dropdown_get_list p \<equiv> create_with Dropdown_list p []"
abbreviation lv_calendar_create where "lv_calendar_create p \<equiv> create_with Calendar p []"
abbreviation lv_calendar_header_arrow_create where
  "lv_calendar_header_arrow_create p \<equiv> create_with Calendar_header p []"
abbreviation lv_textarea_create where "lv_textarea_create p \<equiv> create_with Textarea p []"
abbreviation lv_keyboard_create where "lv_keyboard_create p \<equiv> create_with Keyboard p []"
abbreviation lv_checkbox_create where "lv_checkbox_create p \<equiv> create_with Checkbox p []"
abbreviation lv_tileview_create where "lv_tileview_create p \<equiv> create_with Tileview p []"
abbreviation lv_list_create where "lv_list_create p \<equiv> create_with List_w p []"

definition lv_scr_act :: nat where "lv_scr_act = 0"
definition lv_layer_top :: nat where "lv_layer_top = 1"
definition lv_layer_sys :: nat where "lv_layer_sys = 2"

text \<open>\<open>for\<close> over a list, and a conditional without \<open>else\<close>.\<close>

fun each :: "('a \<Rightarrow> unit gui) \<Rightarrow> 'a list \<Rightarrow> unit gui" where
  "each f [] = State_Monad.return ()"
| "each f (x # xs) = do { f x; each f xs }"

definition only_if :: "bool \<Rightarrow> unit gui \<Rightarrow> unit gui" where
  "only_if b m = (if b then m else State_Monad.return ())"

subsection \<open>The interface\<close>

text \<open>
  Which class a function is for (the others take any object), which classes are kinds of which,
  and which objects are made inside an object of a certain class only.
\<close>

fun needs :: "fn \<Rightarrow> cls option" where
  "needs (F_obj _) = None"
| "needs (F_calendar _) = Some Calendar"
| "needs (F_checkbox _) = Some Checkbox"
| "needs (F_dropdown _) = Some Dropdown"
| "needs (F_img _) = Some Img"
| "needs (F_keyboard _) = Some Keyboard"
| "needs (F_label _) = Some Label"
| "needs (F_list _) = Some List_w"
| "needs (F_style _) = None"
| "needs (F_roller _) = Some Roller"
| "needs (F_slider _) = Some Slider"
| "needs (F_textarea _) = Some Textarea"

definition is_a :: "cls \<Rightarrow> cls \<Rightarrow> bool" where
  "is_a c d = (c = d \<or> (c, d) \<in> {(Canvas, Img), (List_btn, Btn)})"

definition fits :: "fn \<Rightarrow> cls \<Rightarrow> bool" where
  "fits f c = (case needs f of None \<Rightarrow> True | Some d \<Rightarrow> is_a c d)"

fun within_cls :: "cls \<Rightarrow> cls option" where
  "within_cls Tile = Some Tileview"
| "within_cls List_btn = Some List_w"
| "within_cls Dropdown_list = Some Dropdown"
| "within_cls Calendar_header = Some Calendar"
| "within_cls Inputbox_btns = Some Inputbox"
| "within_cls Inputbox_text = Some Inputbox"
| "within_cls _ = None"

definition holds :: "cls \<Rightarrow> cls \<Rightarrow> bool" where
  "holds pc c = (case within_cls c of None \<Rightarrow> True | Some d \<Rightarrow> pc = d)"

text \<open>The live objects, with class and parent. Deleting an object deletes all below it.\<close>

type_synonym env = "nat \<rightharpoonup> cls \<times> nat"

function below :: "env \<Rightarrow> nat \<Rightarrow> nat \<Rightarrow> bool" where
  "below e h x = (x = h \<or> (case e x of None \<Rightarrow> False | Some (_, q) \<Rightarrow> if q < x then below e h q else False))"
  by auto
termination by (relation "measure (\<lambda>(e, h, x). x)") auto

declare below.simps [simp del]

definition remove :: "env \<Rightarrow> nat \<Rightarrow> env" where
  "remove e h = (\<lambda>x. if below e h x then None else e x)"

definition cleaned :: "env \<Rightarrow> nat \<Rightarrow> env" where
  "cleaned e h = (\<lambda>x. if x \<noteq> h \<and> below e h x then None else e x)"

fun alive_arg :: "env \<Rightarrow> arg \<Rightarrow> bool" where
  "alive_arg e (H h) = (e h \<noteq> None)"
| "alive_arg e _ = True"

fun check1 :: "call \<Rightarrow> env \<Rightarrow> env option" where
  "check1 (Create c p as h) e = (case e p of None \<Rightarrow> None
     | Some (pc, _) \<Rightarrow> if e h = None \<and> holds pc c then Some (e(h \<mapsto> (c, p))) else None)"
| "check1 (On f h as) e = (case e h of None \<Rightarrow> None
     | Some (c, _) \<Rightarrow> if fits f c \<and> list_all (alive_arg e) as then Some e else None)"
| "check1 (Del h) e = (if e h = None then None else Some (remove e h))"
| "check1 (Clean h) e = (if e h = None then None else Some (cleaned e h))"
| "check1 (Anim_del a) e = Some e"
| "check1 Null_call e = None"

fun check :: "call list \<Rightarrow> env \<Rightarrow> env option" where
  "check [] e = Some e"
| "check (c # cs) e = check cs e \<bind> check1 c"

text \<open>
  \<open>typed m n e Q\<close>: run after calls that check and left the objects \<open>e\<close> and the next number \<open>n\<close>,
  the calls of \<open>m\<close> check, and \<open>Q\<close> holds of its result, the next number and the objects.
\<close>

definition typed :: "'a gui \<Rightarrow> nat \<Rightarrow> env \<Rightarrow> ('a \<Rightarrow> nat \<Rightarrow> env \<Rightarrow> bool) \<Rightarrow> bool" where
  "typed m n e Q = (\<forall>e0 s. next_obj s = n \<and> check (log s) e0 = Some e \<longrightarrow>
     (case run_state m s of (r, s') \<Rightarrow>
        (case check (log s') e0 of None \<Rightarrow> False | Some e' \<Rightarrow> Q r (next_obj s') e')))"

lemma typed_bind:
  assumes "typed m n e (\<lambda>r n' e'. typed (f r) n' e' Q)"
  shows "typed (m \<bind> f) n e Q"
  unfolding typed_def
proof (intro allI impI)
  fix e0 and s :: ui
  assume s: "next_obj s = n \<and> check (log s) e0 = Some e"
  obtain r s1 where r: "run_state m s = (r, s1)" by fastforce
  with assms s obtain e1 where e1: "check (log s1) e0 = Some e1" "typed (f r) (next_obj s1) e1 Q"
    unfolding typed_def [of m] by (fastforce split: option.splits)
  then show "case run_state (m \<bind> f) s of (r, s') \<Rightarrow>
      (case check (log s') e0 of None \<Rightarrow> False | Some e' \<Rightarrow> Q r (next_obj s') e')"
    by (simp add: State_Monad.bind_def r typed_def [of "f r"])
qed

lemma typed_return: "Q x n e \<Longrightarrow> typed (State_Monad.return x) n e Q"
  by (simp add: typed_def)

definition accepts :: "env \<Rightarrow> nat \<Rightarrow> (cls \<Rightarrow> bool) \<Rightarrow> bool" where
  "accepts e h ok = (case e h of None \<Rightarrow> False | Some (c, _) \<Rightarrow> ok c)"

lemma typed_create:
  "accepts e p (\<lambda>pc. holds pc c) \<Longrightarrow> e n = None \<Longrightarrow> Q n (Suc n) (e(n \<mapsto> (c, p)))
    \<Longrightarrow> typed (create_with c p as) n e Q"
  by (auto simp: typed_def create_with_def accepts_def split: option.splits)

lemma typed_on:
  "accepts e h (fits f) \<Longrightarrow> list_all (alive_arg e) as \<Longrightarrow> Q () n e \<Longrightarrow> typed (on f h as) n e Q"
  by (auto simp: typed_def on_def accepts_def split: option.splits)

lemma typed_del: "e h \<noteq> None \<Longrightarrow> Q () n (remove e h) \<Longrightarrow> typed (del h) n e Q"
  by (auto simp: typed_def del_def)

lemma typed_clean: "e h \<noteq> None \<Longrightarrow> Q () n (cleaned e h) \<Longrightarrow> typed (obj_clean h) n e Q"
  by (auto simp: typed_def obj_clean_def)

lemma typed_anim_del: "Q () n e \<Longrightarrow> typed (anim_del a) n e Q"
  by (simp add: typed_def anim_del_def)

lemma typed_only_if: "(b \<Longrightarrow> typed m n e Q) \<Longrightarrow> (\<not> b \<Longrightarrow> Q () n e) \<Longrightarrow> typed (only_if b m) n e Q"
  by (simp add: only_if_def typed_return)

lemma typed_if: "(b \<Longrightarrow> typed m n e Q) \<Longrightarrow> (\<not> b \<Longrightarrow> typed m' n e Q) \<Longrightarrow> typed (if b then m else m') n e Q"
  by simp

lemmas class_simps = accepts_def fits_def holds_def is_a_def domIff

lemmas typed_rules = typed_bind typed_return typed_create typed_on typed_del typed_only_if

lemma typed_weaken:
  assumes "typed m n e P" "\<And>r n' e'. P r n' e' \<Longrightarrow> Q r n' e'"
  shows "typed m n e Q"
  using assms unfolding typed_def by (fastforce split: option.splits prod.splits)

text \<open>
  Objects grown below \<open>P\<close>: from \<open>(n, e)\<close> to \<open>(n', e')\<close> the old objects are the same, and every new
  one has as parent an object of \<open>P\<close> or a live new one made before it.
\<close>

definition fresh_from :: "nat \<Rightarrow> env \<Rightarrow> bool" where
  "fresh_from n e = (\<forall>h \<ge> n. e h = None)"

definition grown :: "nat set \<Rightarrow> nat \<Rightarrow> env \<Rightarrow> nat \<Rightarrow> env \<Rightarrow> bool" where
  "grown P n e n' e' = (n \<le> n' \<and> (\<forall>h < n. e' h = e h) \<and> fresh_from n' e'
     \<and> (\<forall>h c q. n \<le> h \<and> e' h = Some (c, q) \<longrightarrow> (q \<in> P \<or> n \<le> q \<and> e' q \<noteq> None) \<and> q < h))"

lemma fresh_fromD: "fresh_from n e \<Longrightarrow> n \<le> h \<Longrightarrow> e h = None"
  by (simp add: fresh_from_def)

lemma fresh_from_less: "fresh_from n e \<Longrightarrow> e h = Some x \<Longrightarrow> h < n"
  by (metis fresh_from_def leI option.distinct(1))

lemma fresh_from_Suc: "fresh_from n e \<Longrightarrow> fresh_from (Suc n) (e(n \<mapsto> x))"
  by (auto simp: fresh_from_def)

lemma grown_refl: "fresh_from n e \<Longrightarrow> grown P n e n e"
  by (simp add: grown_def) (metis fresh_from_def option.distinct(1))

lemma grownI:
  assumes "n \<le> n'" "\<And>h. h < n \<Longrightarrow> e' h = e h" "fresh_from n' e'"
    "\<And>h c q. n \<le> h \<Longrightarrow> e' h = Some (c, q) \<Longrightarrow> (q \<in> P \<or> n \<le> q \<and> e' q \<noteq> None) \<and> q < h"
  shows "grown P n e n' e'"
  using assms unfolding grown_def by blast

lemma grown_new:
  "grown P n e n' e' \<Longrightarrow> n \<le> h \<Longrightarrow> e' h = Some (c, q) \<Longrightarrow> (q \<in> P \<or> n \<le> q \<and> e' q \<noteq> None) \<and> q < h"
  unfolding grown_def by blast

lemma grown_create:
  assumes "grown P n e m e'" "q \<in> P \<and> q < m \<or> n \<le> q \<and> e' q \<noteq> None"
  shows "grown P n e (Suc m) (e'(m \<mapsto> (c, q)))"
proof (rule grownI)
  have m: "n \<le> m" "fresh_from m e'" using assms(1) by (auto simp: grown_def)
  then show "n \<le> Suc m" "fresh_from (Suc m) (e'(m \<mapsto> (c, q)))" by (auto intro: fresh_from_Suc)
  show "(e'(m \<mapsto> (c, q))) h = e h" if "h < n" for h
    using that m assms(1) by (auto simp: grown_def)
  have q: "q < m" using assms(2) m(2) by (metis fresh_from_def leI)
  fix h d r
  assume "n \<le> h" "(e'(m \<mapsto> (c, q))) h = Some (d, r)"
  then show "(r \<in> P \<or> n \<le> r \<and> (e'(m \<mapsto> (c, q))) r \<noteq> None) \<and> r < h"
    using grown_new [OF assms(1), of h d r] q assms(2) by (cases "h = m") auto
qed

lemma grown_fresh: "grown P n e n' e' \<Longrightarrow> fresh_from n' e'"
  by (simp add: grown_def)

lemma grown_old: "grown P n e n' e' \<Longrightarrow> h < n \<Longrightarrow> e' h = e h"
  by (simp add: grown_def)

lemma grown_le: "grown P n e n' e' \<Longrightarrow> n \<le> n'"
  by (simp add: grown_def)

lemma grown_trans:
  assumes g1: "grown P n e m e1" and g2: "grown P' m e1 n' e'"
    and "P' \<subseteq> P \<union> {q. n \<le> q \<and> e1 q \<noteq> None \<and> q < m}"
  shows "grown P n e n' e'"
proof (rule grownI)
  show "n \<le> n'" "fresh_from n' e'" using grown_le [OF g1] grown_le [OF g2] grown_fresh [OF g2] by auto
  show "e' h = e h" if "h < n" for h
    using that grown_old [OF g1, of h] grown_old [OF g2, of h] grown_le [OF g1] by simp
next
  fix h c q
  assume h: "n \<le> h" "e' h = Some (c, q)"
  show "(q \<in> P \<or> n \<le> q \<and> e' q \<noteq> None) \<and> q < h"
  proof (cases "h < m")
    case True
    with grown_old [OF g2, of h] h have "e1 h = Some (c, q)" by simp
    from grown_new [OF g1 h(1) this] have q: "q \<in> P \<or> n \<le> q \<and> e1 q \<noteq> None" "q < h" by auto
    with True grown_old [OF g2, of q] show ?thesis by auto
  next
    case False
    with grown_new [OF g2 _ h(2)] have q: "q \<in> P' \<or> m \<le> q \<and> e' q \<noteq> None" "q < h" by auto
    have "q \<in> P' \<Longrightarrow> q \<in> P \<or> n \<le> q \<and> e' q \<noteq> None"
      using assms(3) grown_old [OF g2, of q] by auto
    with q grown_le [OF g1] show ?thesis by auto
  qed
qed

text \<open>A loop whose turns all grow below the live objects \<open>P\<close>.\<close>

lemma typed_each:
  assumes "\<And>x n e. x \<in> set xs \<Longrightarrow> fresh_from n e \<Longrightarrow> (\<And>p. p \<in> P \<Longrightarrow> e p = f p) \<Longrightarrow>
      typed (b x) n e (\<lambda>_ n' e'. grown P n e n' e')"
    and "fresh_from n e" "\<And>p. p \<in> P \<Longrightarrow> e p = f p" "\<And>p. p \<in> P \<Longrightarrow> p < n"
  shows "typed (each b xs) n e (\<lambda>_ n' e'. grown P n e n' e')"
  using assms
proof (induction xs arbitrary: n e)
  case Nil
  then show ?case by (simp add: typed_return grown_refl)
next
  case (Cons x xs)
  have "typed (b x) n e (\<lambda>_ n' e'. grown P n e n' e')" using Cons.prems by simp
  then have "typed (b x) n e (\<lambda>_ m e1. typed (each b xs) m e1 (\<lambda>_ n' e'. grown P n e n' e'))"
  proof (rule typed_weaken)
    fix r m e1
    assume g: "grown P n e m e1"
    have "typed (each b xs) m e1 (\<lambda>_ n' e'. grown P m e1 n' e')"
    proof (rule Cons.IH)
      show "fresh_from m e1" by (rule grown_fresh [OF g])
      show "e1 p = f p" if "p \<in> P" for p using that Cons.prems(3,4) grown_old [OF g] by simp
      show "p < m" if "p \<in> P" for p using Cons.prems(4) [OF that] grown_le [OF g] by simp
    qed (use Cons.prems(1) in auto)
    then show "typed (each b xs) m e1 (\<lambda>_ n' e'. grown P n e n' e')"
      by (rule typed_weaken) (auto intro: grown_trans [OF g])
  qed
  then show ?case by (simp add: typed_bind)
qed

text \<open>
  Taking down: where everything made after the root grew below it, deleting the root leaves the
  objects that were there before it.
\<close>

lemma below_ge: "below e h x \<Longrightarrow> h \<le> x"
proof (induction e h x rule: below.induct)
  case (1 e h x)
  show ?case
  proof (cases "x = h")
    case False
    with "1.prems" obtain c q where "e x = Some (c, q)" "q < x" "below e h q"
      by (subst (asm) below.simps) (auto split: option.splits if_splits)
    with "1.IH" [of "(c, q)" c q] False show ?thesis by simp
  qed simp
qed

lemma below_root:
  assumes "\<And>x c q. Suc h \<le> x \<Longrightarrow> e x = Some (c, q) \<Longrightarrow> (q = h \<or> Suc h \<le> q \<and> e q \<noteq> None) \<and> q < x"
  shows "h \<le> x \<Longrightarrow> e x \<noteq> None \<Longrightarrow> below e h x"
proof (induction x rule: less_induct)
  case (less x)
  show ?case
  proof (cases "x = h")
    case True
    then show ?thesis by (subst below.simps) simp
  next
    case False
    with less.prems obtain c q where x: "Suc h \<le> x" "e x = Some (c, q)" by auto
    from assms [OF this] have q: "q < x" "q = h \<or> Suc h \<le> q \<and> e q \<noteq> None" by auto
    then have "below e h q"
    proof (cases "q = h")
      case True
      then show ?thesis by (subst below.simps) simp
    qed (use less.IH [of q] q in auto)
    with x q show ?thesis by (subst below.simps) simp
  qed
qed

lemma remove_root:
  assumes "fresh_from n e" "grown {n} (Suc n) (e(n \<mapsto> x)) n' e'"
  shows "remove e' n = e"
proof
  fix y
  show "remove e' n y = e y"
  proof (cases "n \<le> y")
    case True
    have "below e' n y" if "e' y \<noteq> None"
      by (rule below_root) (use assms(2) True that in \<open>auto simp: grown_def\<close>)
    moreover have "e y = None" by (rule fresh_fromD [OF assms(1) True])
    ultimately show ?thesis by (cases "e' y") (auto simp: remove_def)
  next
    case False
    then have "\<not> below e' n y" using below_ge by force
    with False grown_old [OF assms(2), of y] show ?thesis by (simp add: remove_def)
  qed
qed

text \<open>All made since \<open>(n, e)\<close> is the object \<open>n\<close> and what grew below it.\<close>

definition tree :: "nat \<Rightarrow> env \<Rightarrow> nat \<Rightarrow> env \<Rightarrow> bool" where
  "tree n e n' e' = (\<exists>x. grown {n} (Suc n) (e(n \<mapsto> x)) n' e')"

lemma tree_root: "fresh_from n e \<Longrightarrow> tree n e (Suc n) (e(n \<mapsto> x))"
  unfolding tree_def by (blast intro: grown_refl fresh_from_Suc)

lemma tree_create:
  assumes "tree n e m e'" "n \<le> q" "e' q \<noteq> None"
  shows "tree n e (Suc m) (e'(m \<mapsto> (c, q)))"
proof -
  from assms(1) obtain x where g: "grown {n} (Suc n) (e(n \<mapsto> x)) m e'" by (auto simp: tree_def)
  have "q \<in> {n} \<and> q < m \<or> Suc n \<le> q \<and> e' q \<noteq> None"
    using assms(2,3) grown_le [OF g] by (cases "q = n") auto
  from grown_create [OF g this] show ?thesis unfolding tree_def by blast
qed

lemma tree_fresh: "tree n e n' e' \<Longrightarrow> fresh_from n' e'"
  by (auto simp: tree_def dest: grown_fresh)

lemma tree_grown:
  assumes t: "tree n e m e1" and g: "grown P m e1 n' e'" and P: "\<And>p. p \<in> P \<Longrightarrow> n \<le> p \<and> e1 p \<noteq> None"
  shows "tree n e n' e'"
proof -
  from t obtain x where x: "grown {n} (Suc n) (e(n \<mapsto> x)) m e1" by (auto simp: tree_def)
  have "P \<subseteq> {n} \<union> {q. Suc n \<le> q \<and> e1 q \<noteq> None \<and> q < m}"
  proof
    fix p assume p: "p \<in> P"
    with P [of p] have "p < m" using fresh_from_less [OF tree_fresh [OF t]] by blast
    with P [OF p] show "p \<in> {n} \<union> {q. Suc n \<le> q \<and> e1 q \<noteq> None \<and> q < m}" by auto
  qed
  from grown_trans [OF x g this] show ?thesis unfolding tree_def by blast
qed

lemma tree_removed: "fresh_from n e \<Longrightarrow> tree n e n' e' \<Longrightarrow> remove e' n = e"
  by (auto simp: tree_def intro: remove_root)

subsection \<open>What a constructor promises\<close>

text \<open>
  \<open>builds P m\<close>: where the objects \<open>P\<close> live, \<open>m\<close> is well typed and all it makes grows below them.
  \<open>restores P m\<close>: it is well typed and leaves the objects as they were. A sequence of callbacks
  \<open>keeps\<close> them.
\<close>

definition builds :: "nat set \<Rightarrow> 'a gui \<Rightarrow> bool" where
  "builds P m = (\<forall>n e. fresh_from n e \<and> P \<subseteq> dom e \<longrightarrow> typed m n e (\<lambda>_ n' e'. grown P n e n' e'))"

definition restores :: "nat set \<Rightarrow> 'a gui \<Rightarrow> bool" where
  "restores P m = (\<forall>n e. fresh_from n e \<and> P \<subseteq> dom e \<longrightarrow> typed m n e (\<lambda>_ _ e'. e' = e))"

lemma buildsI:
  assumes "\<And>n e. fresh_from n e \<Longrightarrow> P \<subseteq> dom e \<Longrightarrow> (\<And>h. n \<le> h \<Longrightarrow> e h = None) \<Longrightarrow> (\<And>p. p \<in> P \<Longrightarrow> p < n)
    \<Longrightarrow> typed m n e (\<lambda>_ n' e'. grown P n e n' e')"
  shows "builds P m"
  unfolding builds_def
proof (intro allI impI)
  fix n e
  assume *: "fresh_from n e \<and> P \<subseteq> dom e"
  have "p < n" if "p \<in> P" for p
  proof -
    from that * obtain x where "e p = Some x" by blast
    with * show ?thesis by (blast intro: fresh_from_less)
  qed
  with * show "typed m n e (\<lambda>_ n' e'. grown P n e n' e')"
    by (intro assms) (simp_all add: fresh_from_def)
qed

lemma restoresI:
  assumes "\<And>n e. fresh_from n e \<Longrightarrow> P \<subseteq> dom e \<Longrightarrow> (\<And>h. n \<le> h \<Longrightarrow> e h = None) \<Longrightarrow> (\<And>p. p \<in> P \<Longrightarrow> p < n)
    \<Longrightarrow> typed m n e (\<lambda>_ _ e'. e' = e)"
  shows "restores P m"
  unfolding restores_def
proof (intro allI impI)
  fix n e
  assume *: "fresh_from n e \<and> P \<subseteq> dom e"
  have "p < n" if "p \<in> P" for p
  proof -
    from that * obtain x where "e p = Some x" by blast
    with * show ?thesis by (blast intro: fresh_from_less)
  qed
  with * show "typed m n e (\<lambda>_ _ e'. e' = e)"
    by (intro assms) (simp_all add: fresh_from_def)
qed

lemma accepts_dom: "p \<in> dom e \<Longrightarrow> (\<And>c. ok c) \<Longrightarrow> accepts e p ok"
  by (auto simp: accepts_def)

text \<open>A loop whose turns all leave the objects as they were.\<close>

lemma fresh_from_mono: "fresh_from n e \<Longrightarrow> n \<le> m \<Longrightarrow> fresh_from m e"
  by (simp add: fresh_from_def)

lemma typed_each_keep:
  assumes "\<And>x m. x \<in> set xs \<Longrightarrow> n \<le> m \<Longrightarrow> typed (f x) m e (\<lambda>_ n' e'. m \<le> n' \<and> e' = e)"
    "\<And>m. n \<le> m \<Longrightarrow> Q () m e"
  shows "typed (each f xs) n e Q"
  using assms
proof (induction xs arbitrary: n)
  case Nil
  then show ?case by (simp add: typed_return)
next
  case (Cons x xs)
  have "typed (each f xs) m e Q" if "n \<le> m" for m
    by (rule Cons.IH) (use that Cons.prems in auto)
  then have "typed (f x) n e (\<lambda>_ n' e'. typed (each f xs) n' e' Q)"
    by (intro typed_weaken [OF Cons.prems(1)]) auto
  then show ?case by (simp add: typed_bind)
qed

lemma typed_restores:
  "restores P m \<Longrightarrow> fresh_from n e \<Longrightarrow> P \<subseteq> dom e \<Longrightarrow> (\<And>r n'. Q r n' e) \<Longrightarrow> typed m n e Q"
  unfolding restores_def by (blast intro: typed_weaken [where P = "\<lambda>_ _ e'. e' = e"])

lemma typed_builds:
  "builds P m \<Longrightarrow> fresh_from n e \<Longrightarrow> P \<subseteq> dom e \<Longrightarrow> (\<And>r n' e'. grown P n e n' e' \<Longrightarrow> Q r n' e')
    \<Longrightarrow> typed m n e Q"
  unfolding builds_def by (blast intro: typed_weaken)

lemma builds_return: "builds P m \<Longrightarrow> builds P (m \<bind> (\<lambda>x. State_Monad.return (f x)))"
  unfolding builds_def by (blast intro: typed_bind typed_weaken typed_return)

end
