(* ===== verification/UI_Menus.thy ===== *)
theory UI_Menus
  imports Widgets Setting_UI Backlight
begin

text \<open>
  The submenus of the settings page (\<open>about_ui.c\<close>, \<open>display_ui.c\<close>, \<open>volume_ui.c\<close>,
  \<open>language_and_date_ui.c\<close>, \<open>wallpaper_ui.c\<close>, \<open>bt_ui.c\<close> in \<open>setting\<close>), as programs over \<open>Widgets\<close>.
  The static pointers of a module that its callbacks use are a record its constructor gives
  back.
\<close>

subsection \<open>About\<close>

record about_ui =
  about_bg :: nat
  area_info :: nat
  cont_update :: nat

definition menu_about_init :: "nat \<Rightarrow> about_ui gui" where
  "menu_about_init parent = do {
     bg \<leftarrow> lv_obj_create parent;
     on lv_obj_remove_style_all bg [];
     on lv_obj_set_style_pad_all bg [I 10, K LV_PART_MAIN];
     on lv_obj_set_style_pad_gap bg [I 30, K LV_PART_MAIN];
     on lv_obj_set_size bg [Pct 100, Pct 100];
     on lv_obj_set_flex_flow bg [K LV_FLEX_FLOW_ROW];
     on lv_obj_clear_flag bg [K LV_OBJ_FLAG_SCROLLABLE];
     on lv_obj_align bg [K LV_ALIGN_TOP_MID, I 0, I 0];
     area_tag \<leftarrow> lv_obj_create bg;
     on lv_obj_remove_style_all area_tag [];
     on lv_obj_set_size area_tag [Pct 40, K LV_SIZE_CONTENT];
     on lv_obj_set_flex_flow area_tag [K LV_FLEX_FLOW_COLUMN];
     area_info \<leftarrow> lv_obj_create bg;
     on lv_obj_remove_style_all area_info [];
     on lv_obj_set_size area_info [Pct 50, K LV_SIZE_CONTENT];
     on lv_obj_set_flex_flow area_info [K LV_FLEX_FLOW_COLUMN];
     obj \<leftarrow> lv_label_create area_tag;
     on lv_label_set_text obj [U [231, 179, 187, 231, 187, 159, 231, 137, 136, 230, 156, 172]];
     on lv_obj_add_style obj [Sty style_txt_m, K LV_PART_MAIN];
     obj \<leftarrow> lv_label_create area_tag;
     on lv_label_set_text obj [U [232, 189, 175, 228, 187, 182, 231, 137, 136, 230, 156, 172]];
     on lv_obj_add_style obj [Sty style_txt_m, K LV_PART_MAIN];
     obj \<leftarrow> lv_label_create area_tag;
     on lv_label_set_text obj [U [231, 179, 187, 231, 187, 159, 229, 141, 135, 231, 186, 167]];
     on lv_obj_add_style obj [Sty style_txt_m, K LV_PART_MAIN];
     obj \<leftarrow> lv_label_create area_info;
     on lv_label_set_text obj [T ''0.1.0-20230712''];
     on lv_label_set_long_mode obj [K LV_LABEL_LONG_SCROLL];
     on lv_obj_set_width obj [Pct 100];
     on lv_obj_add_style obj [Sty style_txt_m, K LV_PART_MAIN];
     on lv_obj_set_style_text_align obj [K LV_TEXT_ALIGN_RIGHT, K LV_PART_MAIN];
     obj \<leftarrow> lv_label_create area_info;
     on lv_label_set_text obj [T ''0.1.0-20230712''];
     on lv_label_set_long_mode obj [K LV_LABEL_LONG_SCROLL];
     on lv_obj_set_width obj [Pct 100];
     on lv_obj_add_style obj [Sty style_txt_m, K LV_PART_MAIN];
     on lv_obj_set_style_text_align obj [K LV_TEXT_ALIGN_RIGHT, K LV_PART_MAIN];
     obj \<leftarrow> lv_label_create area_info;
     on lv_obj_set_width obj [Pct 100];
     on lv_label_set_text obj [U [229, 141, 135, 231, 186, 167, 60]];
     on lv_obj_add_flag obj [K LV_OBJ_FLAG_CLICKABLE];
     on lv_obj_add_style obj [Sty style_txt_m, K LV_PART_MAIN];
     on lv_obj_set_style_text_align obj [K LV_TEXT_ALIGN_RIGHT, K LV_PART_MAIN];
     on lv_obj_add_event_cb obj [Cb ''update_event_cb'', K LV_EVENT_CLICKED, Nul];
     cont_update \<leftarrow> lv_obj_create bg;
     on lv_obj_add_flag cont_update [K LV_OBJ_FLAG_IGNORE_LAYOUT];
     on lv_obj_set_size cont_update [K LV_SIZE_CONTENT, K LV_SIZE_CONTENT];
     on lv_obj_align_to cont_update [H area_info, K LV_ALIGN_OUT_BOTTOM_RIGHT, I 0, I 0];
     on lv_obj_set_flex_flow cont_update [K LV_FLEX_FLOW_ROW];
     btn_update_local \<leftarrow> lv_btn_create cont_update;
     obj \<leftarrow> lv_label_create btn_update_local;
     on lv_label_set_text obj [U [230, 156, 172, 229, 156, 176, 229, 141, 135, 231, 186, 167]];
     on lv_obj_add_style obj [Sty style_txt_s, K LV_PART_MAIN];
     btn_update_net \<leftarrow> lv_btn_create cont_update;
     obj \<leftarrow> lv_label_create btn_update_net;
     on lv_label_set_text obj [U [231, 189, 145, 231, 187, 156, 229, 141, 135, 231, 186, 167]];
     on lv_obj_add_style obj [Sty style_txt_s, K LV_PART_MAIN];
     on lv_obj_add_flag cont_update [K LV_OBJ_FLAG_HIDDEN];
     State_Monad.return \<lparr>about_bg = bg, area_info = area_info, cont_update = cont_update\<rparr> }"

text \<open>\<open>hidden\<close> is the answer of \<open>lv_obj_has_flag\<close>.\<close>

definition update_event_cb :: "bool \<Rightarrow> about_ui \<Rightarrow> unit gui" where
  "update_event_cb hidden a = do {
     (if hidden then on lv_obj_clear_flag (cont_update a) [K LV_OBJ_FLAG_HIDDEN]
      else on lv_obj_add_flag (cont_update a) [K LV_OBJ_FLAG_HIDDEN]);
     on lv_obj_align_to (cont_update a) [H (area_info a), K LV_ALIGN_OUT_BOTTOM_RIGHT, I 0, I 0] }"

definition menu_about_deinit :: "about_ui \<Rightarrow> unit gui" where
  "menu_about_deinit a = del (about_bg a)"

subsection \<open>Display and volume\<close>

text \<open>
  \<open>lv_snprintf (buf, 8, "%d%%", v)\<close>: the digits and a percent sign, cut to the seven characters
  that fit. The two modules are the same but for the names.
\<close>

fun digits :: "nat \<Rightarrow> string" where
  "digits n = (if n < 10 then [char_of (48 + n)] else digits (n div 10) @ [char_of (48 + n mod 10)])"

definition percent_text :: "int \<Rightarrow> string" where
  "percent_text v = (if v < 0 then ''-'' @ digits (nat (- v)) else digits (nat v)) @ ''%''"

definition percent_buf :: "int \<Rightarrow> string" where
  "percent_buf v = take 7 (percent_text v)"

record slider_ui =
  slider_bg :: nat
  slider :: nat
  value_label :: nat

definition display_slider_event_cb :: "int \<Rightarrow> slider_ui \<Rightarrow> unit gui" where
  "display_slider_event_cb v d = do {
     on lv_label_set_text (value_label d) [T (percent_buf v)];
     on lv_obj_align_to (value_label d) [H (slider d), K LV_ALIGN_OUT_TOP_RIGHT, I 0, I 0] }"

definition menu_display_init :: "nat \<Rightarrow> slider_ui gui" where
  "menu_display_init parent = do {
     bg \<leftarrow> lv_obj_create parent;
     on lv_obj_set_size bg [Pct 100, K LV_SIZE_CONTENT];
     on lv_obj_set_flex_flow bg [K LV_FLEX_FLOW_COLUMN];
     on lv_obj_center bg [];
     bright_label \<leftarrow> lv_label_create bg;
     on lv_label_set_text bright_label [U [228, 186, 174, 229, 186, 166]];
     on lv_obj_add_style bright_label [Sty style_txt_m, K LV_PART_MAIN];
     bright_slider \<leftarrow> lv_slider_create bg;
     on lv_obj_add_event_cb bright_slider [Cb ''slider_event_cb'', K LV_EVENT_VALUE_CHANGED, Nul];
     on lv_obj_set_width bright_slider [Pct 100];
     on lv_slider_set_range bright_slider [I 10, I 100];
     on lv_slider_set_value bright_slider [I 100, K LV_ANIM_OFF];
     bright_value \<leftarrow> lv_label_create bg;
     on lv_label_set_text bright_value [T ''100%''];
     on lv_obj_add_style bright_value [Sty style_txt_m, K LV_PART_MAIN];
     on lv_obj_add_flag bright_value [K LV_OBJ_FLAG_IGNORE_LAYOUT];
     on lv_obj_align_to bright_value [H bright_slider, K LV_ALIGN_OUT_TOP_RIGHT, I 0, I 0];
     State_Monad.return \<lparr>slider_bg = bg, slider = bright_slider, value_label = bright_value\<rparr> }"

definition menu_display_deinit :: "slider_ui \<Rightarrow> unit gui" where
  "menu_display_deinit d = del (slider_bg d)"

definition volume_slider_event_cb :: "int \<Rightarrow> slider_ui \<Rightarrow> unit gui" where
  "volume_slider_event_cb v d = do {
     on lv_label_set_text (value_label d) [T (percent_buf v)];
     on lv_obj_align_to (value_label d) [H (slider d), K LV_ALIGN_OUT_TOP_RIGHT, I 0, I 0] }"

definition menu_volume_init :: "nat \<Rightarrow> slider_ui gui" where
  "menu_volume_init parent = do {
     bg \<leftarrow> lv_obj_create parent;
     on lv_obj_set_size bg [Pct 100, K LV_SIZE_CONTENT];
     on lv_obj_set_flex_flow bg [K LV_FLEX_FLOW_COLUMN];
     on lv_obj_center bg [];
     volume_label \<leftarrow> lv_label_create bg;
     on lv_label_set_text volume_label [U [233, 159, 179, 233, 135, 143]];
     on lv_obj_add_style volume_label [Sty style_txt_m, K LV_PART_MAIN];
     volume_slider \<leftarrow> lv_slider_create bg;
     on lv_obj_add_event_cb volume_slider [Cb ''slider_event_cb'', K LV_EVENT_VALUE_CHANGED, Nul];
     on lv_obj_set_width volume_slider [Pct 100];
     on lv_slider_set_range volume_slider [I 10, I 100];
     on lv_slider_set_value volume_slider [I 100, K LV_ANIM_OFF];
     volume_value \<leftarrow> lv_label_create bg;
     on lv_label_set_text volume_value [T ''100%''];
     on lv_obj_add_style volume_value [Sty style_txt_m, K LV_PART_MAIN];
     on lv_obj_add_flag volume_value [K LV_OBJ_FLAG_IGNORE_LAYOUT];
     on lv_obj_align_to volume_value [H volume_slider, K LV_ALIGN_OUT_TOP_RIGHT, I 0, I 0];
     State_Monad.return \<lparr>slider_bg = bg, slider = volume_slider, value_label = volume_value\<rparr> }"

definition menu_volume_deinit :: "slider_ui \<Rightarrow> unit gui" where
  "menu_volume_deinit d = del (slider_bg d)"

subsection \<open>Language and date\<close>

record language_ui =
  language_bg :: nat
  label_date :: nat
  label_time :: nat

definition menu_language_init :: "nat \<Rightarrow> language_ui gui" where
  "menu_language_init parent = do {
     bg \<leftarrow> lv_obj_create parent;
     on lv_obj_remove_style_all bg [];
     on lv_obj_set_style_pad_all bg [I 10, K LV_PART_MAIN];
     on lv_obj_set_style_pad_gap bg [I 30, K LV_PART_MAIN];
     on lv_obj_set_size bg [Pct 100, K LV_SIZE_CONTENT];
     on lv_obj_set_flex_flow bg [K LV_FLEX_FLOW_COLUMN];
     on lv_obj_align bg [K LV_ALIGN_TOP_MID, I 0, I 0];
     area_language \<leftarrow> lv_obj_create bg;
     on lv_obj_remove_style_all area_language [];
     on lv_obj_set_size area_language [Pct 100, K LV_SIZE_CONTENT];
     obj \<leftarrow> lv_label_create area_language;
     on lv_label_set_text obj [U [232, 175, 173, 232, 168, 128]];
     on lv_obj_add_style obj [Sty style_txt_m, K LV_PART_MAIN];
     obj \<leftarrow> lv_dropdown_create area_language;
     on lv_obj_add_style obj [Sty style_txt_s, K LV_PART_MAIN];
     dropdown_list \<leftarrow> lv_dropdown_get_list obj;
     on lv_obj_add_style dropdown_list [Sty style_txt_s, K LV_PART_MAIN];
     on lv_dropdown_set_options obj [U [228, 184, 173, 230, 150, 135, 10, 69, 110, 103, 108, 105, 115, 104]];
     on lv_obj_align obj [K LV_ALIGN_RIGHT_MID, I 0, I 0];
     area_date \<leftarrow> lv_obj_create bg;
     on lv_obj_remove_style_all area_date [];
     on lv_obj_set_size area_date [Pct 100, K LV_SIZE_CONTENT];
     obj \<leftarrow> lv_label_create area_date;
     on lv_label_set_text obj [U [230, 151, 165, 230, 156, 159]];
     on lv_obj_add_style obj [Sty style_txt_m, K LV_PART_MAIN];
     label_date \<leftarrow> lv_label_create area_date;
     on lv_label_set_text label_date [T ''2023-07-12''];
     on lv_obj_add_flag label_date [K LV_OBJ_FLAG_CLICKABLE];
     on lv_obj_add_style label_date [Sty style_txt_m, K LV_PART_MAIN];
     on lv_obj_align label_date [K LV_ALIGN_RIGHT_MID, I 0, I 0];
     on lv_obj_add_event_cb label_date [Cb ''show_calendar'', K LV_EVENT_CLICKED, Nul];
     area_time \<leftarrow> lv_obj_create bg;
     on lv_obj_remove_style_all area_time [];
     on lv_obj_set_size area_time [Pct 100, K LV_SIZE_CONTENT];
     obj \<leftarrow> lv_label_create area_time;
     on lv_label_set_text obj [U [230, 151, 182, 233, 151, 180]];
     on lv_obj_add_style obj [Sty style_txt_m, K LV_PART_MAIN];
     label_time \<leftarrow> lv_label_create area_time;
     on lv_label_set_text label_time [T ''15:25''];
     on lv_obj_add_flag label_time [K LV_OBJ_FLAG_CLICKABLE];
     on lv_obj_add_style label_time [Sty style_txt_m, K LV_PART_MAIN];
     on lv_obj_align label_time [K LV_ALIGN_RIGHT_MID, I 0, I 0];
     on lv_obj_add_event_cb label_time [Cb ''show_time_setting'', K LV_EVENT_CLICKED, Nul];
     State_Monad.return \<lparr>language_bg = bg, label_date = label_date, label_time = label_time\<rparr> }"

definition menu_language_deinit :: "language_ui \<Rightarrow> unit gui" where
  "menu_language_deinit l = del (language_bg l)"

text \<open>The calendar: a mask over the whole screen, on the top layer.\<close>

record calendar_ui =
  cal_mask :: nat
  calendar :: nat

definition show_calendar :: "calendar_ui gui" where
  "show_calendar = do {
     mask \<leftarrow> lv_obj_create lv_layer_top;
     on lv_obj_remove_style_all mask [];
     on lv_obj_set_size mask [Pct 100, Pct 100];
     on lv_obj_set_style_bg_color mask [Hex 0, K LV_PART_MAIN];
     on lv_obj_set_style_bg_opa mask [I 150, K LV_PART_MAIN];
     calendar \<leftarrow> lv_calendar_create mask;
     on lv_obj_set_size calendar [Pct 80, Pct 60];
     on lv_obj_add_event_cb calendar [Cb ''calendar_cb'', K LV_EVENT_VALUE_CHANGED, Nul];
     on lv_obj_center calendar [];
     on lv_calendar_set_today_date calendar [I 2023, I 7, I 12];
     on lv_calendar_set_showed_date calendar [I 2023, I 7];
     header \<leftarrow> lv_calendar_header_arrow_create calendar;
     State_Monad.return \<lparr>cal_mask = mask, calendar = calendar\<rparr> }"

text \<open>\<open>%04d-%02d-%02d\<close>; the date is \<open>None\<close> where \<open>lv_calendar_get_pressed_date\<close> says no.\<close>

definition padded :: "nat \<Rightarrow> nat \<Rightarrow> string" where
  "padded w n = replicate (w - length (digits n)) CHR ''0'' @ digits n"

definition calendar_cb :: "(nat \<times> nat \<times> nat) option \<Rightarrow> calendar_ui \<Rightarrow> language_ui \<Rightarrow> unit gui" where
  "calendar_cb pressed c l = (case pressed of
     None \<Rightarrow> State_Monad.return ()
   | Some (year, month, day) \<Rightarrow> do {
       on lv_label_set_text_fmt (label_date l)
         [T (padded 4 year @ ''-'' @ padded 2 month @ ''-'' @ padded 2 day)];
       del (cal_mask c) })"

text \<open>The time: three rollers and a button.\<close>

record time_ui =
  time_mask :: nat
  roller_hour :: nat
  roller_min :: nat
  roller_sec :: nat
  btn_confirm :: nat

definition show_time_setting :: "time_ui gui" where
  "show_time_setting = do {
     mask \<leftarrow> lv_obj_create lv_layer_top;
     on lv_obj_remove_style_all mask [];
     on lv_obj_set_size mask [Pct 100, Pct 100];
     on lv_obj_set_style_bg_color mask [Hex 0, K LV_PART_MAIN];
     on lv_obj_set_style_bg_opa mask [I 150, K LV_PART_MAIN];
     time_roller_1 \<leftarrow> lv_roller_create mask;
     on lv_roller_set_options time_roller_1 [Lines min_opts, K LV_ROLLER_MODE_INFINITE];
     on lv_roller_set_visible_row_count time_roller_1 [I 3];
     on lv_obj_align time_roller_1 [K LV_ALIGN_CENTER, I 0, I 0];
     time_roller_0 \<leftarrow> lv_roller_create mask;
     on lv_roller_set_options time_roller_0 [Lines hour_opts, K LV_ROLLER_MODE_INFINITE];
     on lv_roller_set_visible_row_count time_roller_0 [I 3];
     on lv_obj_align_to time_roller_0 [H time_roller_1, K LV_ALIGN_OUT_LEFT_MID, I (-10), I 0];
     time_roller_2 \<leftarrow> lv_roller_create mask;
     on lv_roller_set_options time_roller_2 [Lines min_opts, K LV_ROLLER_MODE_INFINITE];
     on lv_roller_set_visible_row_count time_roller_2 [I 3];
     on lv_obj_align_to time_roller_2 [H time_roller_1, K LV_ALIGN_OUT_RIGHT_MID, I 10, I 0];
     on lv_obj_add_event_cb time_roller_1 [Cb ''roller_drawed'', K LV_EVENT_DRAW_POST_END, Nul];
     on lv_roller_set_selected time_roller_0 [I 15, K LV_ANIM_OFF];
     on lv_roller_set_selected time_roller_1 [I 25, K LV_ANIM_OFF];
     on lv_roller_set_selected time_roller_2 [I 30, K LV_ANIM_OFF];
     btn_confirm \<leftarrow> lv_btn_create mask;
     on lv_obj_align_to btn_confirm [H time_roller_1, K LV_ALIGN_OUT_BOTTOM_MID, I 0, I 10];
     on lv_obj_add_event_cb btn_confirm [Cb ''confirm_cb'', K LV_EVENT_CLICKED, Nul];
     obj \<leftarrow> lv_label_create btn_confirm;
     on lv_obj_center obj [];
     on lv_label_set_text obj [U [231, 161, 174, 232, 174, 164]];
     on lv_obj_add_style obj [Sty style_txt_s, K LV_PART_MAIN];
     State_Monad.return \<lparr>time_mask = mask, roller_hour = time_roller_0, roller_min = time_roller_1,
       roller_sec = time_roller_2, btn_confirm = btn_confirm\<rparr> }"

definition roller_drawed :: "time_ui \<Rightarrow> unit gui" where
  "roller_drawed t =
     on lv_obj_align_to (btn_confirm t) [H (roller_min t), K LV_ALIGN_OUT_BOTTOM_MID, I 0, I 10]"

text \<open>\<open>confirm_cb\<close> of \<open>Setting_UI\<close> reads the chosen lines; here are its calls.\<close>

definition confirm_cb_calls :: "nat \<Rightarrow> nat \<Rightarrow> nat \<Rightarrow> time_ui \<Rightarrow> language_ui \<Rightarrow> unit gui" where
  "confirm_cb_calls h m s t l = do {
     on lv_roller_get_selected_str (roller_hour t) [I 10];
     on lv_roller_get_selected_str (roller_min t) [I 10];
     on lv_roller_get_selected_str (roller_sec t) [I 10];
     let (hour, minute) = confirm_cb h m s;
     on lv_label_set_text_fmt (label_time l) [T (padded 2 hour @ '':'' @ padded 2 minute)];
     del (time_mask t) }"

subsection \<open>Wallpaper\<close>

definition wallpapers_thumb :: "resource list" where
  "wallpapers_thumb = [WALLPAPER_0, WALLPAPER_1, WALLPAPER_2, WALLPAPER_3]"

definition wallpapers :: "resource list" where
  "wallpapers = [BG_PIC_0, BG_PIC_1, BG_PIC_2, BG_PIC_3]"

definition thumb :: "nat \<Rightarrow> resource \<Rightarrow> unit gui" where
  "thumb area_depart t = do {
     obj \<leftarrow> lv_img_create area_depart;
     on lv_obj_set_size obj [I 160, I 120];
     on lv_img_set_src obj [R t] }"

definition wallpaper_btn :: "nat \<Rightarrow> resource \<times> resource \<Rightarrow> unit gui" where
  "wallpaper_btn area_depart w = do {
     obj \<leftarrow> lv_img_create area_depart;
     on lv_obj_set_size obj [I 160, I 120];
     on lv_img_set_src obj [R (fst w)];
     on lv_obj_add_flag obj [K LV_OBJ_FLAG_CLICKABLE];
     on lv_obj_add_event_cb obj [Cb ''wallpaper_cb'', K LV_EVENT_CLICKED, R (snd w)] }"

definition menu_wallpaper_init :: "int \<Rightarrow> nat \<Rightarrow> nat gui" where
  "menu_wallpaper_init selected_id parent = do {
     bg \<leftarrow> lv_obj_create parent;
     on lv_obj_remove_style_all bg [];
     on lv_obj_set_style_pad_all bg [I 10, K LV_PART_MAIN];
     on lv_obj_set_style_pad_gap bg [I 30, K LV_PART_MAIN];
     on lv_obj_set_size bg [Pct 100, K LV_SIZE_CONTENT];
     on lv_obj_set_flex_flow bg [K LV_FLEX_FLOW_COLUMN];
     on lv_obj_align bg [K LV_ALIGN_TOP_MID, I 0, I 0];
     area_screen_timeout \<leftarrow> lv_obj_create bg;
     on lv_obj_set_size area_screen_timeout [Pct 100, K LV_SIZE_CONTENT];
     obj \<leftarrow> lv_label_create area_screen_timeout;
     on lv_label_set_text obj [U [233, 148, 129, 229, 177, 143, 230, 151, 182, 233, 151, 180]];
     on lv_obj_add_style obj [Sty style_txt_m, K LV_PART_MAIN];
     obj \<leftarrow> lv_dropdown_create area_screen_timeout;
     on lv_obj_add_style obj [Sty style_txt_s, K LV_PART_MAIN];
     dropdown_list \<leftarrow> lv_dropdown_get_list obj;
     on lv_obj_add_style dropdown_list [Sty style_txt_s, K LV_PART_MAIN];
     on lv_obj_add_event_cb obj [Cb ''screen_timeout_cb'', K LV_EVENT_VALUE_CHANGED, Nul];
     on lv_dropdown_set_options obj [U [53, 115, 10, 54, 48, 115, 10, 49, 50, 48, 115, 10, 53, 109, 105, 110, 115, 10, 230, 176, 184, 228, 184, 141]];
     on lv_dropdown_set_selected obj [I selected_id];
     on lv_obj_align obj [K LV_ALIGN_RIGHT_MID, I 0, I 0];
     area_locked_screen \<leftarrow> lv_obj_create bg;
     on lv_obj_set_size area_locked_screen [Pct 100, K LV_SIZE_CONTENT];
     on lv_obj_set_flex_flow area_locked_screen [K LV_FLEX_FLOW_COLUMN];
     obj \<leftarrow> lv_label_create area_locked_screen;
     on lv_label_set_text obj [U [233, 148, 129, 229, 177, 143]];
     on lv_obj_add_style obj [Sty style_txt_m, K LV_PART_MAIN];
     on lv_obj_align obj [K LV_ALIGN_TOP_LEFT, I 0, I 0];
     area_depart \<leftarrow> lv_obj_create area_locked_screen;
     on lv_obj_remove_style_all area_depart [];
     on lv_obj_set_size area_depart [Pct 100, K LV_SIZE_CONTENT];
     on lv_obj_set_flex_flow area_depart [K LV_FLEX_FLOW_ROW];
     on lv_obj_set_style_pad_column area_depart [I 10, I 0];
     each (thumb area_depart) wallpapers_thumb;
     area_wallpaper \<leftarrow> lv_obj_create bg;
     on lv_obj_set_size area_wallpaper [Pct 100, K LV_SIZE_CONTENT];
     on lv_obj_set_flex_flow area_wallpaper [K LV_FLEX_FLOW_COLUMN];
     obj \<leftarrow> lv_label_create area_wallpaper;
     on lv_label_set_text obj [U [229, 163, 129, 231, 186, 184]];
     on lv_obj_add_style obj [Sty style_txt_m, K LV_PART_MAIN];
     on lv_obj_align obj [K LV_ALIGN_TOP_LEFT, I 0, I 0];
     area_depart \<leftarrow> lv_obj_create area_wallpaper;
     on lv_obj_remove_style_all area_depart [];
     on lv_obj_set_size area_depart [Pct 100, K LV_SIZE_CONTENT];
     on lv_obj_set_flex_flow area_depart [K LV_FLEX_FLOW_ROW];
     on lv_obj_set_style_pad_column area_depart [I 10, I 0];
     each (wallpaper_btn area_depart) (zip wallpapers_thumb wallpapers);
     State_Monad.return bg }"

definition menu_wallpaper_deinit :: "nat \<Rightarrow> unit gui" where
  "menu_wallpaper_deinit bg = del bg"

subsection \<open>Bluetooth\<close>

text \<open>\<open>state_on\<close>: the server's answer to \<open>BT_INFO\<close> is \<open>BT_STATE_ON\<close>.\<close>

definition menu_bt_init :: "bool \<Rightarrow> nat \<Rightarrow> nat gui" where
  "menu_bt_init state_on parent = do {
     bg \<leftarrow> lv_obj_create parent;
     on lv_obj_remove_style_all bg [];
     on lv_obj_set_size bg [Pct 100, Pct 100];
     on lv_obj_set_flex_flow bg [K LV_FLEX_FLOW_COLUMN];
     on lv_obj_center bg [];
     part_switch \<leftarrow> lv_obj_create bg;
     on lv_obj_set_width part_switch [Pct 100];
     on lv_obj_set_height part_switch [K LV_SIZE_CONTENT];
     on lv_obj_add_style part_switch [Sty style_txt_s, K LV_PART_MAIN];
     bt_label \<leftarrow> lv_label_create part_switch;
     on lv_obj_align bt_label [K LV_ALIGN_LEFT_MID, I 0, I 0];
     on lv_label_set_text bt_label [T ''BT''];
     on lv_obj_add_style bt_label [Sty style_txt_s, K LV_PART_MAIN];
     bt_switch \<leftarrow> lv_switch_create part_switch;
     on lv_obj_align bt_switch [K LV_ALIGN_RIGHT_MID, I 0, I 0];
     (if state_on then on lv_obj_add_state bt_switch [K LV_STATE_CHECKED]
      else on lv_obj_clear_state bt_switch [K LV_STATE_CHECKED]);
     on lv_obj_add_event_cb bt_switch [Cb ''switch_toggled'', K LV_EVENT_VALUE_CHANGED, Nul];
     State_Monad.return bg }"

definition menu_bt_deinit :: "nat \<Rightarrow> unit gui" where
  "menu_bt_deinit bg = del bg"

subsection \<open>Properties\<close>

text \<open>The text of a slider's value is never cut: its range is 10 to 100.\<close>

lemma digits_length: "n < 1000 \<Longrightarrow> length (digits n) \<le> 3"
  by (subst digits.simps; subst digits.simps; subst digits.simps) auto

lemma percent_fits: "0 \<le> v \<Longrightarrow> v \<le> 100 \<Longrightarrow> percent_buf v = percent_text v"
  using digits_length [of "nat v"] by (simp add: percent_buf_def percent_text_def)

text \<open>A date or a time chosen: the dialog opens on the top layer, and is gone afterwards.\<close>

definition choose_date :: "language_ui \<Rightarrow> nat \<times> nat \<times> nat \<Rightarrow> unit gui" where
  "choose_date l d = do { c \<leftarrow> show_calendar; calendar_cb (Some d) c l }"

definition choose_time :: "language_ui \<Rightarrow> nat \<times> nat \<times> nat \<Rightarrow> unit gui" where
  "choose_time l x = do {
     t \<leftarrow> show_time_setting;
     roller_drawed t;
     confirm_cb_calls (fst x) (fst (snd x)) (snd (snd x)) t l }"

lemma accepts_label: "accepts e h (\<lambda>c. c = Label) \<Longrightarrow> \<exists>q. e h = Some (Label, q)"
  by (auto simp: accepts_def split: option.splits)

lemma date_chosen:
  assumes f: "fresh_from n e" and "accepts e lv_layer_top (\<lambda>_. True)"
    and "accepts e (label_date l) (\<lambda>c. c = Label)"
  shows "typed (choose_date l d) n e (\<lambda>_ n' e'. n \<le> n' \<and> e' = e)"
proof -
  obtain y m d' where d: "d = (y, m, d')" by (cases d)
  from assms(2) obtain x where x: "e lv_layer_top = Some x" by (auto simp: accepts_def split: option.splits)
  from accepts_label [OF assms(3)] obtain q where q: "e (label_date l) = Some (Label, q)" by blast
  note n = fresh_fromD [OF f] fresh_from_less [OF f x] fresh_from_less [OF f q]
  show ?thesis
    unfolding choose_date_def show_calendar_def calendar_cb_def option.case d prod.case
    using f x q n
    apply (intro typed_rules conjI refl; ((simp add: class_simps split: option.splits; fail) | succeed))
    apply (simp only: calendar_ui.simps, rule tree_removed, assumption)
    apply (((rule tree_root; assumption) | (rule tree_create; (simp; fail)?))+)
    done
qed

lemma time_chosen:
  assumes f: "fresh_from n e" and "accepts e lv_layer_top (\<lambda>_. True)"
    and "accepts e (label_time l) (\<lambda>c. c = Label)"
  shows "typed (choose_time l t) n e (\<lambda>_ n' e'. n \<le> n' \<and> e' = e)"
proof -
  from assms(2) obtain x where x: "e lv_layer_top = Some x" by (auto simp: accepts_def split: option.splits)
  from accepts_label [OF assms(3)] obtain q where q: "e (label_time l) = Some (Label, q)" by blast
  note n = fresh_fromD [OF f] fresh_from_less [OF f x] fresh_from_less [OF f q]
  show ?thesis
    unfolding choose_time_def show_time_setting_def confirm_cb_calls_def roller_drawed_def
      confirm_cb_def Let_def prod.case
    using f x q n
    apply (intro typed_rules conjI refl; ((simp add: class_simps split: option.splits; fail) | succeed))
    apply (simp only: time_ui.simps, rule tree_removed, assumption)
    apply (((rule tree_root; assumption) | (rule tree_create; (simp; fail)?))+)
    done
qed

lemma wallpaper_pairs: "zip wallpapers_thumb wallpapers =
    [(WALLPAPER_0, BG_PIC_0), (WALLPAPER_1, BG_PIC_1), (WALLPAPER_2, BG_PIC_2), (WALLPAPER_3, BG_PIC_3)]"
  by (simp add: wallpapers_thumb_def wallpapers_def)

lemma wallpaper_restores: "restores {parent} (menu_wallpaper_init sel parent \<bind> menu_wallpaper_deinit)"
  unfolding menu_wallpaper_init_def menu_wallpaper_deinit_def wallpaper_pairs
  unfolding wallpapers_thumb_def each.simps thumb_def wallpaper_btn_def fst_conv snd_conv
  by (rule restoresI; intro typed_rules; ((simp add: class_simps split: option.splits; fail)
    | (rule tree_removed, simp, ((rule tree_root; assumption) | (rule tree_create; (simp; fail)?))+)))

lemma language_restores:
  "restores {parent, lv_layer_top} (do { l \<leftarrow> menu_language_init parent; each (choose_date l) ds;
     each (choose_time l) ts; menu_language_deinit l })"
  unfolding menu_language_init_def menu_language_deinit_def
  apply (rule restoresI)
  apply (intro typed_rules typed_each_keep date_chosen time_chosen;
    ((simp add: class_simps split: option.splits; fail) | (simp add: fresh_from_def; fail)
    | (rule accepts_dom; auto; fail) | succeed))
  apply (simp only: language_ui.simps, rule tree_removed, assumption)
  apply (((rule tree_root; assumption) | (rule tree_create; (simp; fail)?))+)
  done

lemma about_restores:
  "restores {parent} (do { a \<leftarrow> menu_about_init parent; each (\<lambda>h. update_event_cb h a) hs;
     menu_about_deinit a })"
  unfolding menu_about_init_def update_event_cb_def menu_about_deinit_def
  apply (rule restoresI)
  apply (intro typed_rules typed_if typed_each_keep conjI refl;
    ((simp add: class_simps split: option.splits; fail) | succeed))
  apply ((simp only: about_ui.simps)?, rule tree_removed, assumption)
  apply (((rule tree_root; assumption) | (rule tree_create; (simp; fail)?))+)
  done

lemma display_restores:
  "restores {parent} (do { d \<leftarrow> menu_display_init parent; each (\<lambda>v. display_slider_event_cb v d) vs;
     menu_display_deinit d })"
  unfolding menu_display_init_def display_slider_event_cb_def menu_display_deinit_def
  apply (rule restoresI)
  apply (intro typed_rules typed_if typed_each_keep conjI refl;
    ((simp add: class_simps split: option.splits; fail) | succeed))
  apply ((simp only: slider_ui.simps)?, rule tree_removed, assumption)
  apply (((rule tree_root; assumption) | (rule tree_create; (simp; fail)?))+)
  done

lemma volume_restores:
  "restores {parent} (do { d \<leftarrow> menu_volume_init parent; each (\<lambda>v. volume_slider_event_cb v d) vs;
     menu_volume_deinit d })"
  unfolding menu_volume_init_def volume_slider_event_cb_def menu_volume_deinit_def
  apply (rule restoresI)
  apply (intro typed_rules typed_if typed_each_keep conjI refl;
    ((simp add: class_simps split: option.splits; fail) | succeed))
  apply ((simp only: slider_ui.simps)?, rule tree_removed, assumption)
  apply (((rule tree_root; assumption) | (rule tree_create; (simp; fail)?))+)
  done

lemma bt_restores: "restores {parent} (menu_bt_init st parent \<bind> menu_bt_deinit)"
  unfolding menu_bt_init_def menu_bt_deinit_def
  apply (rule restoresI)
  apply (intro typed_rules typed_if conjI refl;
    ((simp add: class_simps split: option.splits; fail) | succeed))
  apply ((rule tree_removed, assumption,
    ((rule tree_root; assumption) | (rule tree_create; (simp; fail)?))+)+)
  done

text \<open>C19. Opening a submenu, using it and closing it leaves the widgets as they were: every call is
  on a live object of the right class, however often the callbacks run, and deleting the
  submenu's root deletes all it made. The dialogs for the date and the time stand on the top
  layer and are gone when a date or a time has been chosen.\<close>

theorem submenus_restore:
  "restores {parent} (do { a \<leftarrow> menu_about_init parent; each (\<lambda>h. update_event_cb h a) hs; menu_about_deinit a })
   \<and> restores {parent} (do { d \<leftarrow> menu_display_init parent; each (\<lambda>v. display_slider_event_cb v d) vs;
       menu_display_deinit d })
   \<and> restores {parent} (do { d \<leftarrow> menu_volume_init parent; each (\<lambda>v. volume_slider_event_cb v d) vs;
       menu_volume_deinit d })
   \<and> restores {parent, lv_layer_top} (do { l \<leftarrow> menu_language_init parent; each (choose_date l) ds;
       each (choose_time l) ts; menu_language_deinit l })
   \<and> restores {parent} (menu_wallpaper_init sel parent \<bind> menu_wallpaper_deinit)
   \<and> restores {parent} (menu_bt_init st parent \<bind> menu_bt_deinit)"
  by (intro conjI about_restores display_restores volume_restores language_restores
    wallpaper_restores bt_restores)

end
