(* ===== verification/Widget_Logic.thy ===== *)
theory Widget_Logic
  imports Widgets
begin

text \<open>
  A logic for programs that build several trees of widgets and delete them as wholes, which is
  what the pages do: each has one root on the screen or on a layer, a few have two.

  A context lists the roots that are alive, each with the objects below it that the program
  still needs, and their classes. \<open>makes F m Rt D\<close> is a Hoare triple: where the context \<open>F\<close> holds,
  \<open>m\<close> is well typed, its result satisfies \<open>Rt\<close>, and \<open>D\<close> of its result holds afterwards, in the
  strong sense that nothing else has been left below the screen. The rules follow the program.
\<close>

subsection \<open>Forests\<close>

type_synonym ctx = "(nat \<times> (nat \<times> cls) list) list"

text \<open>
  Since \<open>(n, e)\<close> the old objects are the same, and every new one is a root of \<open>Rt\<close>, on an old
  object, or below a live new one.
\<close>

definition forest :: "nat \<Rightarrow> env \<Rightarrow> nat set \<Rightarrow> nat \<Rightarrow> env \<Rightarrow> bool" where
  "forest n e Rt n' e' = (n \<le> n' \<and> (\<forall>h < n. e' h = e h) \<and> fresh_from n' e' \<and> (\<forall>r \<in> Rt. n \<le> r)
     \<and> (\<forall>h c q. n \<le> h \<and> e' h = Some (c, q) \<longrightarrow>
          (if h \<in> Rt then q < n \<and> e q \<noteq> None else n \<le> q \<and> q < h \<and> e' q \<noteq> None)))"

lemma forest_parent:
  "forest n e Rt n' e' \<Longrightarrow> n \<le> h \<Longrightarrow> e' h = Some (c, q) \<Longrightarrow>
    (if h \<in> Rt then q < n \<and> e q \<noteq> None else n \<le> q \<and> q < h \<and> e' q \<noteq> None)"
  unfolding forest_def by blast

lemma forestI:
  assumes "n \<le> n'" "\<And>h. h < n \<Longrightarrow> e' h = e h" "fresh_from n' e'" "\<And>r. r \<in> Rt \<Longrightarrow> n \<le> r"
    "\<And>h c q. n \<le> h \<Longrightarrow> e' h = Some (c, q) \<Longrightarrow>
       (if h \<in> Rt then q < n \<and> e q \<noteq> None else n \<le> q \<and> q < h \<and> e' q \<noteq> None)"
  shows "forest n e Rt n' e'"
  using assms unfolding forest_def by blast

lemma forest_facts:
  "forest n e Rt n' e' \<Longrightarrow> n \<le> n'" "forest n e Rt n' e' \<Longrightarrow> h < n \<Longrightarrow> e' h = e h"
  "forest n e Rt n' e' \<Longrightarrow> fresh_from n' e'" "forest n e Rt n' e' \<Longrightarrow> r \<in> Rt \<Longrightarrow> n \<le> r"
  unfolding forest_def by blast+

text \<open>With no root nothing new is alive.\<close>

lemma forest_empty:
  assumes f: "forest n e {} n' e'" and "fresh_from n e"
  shows "e' = e"
proof
  fix h
  have "e' h = None" if "n \<le> h" for h
    using that
  proof (induction h rule: less_induct)
    case (less h)
    show ?case
    proof (cases "e' h")
      case (Some x)
      obtain c q where "x = (c, q)" by fastforce
      with forest_parent [OF f less.prems] Some less.IH [of q] show ?thesis by auto
    qed
  qed
  then show "e' h = e h"
    using forest_facts(2) [OF f, of h] fresh_fromD [OF assms(2), of h] by (cases "n \<le> h") auto
qed

subsection \<open>Walks to the root\<close>

lemma below_refl [simp]: "below e h h"
  by (subst below.simps) simp

lemma below_step: "e x = Some (c, q) \<Longrightarrow> q < x \<Longrightarrow> below e h q \<Longrightarrow> below e h x"
  by (subst below.simps) simp

lemma below_cases:
  assumes "below e h x"
  obtains "x = h" | c q where "x \<noteq> h" "e x = Some (c, q)" "q < x" "below e h q"
  using assms by (subst (asm) below.simps) (auto split: option.splits if_splits)

lemma below_agree:
  assumes "\<And>y. y \<le> x \<Longrightarrow> e' y = e y"
  shows "below e' h x = below e h x"
  using assms
proof (induction x rule: less_induct)
  case (less x)
  have e: "e' x = e x" using less.prems by simp
  have "below e' h q = below e h q" if "q < x" for q
    by (rule less.IH) (use that less.prems in auto)
  then show ?case
    by (subst (1 2) below.simps) (auto simp: e split: option.splits)
qed

lemma below_root_unique:
  assumes f: "forest n e Rt n' e'" and "r \<in> Rt" "r' \<in> Rt"
  shows "below e' r h \<Longrightarrow> below e' r' h \<Longrightarrow> r = r'"
proof (induction h rule: less_induct)
  case (less h)
  have eq: "a = b" if "a \<in> Rt" "b \<in> Rt" "below e' b a" for a b
    using that(3)
  proof (cases rule: below_cases)
    case (2 c q)
    have "q < n" using forest_parent [OF f forest_facts(4) [OF f that(1)] 2(2)] that(1) by simp
    moreover have "b \<le> q" by (rule below_ge [OF 2(4)])
    ultimately show ?thesis using forest_facts(4) [OF f that(2)] by simp
  qed simp
  from less.prems(1) show ?case
  proof (cases rule: below_cases)
    case 1
    then show ?thesis using eq [of r r'] assms(2,3) less.prems(2) by simp
  next
    case (2 c q)
    from less.prems(2) show ?thesis
    proof (cases rule: below_cases)
      case 1
      then show ?thesis using eq [of r' r] assms(2,3) less.prems(1) by simp
    next
      case (2 c' q')
      with \<open>e' h = Some (c, q)\<close> \<open>below e' r q\<close> less.IH [of q] show ?thesis by simp
    qed
  qed
qed

lemma below_remove:
  "below e r' x \<Longrightarrow> \<not> below e r x \<Longrightarrow> below (remove e r) r' x"
proof (induction x rule: less_induct)
  case (less x)
  from less.prems(1) show ?case
  proof (cases rule: below_cases)
    case (2 c q)
    with less.prems(2) have "\<not> below e r q" using below_step by blast
    with 2 less have "below (remove e r) r' q" by blast
    with 2 less.prems(2) show ?thesis by (intro below_step [of _ x c q]) (auto simp: remove_def)
  qed simp
qed

subsection \<open>Contexts\<close>

definition world :: "nat \<Rightarrow> env \<Rightarrow> bool" where
  "world n e = (fresh_from n e \<and> e lv_scr_act \<noteq> None \<and> e lv_layer_top \<noteq> None \<and> e lv_layer_sys \<noteq> None)"

definition has_cls :: "env \<Rightarrow> nat \<Rightarrow> cls \<Rightarrow> bool" where
  "has_cls e h c = (\<exists>q. e h = Some (c, q))"

definition under :: "nat \<Rightarrow> env \<Rightarrow> ctx \<Rightarrow> nat \<Rightarrow> env \<Rightarrow> bool" where
  "under n e F n' e' = (world n e \<and> forest n e (fst ` set F) n' e' \<and> distinct (map fst F)
     \<and> (\<forall>(r, hs) \<in> set F. e' r \<noteq> None \<and> (\<forall>(h, c) \<in> set hs. below e' r h \<and> has_cls e' h c)))"

lemma underI:
  assumes "world n e" "forest n e (fst ` set F) n' e'" "distinct (map fst F)"
    "\<And>r hs. (r, hs) \<in> set F \<Longrightarrow> e' r \<noteq> None"
    "\<And>r hs h c. (r, hs) \<in> set F \<Longrightarrow> (h, c) \<in> set hs \<Longrightarrow> below e' r h \<and> has_cls e' h c"
  shows "under n e F n' e'"
  using assms unfolding under_def by blast

lemma under_facts:
  "under n e F n' e' \<Longrightarrow> world n e" "under n e F n' e' \<Longrightarrow> forest n e (fst ` set F) n' e'"
  "under n e F n' e' \<Longrightarrow> distinct (map fst F)"
  "under n e F n' e' \<Longrightarrow> (r, hs) \<in> set F \<Longrightarrow> e' r \<noteq> None"
  "under n e F n' e' \<Longrightarrow> (r, hs) \<in> set F \<Longrightarrow> (h, c) \<in> set hs \<Longrightarrow> below e' r h"
  "under n e F n' e' \<Longrightarrow> (r, hs) \<in> set F \<Longrightarrow> (h, c) \<in> set hs \<Longrightarrow> has_cls e' h c"
  unfolding under_def by blast+

lemma has_cls_less: "fresh_from n e \<Longrightarrow> has_cls e h c \<Longrightarrow> h < n"
  unfolding has_cls_def using fresh_from_less by blast

lemma under_less:
  assumes "under n e F n' e'" "(r, hs) \<in> set F" "(h, c) \<in> set hs"
  shows "h < n'"
  using under_facts(6) [OF assms] forest_facts(3) [OF under_facts(2) [OF assms(1)]]
  by (blast intro: has_cls_less)

lemma under_root_less:
  assumes u: "under n e F n' e'" and r: "(r, hs) \<in> set F"
  shows "n \<le> r \<and> r < n'"
proof
  from r have "r \<in> fst ` set F" by force
  then show "n \<le> r" by (rule forest_facts(4) [OF under_facts(2) [OF u]])
  obtain x where "e' r = Some x" using under_facts(4) [OF u r] by blast
  then show "r < n'" by (rule fresh_from_less [OF forest_facts(3) [OF under_facts(2) [OF u]]])
qed

text \<open>Forgetting objects that are not needed any more.\<close>

definition sub :: "ctx \<Rightarrow> ctx \<Rightarrow> bool" where
  "sub F G = list_all2 (\<lambda>(r, hs) (r', hs'). r = r' \<and> set hs \<subseteq> set hs') F G"

lemma sub_refl [simp]: "sub F F"
  by (auto simp: sub_def intro!: list_all2_refl)

lemma sub_Cons [simp]: "sub ((r, hs) # F) ((r', hs') # G) = (r = r' \<and> set hs \<subseteq> set hs' \<and> sub F G)"
  by (auto simp: sub_def)

lemma sub_fst: "sub F G \<Longrightarrow> map fst F = map fst G"
  unfolding sub_def by (induction rule: list_all2_induct) auto

lemma sub_mem: "sub F G \<Longrightarrow> (r, hs) \<in> set F \<Longrightarrow> \<exists>hs'. (r, hs') \<in> set G \<and> set hs \<subseteq> set hs'"
  unfolding sub_def by (induction rule: list_all2_induct) auto

lemma under_sub:
  assumes u: "under n e G n' e'" and s: "sub F G"
  shows "under n e F n' e'"
proof (rule underI)
  have "fst ` set F = fst ` set G" using sub_fst [OF s] by (metis list.set_map)
  then show "forest n e (fst ` set F) n' e'" using under_facts(2) [OF u] by simp
  show "distinct (map fst F)" using sub_fst [OF s] under_facts(3) [OF u] by simp
  show "e' r \<noteq> None" if "(r, hs) \<in> set F" for r hs
    using sub_mem [OF s that] under_facts(4) [OF u] by blast
  show "below e' r h \<and> has_cls e' h c" if "(r, hs) \<in> set F" "(h, c) \<in> set hs" for r hs h c
    using sub_mem [OF s that(1)] that(2) under_facts(5,6) [OF u] by blast
qed (rule under_facts(1) [OF u])

subsection \<open>Triples\<close>

definition makes :: "ctx \<Rightarrow> 'a gui \<Rightarrow> ('a \<Rightarrow> bool) \<Rightarrow> ('a \<Rightarrow> ctx) \<Rightarrow> bool" where
  "makes F m A D = (\<forall>n e n' e'. under n e F n' e' \<longrightarrow>
     typed m n' e' (\<lambda>r n2 e2. A r \<and> under n e (D r) n2 e2))"

lemma makesD: "makes F m A D \<Longrightarrow> under n e F n' e' \<Longrightarrow> typed m n' e' (\<lambda>r n2 e2. A r \<and> under n e (D r) n2 e2)"
  by (simp add: makes_def)

lemma makesI:
  "(\<And>n e n' e'. under n e F n' e' \<Longrightarrow> typed m n' e' (\<lambda>r n2 e2. A r \<and> under n e (D r) n2 e2)) \<Longrightarrow> makes F m A D"
  by (simp add: makes_def)

lemma makes_bind:
  assumes "makes F m A D" "\<And>r. A r \<Longrightarrow> makes (D r) (f r) A' D'"
  shows "makes F (m \<bind> f) A' D'"
proof (rule makesI, rule typed_bind)
  fix n e n' e'
  assume "under n e F n' e'"
  from makesD [OF assms(1) this]
  show "typed m n' e' (\<lambda>r n2 e2. typed (f r) n2 e2 (\<lambda>r n2 e2. A' r \<and> under n e (D' r) n2 e2))"
    by (rule typed_weaken) (use assms(2) makesD in blast)
qed

lemma makes_weaken:
  assumes "makes F m A D" "\<And>r. A r \<Longrightarrow> A' r \<and> sub (D' r) (D r)"
  shows "makes F m A' D'"
proof (rule makesI)
  fix n e n' e'
  assume "under n e F n' e'"
  from makesD [OF assms(1) this]
  show "typed m n' e' (\<lambda>r n2 e2. A' r \<and> under n e (D' r) n2 e2)"
    by (rule typed_weaken) (use assms(2) under_sub in blast)
qed

lemma makes_pre: "makes F m A D \<Longrightarrow> sub F G \<Longrightarrow> makes G m A D"
  unfolding makes_def using under_sub by blast

lemma makes_return: "makes F (State_Monad.return x) (\<lambda>r. r = x) (\<lambda>_. F)"
  by (rule makesI, rule typed_return) simp

lemma makes_done: "A x \<Longrightarrow> sub (D x) F \<Longrightarrow> makes F (State_Monad.return x) A D"
  by (rule makes_weaken [OF makes_return]) simp

lemma makes_if:
  "(b \<Longrightarrow> makes F m A D) \<Longrightarrow> (\<not> b \<Longrightarrow> makes F m' A D) \<Longrightarrow> makes F (if b then m else m') A D"
  by simp

lemma makes_branch:
  assumes "b \<Longrightarrow> makes F m (\<lambda>_. True) (\<lambda>_. F)" "\<not> b \<Longrightarrow> makes F m' (\<lambda>_. True) (\<lambda>_. F)"
  shows "makes F (if b then m else m') (\<lambda>_. True) (\<lambda>_. F)"
  using assms by simp

lemma makes_option:
  assumes "x = None \<Longrightarrow> makes F m (\<lambda>_. True) (\<lambda>_. F)"
    "\<And>y. x = Some y \<Longrightarrow> makes F (g y) (\<lambda>_. True) (\<lambda>_. F)"
  shows "makes F (case x of None \<Rightarrow> m | Some y \<Rightarrow> g y) (\<lambda>_. True) (\<lambda>_. F)"
  using assms by (cases x) simp_all

lemma makes_only_if:
  assumes "b \<Longrightarrow> makes F m (\<lambda>_. True) (\<lambda>_. F)"
  shows "makes F (only_if b m) (\<lambda>_. True) (\<lambda>_. F)"
  unfolding only_if_def using assms by (auto intro: makes_done)

lemma makes_each:
  assumes "\<And>x. x \<in> set xs \<Longrightarrow> makes F (f x) (\<lambda>_. True) (\<lambda>_. F)"
  shows "makes F (each f xs) (\<lambda>_. True) (\<lambda>_. F)"
  using assms
proof (induction xs)
  case Nil
  then show ?case by (simp add: makes_done)
next
  case (Cons x xs)
  then show ?case by (auto intro: makes_bind)
qed

lemma makes_assoc: "makes F (m \<bind> (\<lambda>x. g x \<bind> f)) A D \<Longrightarrow> makes F ((m \<bind> g) \<bind> f) A D"
  by simp

text \<open>Which objects may be used, and what for.\<close>

fun in_block :: "(nat \<times> cls) list \<Rightarrow> nat \<Rightarrow> (cls \<Rightarrow> bool) \<Rightarrow> bool" where
  "in_block [] h ok = False"
| "in_block ((x, c) # hs) h ok = (h = x \<and> ok c \<or> in_block hs h ok)"

fun allowed :: "ctx \<Rightarrow> nat \<Rightarrow> (cls \<Rightarrow> bool) \<Rightarrow> bool" where
  "allowed [] h ok = False"
| "allowed ((r, hs) # F) h ok = (in_block hs h ok \<or> allowed F h ok)"

fun ok_arg :: "ctx \<Rightarrow> arg \<Rightarrow> bool" where
  "ok_arg F (H h) = allowed F h (\<lambda>_. True)"
| "ok_arg F _ = True"

lemma in_block_mem: "in_block hs h ok = (\<exists>c. (h, c) \<in> set hs \<and> ok c)"
  by (induction hs) auto

lemma allowed_mem: "allowed F h ok = (\<exists>r hs c. (r, hs) \<in> set F \<and> (h, c) \<in> set hs \<and> ok c)"
  by (induction F) (auto simp: in_block_mem, blast+)

lemma in_block_append [simp]: "in_block (as @ bs) h ok = (in_block as h ok \<or> in_block bs h ok)"
  by (induction as) auto

lemma in_block_map [simp]: "in_block (map (\<lambda>x. (k x, c)) xs) h ok = (h \<in> k ` set xs \<and> ok c)"
  by (induction xs) auto

lemma in_block_map_id [simp]: "in_block (map (\<lambda>x. (x, c)) xs) h ok = (h \<in> set xs \<and> ok c)"
  using in_block_map [of "\<lambda>x. x"] by simp

lemma under_accepts: "under n e F n' e' \<Longrightarrow> allowed F h ok \<Longrightarrow> accepts e' h ok"
  unfolding allowed_mem accepts_def using under_facts(6) has_cls_def by fastforce

lemma under_alive: "under n e F n' e' \<Longrightarrow> ok_arg F a \<Longrightarrow> alive_arg e' a"
  by (cases a) (auto dest!: under_accepts simp: accepts_def split: option.splits)

lemma makes_on:
  assumes "allowed F h (fits f)" "list_all (ok_arg F) as"
  shows "makes F (on f h as) (\<lambda>_. True) (\<lambda>_. F)"
proof (rule makesI, rule typed_on)
  fix n e n' e'
  assume u: "under n e F n' e'"
  show "accepts e' h (fits f)" by (rule under_accepts [OF u assms(1)])
  show "list_all (alive_arg e') as" using assms(2) under_alive [OF u] by (auto simp: list_all_iff)
qed simp

subsection \<open>Creating and deleting\<close>

lemma under_new_block:
  assumes u: "under n e F m e'" and p: "p < n" "e p \<noteq> None"
  shows "under n e ((m, [(m, c)]) # F) (Suc m) (e'(m \<mapsto> (c, p)))"
proof (rule underI)
  note f = under_facts(2) [OF u]
  note nm = forest_facts(1) [OF f]
  have low: "below (e'(m \<mapsto> (c, p))) r h = below e' r h" if "h < m" for r h
    by (rule below_agree) (use that in auto)
  have new: "r < m" if "(r, hs) \<in> set F" for r hs
    using under_root_less [OF u that] by simp
  show "forest n e (fst ` set ((m, [(m, c)]) # F)) (Suc m) (e'(m \<mapsto> (c, p)))"
  proof (rule forestI)
    fix h d q
    assume h: "n \<le> h" "(e'(m \<mapsto> (c, p))) h = Some (d, q)"
    show "if h \<in> fst ` set ((m, [(m, c)]) # F) then q < n \<and> e q \<noteq> None
        else n \<le> q \<and> q < h \<and> (e'(m \<mapsto> (c, p))) q \<noteq> None"
    proof (cases "h = m")
      case False
      with h forest_parent [OF f h(1)] show ?thesis by (auto split: if_splits)
    qed (use h p in auto)
  next
    fix h assume "h < n"
    then show "(e'(m \<mapsto> (c, p))) h = e h" using forest_facts(2) [OF f] nm by auto
  qed (use nm forest_facts(3,4) [OF f] in \<open>auto intro: fresh_from_Suc\<close>)
  show "distinct (map fst ((m, [(m, c)]) # F))"
    using under_facts(3) [OF u] new by fastforce
  show "(e'(m \<mapsto> (c, p))) r \<noteq> None" if "(r, hs) \<in> set ((m, [(m, c)]) # F)" for r hs
    using that under_facts(4) [OF u] by auto
  show "below (e'(m \<mapsto> (c, p))) r h \<and> has_cls (e'(m \<mapsto> (c, p))) h d"
    if "(r, hs) \<in> set ((m, [(m, c)]) # F)" "(h, d) \<in> set hs" for r hs h d
  proof (cases "(r, hs) \<in> set F")
    case True
    from under_less [OF u True that(2)] have "h < m" .
    then show ?thesis using low under_facts(5,6) [OF u True that(2)] by (auto simp: has_cls_def)
  qed (use that in \<open>auto simp: has_cls_def\<close>)
qed (rule under_facts(1) [OF u])

lemma makes_root:
  assumes "p \<in> {lv_scr_act, lv_layer_top, lv_layer_sys}" "within_cls c = None"
  shows "makes F (create_with c p as) (\<lambda>_. True) (\<lambda>h. (h, [(h, c)]) # F)"
proof (rule makesI, rule typed_create)
  fix n e n' e'
  assume u: "under n e F n' e'"
  note f = under_facts(2) [OF u]
  from assms(1) under_facts(1) [OF u] obtain x where x: "e p = Some x" by (auto simp: world_def)
  have "p < n" by (rule fresh_from_less [where e = e and x = x]) (use x under_facts(1) [OF u] in \<open>simp_all add: world_def\<close>)
  with x forest_facts(2) [OF f] have "e' p = Some x" by simp
  then show "accepts e' p (\<lambda>pc. holds pc c)" using assms(2) by (cases x) (simp add: accepts_def holds_def)
  show "e' n' = None" by (rule fresh_fromD [OF forest_facts(3) [OF f]]) simp
  show "True \<and> under n e ((n', [(n', c)]) # F) (Suc n') (e'(n' \<mapsto> (c, p)))"
    using under_new_block [OF u \<open>p < n\<close>] x by simp
qed

text \<open>More objects in the tree of the newest root.\<close>

lemma under_grow:
  assumes u: "under n e ((r, hs) # F) m e'" and p: "(p, pc) \<in> set hs"
    and g: "grown {p} m e' m2 e2"
    and new: "\<And>h c. (h, c) \<in> set hs' \<Longrightarrow> (h, c) \<in> set hs \<or> m \<le> h \<and> has_cls e2 h c"
  shows "under n e ((r, hs') # F) m2 e2"
proof (rule underI)
  note f = under_facts(2) [OF u]
  note nm = forest_facts(1) [OF f]
  have r: "(r, hs) \<in> set ((r, hs) # F)" by simp
  have pm: "p < m" by (rule under_less [OF u r p])
  have pb: "below e' r p" by (rule under_facts(5) [OF u r p])
  have np: "n \<le> p" using below_ge [OF pb] under_root_less [OF u r] by simp
  have low: "below e2 s h = below e' s h" if "h < m" for s h
    by (rule below_agree) (use that grown_old [OF g] in auto)
  have live: "e2 q \<noteq> None" if "e' q \<noteq> None" for q
  proof -
    from that obtain x where x: "e' q = Some x" by blast
    have "q < m" by (rule fresh_from_less [OF forest_facts(3) [OF f] x])
    with grown_old [OF g] x show ?thesis by simp
  qed
  have root: "h < m" if "h \<in> fst ` set ((r, hs) # F)" for h
    using that under_root_less [OF u] by fastforce
  show "forest n e (fst ` set ((r, hs') # F)) m2 e2"
  proof (rule forestI)
    fix h d q
    assume h: "n \<le> h" "e2 h = Some (d, q)"
    show "if h \<in> fst ` set ((r, hs') # F) then q < n \<and> e q \<noteq> None else n \<le> q \<and> q < h \<and> e2 q \<noteq> None"
    proof (cases "h < m")
      case True
      with h grown_old [OF g] have "e' h = Some (d, q)" by simp
      from forest_parent [OF f h(1) this] live show ?thesis by (auto split: if_splits)
    next
      case False
      with root have "h \<notin> fst ` set ((r, hs') # F)" by auto
      moreover have "(q \<in> {p} \<or> m \<le> q \<and> e2 q \<noteq> None) \<and> q < h"
        by (rule grown_new [OF g _ h(2)]) (use False in simp)
      moreover have "e2 p \<noteq> None" using under_facts(6) [OF u r p] live by (auto simp: has_cls_def)
      ultimately show ?thesis using np nm by auto
    qed
  next
    show "e2 h = e h" if "h < n" for h
      using that nm grown_old [OF g, of h] forest_facts(2) [OF f that] by simp
    show "n \<le> m2" using nm grown_le [OF g] by simp
    show "n \<le> s" if "s \<in> fst ` set ((r, hs') # F)" for s
      using that forest_facts(4) [OF f] by auto
  qed (rule grown_fresh [OF g])
  show "distinct (map fst ((r, hs') # F))" using under_facts(3) [OF u] by simp
  show "e2 s \<noteq> None" if "(s, ks) \<in> set ((r, hs') # F)" for s ks
  proof -
    from that have "e' s \<noteq> None" using under_facts(4) [OF u r] under_facts(4) [OF u, of s ks] by auto
    then show ?thesis by (rule live)
  qed
  have old: "below e2 s h \<and> has_cls e2 h c" if "(s, ks) \<in> set ((r, hs) # F)" "(h, c) \<in> set ks" for s ks h c
    using under_less [OF u that] low grown_old [OF g] under_facts(5,6) [OF u that] by (simp add: has_cls_def)
  have below: "below e2 r h" if "m \<le> h" "e2 h \<noteq> None" for h
    using that
  proof (induction h rule: less_induct)
    case (less h)
    then obtain c q where h: "e2 h = Some (c, q)" by auto
    from grown_new [OF g less.prems(1) h] have q: "q = p \<or> m \<le> q \<and> e2 q \<noteq> None" "q < h" by auto
    then have "below e2 r q" using less.IH low [OF pm] pb by auto
    with h q(2) show ?case by (intro below_step [of e2 h c q r])
  qed
  show "below e2 s h \<and> has_cls e2 h c" if "(s, ks) \<in> set ((r, hs') # F)" "(h, c) \<in> set ks" for s ks h c
  proof (cases "(s, ks) \<in> set F \<or> (h, c) \<in> set hs \<and> s = r")
    case True
    then show ?thesis using old that(2) by auto
  next
    case False
    with that new [of h c] have "s = r" "m \<le> h" "has_cls e2 h c" by auto
    then show ?thesis using below by (auto simp: has_cls_def)
  qed
qed (rule under_facts(1) [OF u])

lemma makes_create:
  assumes "in_block hs p (\<lambda>pc. holds pc c)"
  shows "makes ((r, hs) # F) (create_with c p as) (\<lambda>_. True) (\<lambda>h. (r, (h, c) # hs) # F)"
proof (rule makesI, rule typed_create)
  fix n e n' e'
  assume u: "under n e ((r, hs) # F) n' e'"
  note f = under_facts(2) [OF u]
  show "accepts e' p (\<lambda>pc. holds pc c)" by (rule under_accepts [OF u]) (simp add: assms)
  show "e' n' = None" by (rule fresh_fromD [OF forest_facts(3) [OF f]]) simp
  from assms obtain pc where p: "(p, pc) \<in> set hs" by (auto simp: in_block_mem)
  have "p < n'" by (rule under_less [OF u list.set_intros(1) p])
  then have "grown {p} n' e' (Suc n') (e'(n' \<mapsto> (c, p)))"
    by (intro grown_create grown_refl forest_facts(3) [OF f]) simp
  then have "under n e ((r, (n', c) # hs) # F) (Suc n') (e'(n' \<mapsto> (c, p)))"
    by (rule under_grow [OF u p]) (auto simp: has_cls_def)
  then show "True \<and> under n e ((r, (n', c) # hs) # F) (Suc n') (e'(n' \<mapsto> (c, p)))" by simp
qed

text \<open>A constructor known to build below its parent.\<close>

lemma makes_builds:
  assumes "builds {p} m" "in_block hs p (\<lambda>_. True)"
  shows "makes ((r, hs) # F) m (\<lambda>_. True) (\<lambda>_. (r, hs) # F)"
proof (rule makesI)
  fix n e n' e'
  assume u: "under n e ((r, hs) # F) n' e'"
  from assms(2) obtain c where p: "(p, c) \<in> set hs" by (auto simp: in_block_mem)
  have "p \<in> dom e'" using under_facts(6) [OF u _ p] by (auto simp: has_cls_def)
  with assms(1) forest_facts(3) [OF under_facts(2) [OF u]]
  have "typed m n' e' (\<lambda>_ m2 e2. grown {p} n' e' m2 e2)" by (simp add: builds_def)
  then show "typed m n' e' (\<lambda>_ m2 e2. True \<and> under n e ((r, hs) # F) m2 e2)"
    by (rule typed_weaken) (use under_grow [OF u p] in blast)
qed

text \<open>Deleting a root deletes its tree and nothing else.\<close>

lemma under_remove:
  assumes u: "under n e (G @ (r, hs) # F) m e'"
  shows "under n e (G @ F) m (remove e' r)"
proof (rule underI)
  let ?C = "G @ (r, hs) # F"
  note f = under_facts(2) [OF u]
  have rC: "r \<in> fst ` set ?C" by simp
  have dist: "r \<notin> fst ` set (G @ F)" using under_facts(3) [OF u] by auto
  have sub: "fst ` set (G @ F) \<subseteq> fst ` set ?C" by auto
  have other: "\<not> below e' r h" if "s \<in> fst ` set (G @ F)" "below e' s h" for s h
    using below_root_unique [OF f rC, of s h] that sub dist by blast
  show "forest n e (fst ` set (G @ F)) m (remove e' r)"
  proof (rule forestI)
    fix h c q
    assume h: "n \<le> h" "remove e' r h = Some (c, q)"
    then have nb: "\<not> below e' r h" and e: "e' h = Some (c, q)" by (auto simp: remove_def split: if_splits)
    have "h \<noteq> r" using nb by auto
    then have "h \<in> fst ` set ?C \<longleftrightarrow> h \<in> fst ` set (G @ F)" by auto
    moreover have "remove e' r q = e' q" if "q < h"
      using below_step [of e' h c q r] e that nb by (auto simp: remove_def)
    ultimately show "if h \<in> fst ` set (G @ F) then q < n \<and> e q \<noteq> None
        else n \<le> q \<and> q < h \<and> remove e' r q \<noteq> None"
      using forest_parent [OF f h(1) e] by (auto split: if_splits)
  next
    fix h assume "h < n"
    moreover then have "\<not> below e' r h" using below_ge [of e' r h] forest_facts(4) [OF f rC] by auto
    ultimately show "remove e' r h = e h" using forest_facts(2) [OF f] by (simp add: remove_def)
  next
    show "fresh_from m (remove e' r)" using forest_facts(3) [OF f] by (simp add: fresh_from_def remove_def)
  qed (use forest_facts(1,4) [OF f] sub in auto)
  show "distinct (map fst (G @ F))" using under_facts(3) [OF u] by auto
  show "remove e' r s \<noteq> None" if "(s, ks) \<in> set (G @ F)" for s ks
  proof -
    from that have "s \<in> fst ` set (G @ F)" by force
    with other [of s s] have "\<not> below e' r s" by simp
    then show ?thesis using that under_facts(4) [OF u, of s ks] by (auto simp: remove_def)
  qed
  show "below (remove e' r) s h \<and> has_cls (remove e' r) h c"
    if sk: "(s, ks) \<in> set (G @ F)" and h: "(h, c) \<in> set ks" for s ks h c
  proof -
    from sk have C: "(s, ks) \<in> set ?C" by auto
    note b = under_facts(5) [OF u C h]
    have "s \<in> fst ` set (G @ F)" using sk by force
    from other [OF this b] below_remove [OF b] under_facts(6) [OF u C h]
    show ?thesis by (simp add: has_cls_def remove_def)
  qed
qed (rule under_facts(1) [OF u])

lemma makes_del_at: "makes (G @ (r, hs) # F) (del r) (\<lambda>_. True) (\<lambda>_. G @ F)"
proof (rule makesI, rule typed_del)
  fix n e n' e'
  assume u: "under n e (G @ (r, hs) # F) n' e'"
  show "e' r \<noteq> None" by (rule under_facts(4) [OF u, of r hs]) simp
  show "True \<and> under n e (G @ F) n' (remove e' r)" using under_remove [OF u] by simp
qed

lemma makes_del: "makes ((r, hs) # F) (del r) (\<lambda>_. True) (\<lambda>_. F)"
  using makes_del_at [of "[]"] by simp

lemma makes_del_old: "makes (b # (r, hs) # F) (del r) (\<lambda>_. True) (\<lambda>_. b # F)"
  using makes_del_at [of "[b]"] by simp

lemma makes_del_older: "makes (b # b' # (r, hs) # F) (del r) (\<lambda>_. True) (\<lambda>_. b # b' # F)"
  using makes_del_at [of "[b, b']"] by simp

text \<open>A program that leaves the objects as they were, such as a dialog opened and closed.\<close>

lemma under_later:
  assumes u: "under n e F m e'" and m: "m \<le> m'"
  shows "under n e F m' e'"
proof -
  note f = under_facts(2) [OF u]
  have "forest n e (fst ` set F) m' e'"
  proof (rule forestI)
    show "n \<le> m'" using forest_facts(1) [OF f] m by simp
    show "fresh_from m' e'" by (rule fresh_from_mono [OF forest_facts(3) [OF f] m])
  qed (rule forest_facts [OF f] forest_parent [OF f], assumption+)+
  with u show ?thesis by (simp add: under_def)
qed

lemma makes_keeps:
  assumes "\<And>n e. fresh_from n e \<Longrightarrow> accepts e lv_layer_top (\<lambda>_. True) \<Longrightarrow>
      (\<And>h ok. allowed F h ok \<Longrightarrow> accepts e h ok) \<Longrightarrow> typed m n e (\<lambda>_ n' e'. n \<le> n' \<and> e' = e)"
  shows "makes F m (\<lambda>_. True) (\<lambda>_. F)"
proof (rule makesI)
  fix n e n' e'
  assume u: "under n e F n' e'"
  have w: "fresh_from n e" "e lv_layer_top \<noteq> None" using under_facts(1) [OF u] by (auto simp: world_def)
  then obtain x where x: "e lv_layer_top = Some x" by blast
  have "e' lv_layer_top = e lv_layer_top"
    by (rule forest_facts(2) [OF under_facts(2) [OF u]], rule fresh_from_less [OF w(1) x])
  with x have "accepts e' lv_layer_top (\<lambda>_. True)" by (cases x) (simp add: accepts_def)
  then have "typed m n' e' (\<lambda>_ n2 e2. n' \<le> n2 \<and> e2 = e')"
    by (rule assms [OF forest_facts(3) [OF under_facts(2) [OF u]]]) (rule under_accepts [OF u])
  then show "typed m n' e' (\<lambda>r n2 e2. True \<and> under n e F n2 e2)"
    by (rule typed_weaken) (use under_later [OF u] in auto)
qed

text \<open>Everything new that is alive stands below a root.\<close>

lemma forest_below:
  assumes f: "forest n e Rt n' e'"
  shows "n \<le> h \<Longrightarrow> e' h \<noteq> None \<Longrightarrow> \<exists>r \<in> Rt. below e' r h"
proof (induction h rule: less_induct)
  case (less h)
  then obtain c q where h: "e' h = Some (c, q)" by auto
  show ?case
  proof (cases "h \<in> Rt")
    case False
    with forest_parent [OF f less.prems(1) h] have q: "n \<le> q" "q < h" "e' q \<noteq> None" by auto
    with less.IH obtain r where "r \<in> Rt" "below e' r q" by blast
    with below_step [of e' h c q r] h q show ?thesis by blast
  qed (auto intro: bexI [of _ h])
qed

lemma makes_below:
  assumes "makes [] m A D" "world n e"
  shows "typed m n e (\<lambda>r n' e'. A r \<and> (\<forall>h. e' h \<noteq> None \<longrightarrow> e h \<noteq> None \<or> (\<exists>x \<in> fst ` set (D r). below e' x h)))"
proof -
  have "fresh_from n e" using assms(2) by (simp add: world_def)
  then have "forest n e {} n e" by (auto simp: forest_def dest: fresh_fromD)
  with assms(2) have "under n e [] n e" by (simp add: under_def)
  from makesD [OF assms(1) this] show ?thesis
  proof (rule typed_weaken)
    fix r n' e'
    assume u: "A r \<and> under n e (D r) n' e'"
    note f = under_facts(2) [OF conjunct2 [OF u]]
    have "e h \<noteq> None \<or> (\<exists>x \<in> fst ` set (D r). below e' x h)" if h: "e' h \<noteq> None" for h
      using forest_below [OF f _ h] forest_facts(2) [OF f, of h] h by (cases "n \<le> h") auto
    with u show "A r \<and> (\<forall>h. e' h \<noteq> None \<longrightarrow> e h \<noteq> None \<or> (\<exists>x \<in> fst ` set (D r). below e' x h))"
      by blast
  qed
qed

text \<open>A program that ends with no root of its own leaves the widgets as they were.\<close>

lemma makes_nothing:
  assumes "makes [] m A (\<lambda>_. [])" "world n e"
  shows "typed m n e (\<lambda>r _ e'. A r \<and> e' = e)"
proof -
  have fr: "fresh_from n e" using assms(2) by (simp add: world_def)
  then have "forest n e {} n e" by (auto simp: forest_def dest: fresh_fromD)
  with assms(2) have "under n e [] n e" by (simp add: under_def)
  from makesD [OF assms(1) this] show ?thesis
    by (rule typed_weaken) (use forest_empty [OF _ fr] under_facts(2) in fastforce)
qed

text \<open>
  The rules, for a step that is followed by others and for the last one. Each leaves one triple
  to prove, so that they can be applied until none is left.
\<close>

lemma makes_root_scr:
  "within_cls c = None \<Longrightarrow> makes F (create_with c lv_scr_act as) (\<lambda>_. True) (\<lambda>h. (h, [(h, c)]) # F)"
  by (rule makes_root) simp_all

lemma makes_root_sys:
  "within_cls c = None \<Longrightarrow> makes F (create_with c lv_layer_sys as) (\<lambda>_. True) (\<lambda>h. (h, [(h, c)]) # F)"
  by (rule makes_root) simp_all

lemma makes_step_return: "makes F (f x) A D \<Longrightarrow> makes F (State_Monad.return x \<bind> f) A D"
  by simp

lemmas steps = makes_assoc makes_step_return makes_bind [OF makes_root_scr] makes_bind [OF makes_root_sys]
  makes_bind [OF makes_create]
  makes_bind [OF makes_on] makes_bind [OF makes_branch] makes_bind [OF makes_option]
  makes_bind [OF makes_only_if] makes_bind [OF makes_each]

lemmas ends = makes_done makes_weaken [OF makes_root_scr] makes_weaken [OF makes_create]
  makes_weaken [OF makes_on] makes_weaken [OF makes_branch] makes_weaken [OF makes_option]
  makes_weaken [OF makes_only_if] makes_weaken [OF makes_each]

lemma fits_any: "needs f = None \<Longrightarrow> fits f = (\<lambda>_. True)"
  by (rule ext) (simp add: fits_def)

lemma holds_any: "within_cls c = None \<Longrightarrow> (\<lambda>pc. holds pc c) = (\<lambda>_. True)"
  by (rule ext) (simp add: holds_def)

lemmas makes_simps = fits_any holds_any fits_def holds_def is_a_def

end
