(* ===== verification/UI_Base.thy ===== *)
theory UI_Base
  imports Widget_Logic Btn_Matrix Backlight
begin

text \<open>
  What the pages share: the sizes of the screen (\<open>main.h\<close>), the return button (\<open>ui_common.c\<close>) and
  the widgets of a button matrix (\<open>ui_btnmatrix.c\<close>), whose places \<open>Btn_Matrix\<close> computes.
\<close>

subsection \<open>The screen\<close>

text \<open>\<open>pct\<close> is LVGL's \<open>lv_pct\<close>, \<open>grid_last\<close> its \<open>LV_GRID_TEMPLATE_LAST\<close>.\<close>

record screen =
  scr_w :: int
  scr_h :: int
  pct :: "int \<Rightarrow> int"
  grid_last :: int

definition RK_PCT_W :: "screen \<Rightarrow> int \<Rightarrow> int" where
  "RK_PCT_W d x = rk_pct (pct d) (scr_w d) x"

definition RK_PCT_H :: "screen \<Rightarrow> int \<Rightarrow> int" where
  "RK_PCT_H d x = rk_pct (pct d) (scr_h d) x"

definition is_hor :: "screen \<Rightarrow> bool" where
  "is_hor d = (check_scr (scr_w d) (scr_h d) = Dir_hor)"

text \<open>A text handed on: ASCII, or UTF-8 bytes.\<close>

datatype label_text = Ascii string | Utf8 "int list"

fun text_arg :: "label_text \<Rightarrow> arg" where
  "text_arg (Ascii s) = T s"
| "text_arg (Utf8 b) = U b"

lemma alive_text [simp]: "alive_arg e (text_arg t)" "ok_arg F (text_arg t)"
  by (cases t; simp)+

subsection \<open>The return button\<close>

text \<open>The text is \<open>None\<close> where the caller passes a null pointer.\<close>

definition ui_return_btn_create :: "screen \<Rightarrow> nat \<Rightarrow> string \<Rightarrow> label_text option \<Rightarrow> nat gui" where
  "ui_return_btn_create d parent cb text' = do {
     obj \<leftarrow> lv_obj_create parent;
     on lv_obj_remove_style_all obj [];
     (if is_hor d then on lv_obj_set_size obj [I (RK_PCT_H d 10), I (RK_PCT_H d 10)]
      else on lv_obj_set_size obj [I (RK_PCT_W d 10), I (RK_PCT_W d 10)]);
     on lv_obj_set_pos obj [I 0, I 0];
     on lv_obj_add_flag obj [K LV_OBJ_FLAG_CLICKABLE];
     on lv_obj_add_event_cb obj [Cb cb, K LV_EVENT_CLICKED, Nul];
     img \<leftarrow> lv_img_create obj;
     on lv_img_set_src img [R IMG_RETURN_BTN];
     on lv_obj_add_flag img [Fl [LV_OBJ_FLAG_CLICKABLE, LV_OBJ_FLAG_EVENT_BUBBLE]];
     on lv_obj_set_align img [K LV_ALIGN_RIGHT_MID];
     (case text' of None \<Rightarrow> State_Monad.return ()
      | Some t \<Rightarrow> do {
          label \<leftarrow> lv_label_create parent;
          on lv_label_set_text label [text_arg t];
     on lv_obj_add_style label [Sty style_txt_m, K LV_PART_MAIN];
     on lv_obj_align_to label [H obj, K LV_ALIGN_OUT_RIGHT_MID, I 5, I 0];
          State_Monad.return () });
     State_Monad.return obj }"

subsection \<open>Drawing a button of a matrix\<close>

text \<open>
  A row of a table of buttons: its size in cells, its picture and text (\<open>None\<close> is a null
  pointer), its callback with the user data, and which function draws it. No table sets \<open>create\<close>
  or an area.
\<close>

datatype user_data = No_data | Fn_data string | Int_data int

fun user_arg :: "user_data \<Rightarrow> arg" where
  "user_arg No_data = Nul"
| "user_arg (Fn_data f) = Cb f"
| "user_arg (Int_data i) = I i"

lemma ok_user [simp]: "ok_arg F (user_arg u)"
  by (cases u) simp_all

datatype drawing = Common_draw | Player_btn_draw | Sliders_draw

record btn_look =
  bl_w :: int
  bl_h :: int
  bl_img :: "resource option"
  bl_text :: "label_text option"
  bl_draw :: drawing
  bl_cb :: "string option"
  bl_user_data :: user_data

definition btn_img :: "nat \<Rightarrow> resource option \<Rightarrow> unit gui" where
  "btn_img obj i = (case i of None \<Rightarrow> State_Monad.return ()
     | Some src \<Rightarrow> do {
         img \<leftarrow> lv_img_create obj;
         on lv_obj_add_flag img [Fl [LV_OBJ_FLAG_CLICKABLE, LV_OBJ_FLAG_EVENT_BUBBLE]];
         on lv_img_set_src img [R src] })"

definition btn_text :: "nat \<Rightarrow> style_name \<Rightarrow> label_text option \<Rightarrow> unit gui" where
  "btn_text obj sty t = (case t of None \<Rightarrow> State_Monad.return ()
     | Some txt \<Rightarrow> do {
         label \<leftarrow> lv_label_create obj;
         on lv_obj_add_flag label [Fl [LV_OBJ_FLAG_CLICKABLE, LV_OBJ_FLAG_EVENT_BUBBLE]];
         on lv_obj_add_style label [Sty sty, K LV_PART_MAIN];
         on lv_obj_set_style_text_color label [Hex 0xFFFFFF, K LV_PART_MAIN];
         on lv_label_set_text label [text_arg txt] })"

definition common_draw :: "nat \<Rightarrow> btn_look \<Rightarrow> unit gui" where
  "common_draw parent desc = do {
     obj \<leftarrow> lv_obj_create parent;
     on lv_obj_remove_style_all obj [];
     on lv_obj_set_size obj [K LV_SIZE_CONTENT, K LV_SIZE_CONTENT];
     on lv_obj_clear_flag obj [K LV_OBJ_FLAG_SCROLLABLE];
     on lv_obj_add_flag obj [Fl [LV_OBJ_FLAG_CLICKABLE, LV_OBJ_FLAG_EVENT_BUBBLE]];
     on lv_obj_set_flex_flow obj [K LV_FLEX_FLOW_COLUMN];
     on lv_obj_set_flex_align obj [K LV_FLEX_ALIGN_CENTER, K LV_FLEX_ALIGN_CENTER, K LV_FLEX_ALIGN_CENTER];
     on lv_obj_center obj [];
     btn_img obj (bl_img desc);
     btn_text obj style_txt_m (bl_text desc) }"

definition player_btn_draw :: "nat \<Rightarrow> btn_look \<Rightarrow> unit gui" where
  "player_btn_draw parent desc = do {
     obj \<leftarrow> lv_obj_create parent;
     on lv_obj_remove_style_all obj [];
     on lv_obj_set_size obj [Pct 100, Pct 100];
     on lv_obj_clear_flag obj [K LV_OBJ_FLAG_SCROLLABLE];
     on lv_obj_set_style_bg_color obj [Hex 0x434650, K LV_PART_MAIN];
     on lv_obj_set_style_bg_opa obj [K LV_OPA_COVER, K LV_PART_MAIN];
     on lv_obj_set_style_radius obj [I 15, K LV_PART_MAIN];
     on lv_obj_add_flag obj [Fl [LV_OBJ_FLAG_CLICKABLE, LV_OBJ_FLAG_EVENT_BUBBLE]];
     on lv_obj_set_flex_flow obj [K LV_FLEX_FLOW_COLUMN];
     on lv_obj_set_flex_align obj [K LV_FLEX_ALIGN_CENTER, K LV_FLEX_ALIGN_CENTER, K LV_FLEX_ALIGN_CENTER];
     on lv_obj_center obj [];
     btn_img obj (bl_img desc);
     btn_text obj style_txt_l (bl_text desc) }"

definition sliders_draw :: "nat \<Rightarrow> unit gui" where
  "sliders_draw parent = do {
     on lv_obj_clear_flag parent [K LV_OBJ_FLAG_CLICKABLE];
     on lv_obj_set_style_pad_all parent [I 0, K LV_PART_MAIN];
     on lv_obj_set_flex_flow parent [K LV_FLEX_FLOW_COLUMN];
     cont_v \<leftarrow> lv_obj_create parent;
     on lv_obj_remove_style_all cont_v [];
     on lv_obj_set_size cont_v [Pct 100, Pct 50];
     cont_d \<leftarrow> lv_obj_create parent;
     on lv_obj_remove_style_all cont_d [];
     on lv_obj_set_size cont_d [Pct 100, Pct 50];
     obj_v \<leftarrow> lv_slider_create cont_v;
     on lv_obj_set_size obj_v [Pct 75, Pct 30];
     on lv_obj_center obj_v [];
     on lv_obj_set_style_bg_opa obj_v [K LV_OPA_TRANSP, K LV_PART_KNOB];
     on lv_slider_set_range obj_v [I 10, I 100];
     on lv_slider_set_value obj_v [I 100, K LV_ANIM_OFF];
     on lv_obj_refr_size obj_v [];
     on lv_obj_refr_pos obj_v [];
     label_v \<leftarrow> lv_label_create cont_v;
     on lv_label_set_text label_v [U [233, 159, 179, 233, 135, 143]];
     on lv_obj_add_style label_v [Sty style_txt_s, K LV_PART_MAIN];
     on lv_obj_set_style_text_color label_v [Hex 0xFFFFFF, K LV_PART_MAIN];
     on lv_obj_align_to label_v [H obj_v, K LV_ALIGN_OUT_LEFT_MID, I (-5), I 0];
     label_vp \<leftarrow> lv_label_create cont_v;
     on lv_label_set_text label_vp [T ''100%''];
     on lv_obj_add_style label_vp [Sty style_txt_s, K LV_PART_MAIN];
     on lv_obj_set_style_text_color label_vp [Hex 0xFFFFFF, K LV_PART_MAIN];
     on lv_obj_align_to label_vp [H obj_v, K LV_ALIGN_OUT_RIGHT_MID, I 5, I 0];
     on lv_obj_add_event_cb obj_v [Cb ''slider_event_cb'', K LV_EVENT_VALUE_CHANGED, H label_vp];
     obj_d \<leftarrow> lv_slider_create cont_d;
     on lv_obj_set_size obj_d [Pct 75, Pct 30];
     on lv_obj_center obj_d [];
     on lv_obj_set_style_bg_opa obj_d [K LV_OPA_TRANSP, K LV_PART_KNOB];
     on lv_slider_set_range obj_d [I 10, I 100];
     on lv_slider_set_value obj_d [I 100, K LV_ANIM_OFF];
     on lv_obj_refr_size obj_d [];
     on lv_obj_refr_pos obj_d [];
     label_d \<leftarrow> lv_label_create cont_d;
     on lv_label_set_text label_d [U [228, 186, 174, 229, 186, 166]];
     on lv_obj_add_style label_d [Sty style_txt_s, K LV_PART_MAIN];
     on lv_obj_set_style_text_color label_d [Hex 0xFFFFFF, K LV_PART_MAIN];
     on lv_obj_align_to label_d [H obj_d, K LV_ALIGN_OUT_LEFT_MID, I (-5), I 0];
     label_dp \<leftarrow> lv_label_create cont_d;
     on lv_label_set_text label_dp [T ''100%''];
     on lv_obj_add_style label_dp [Sty style_txt_s, K LV_PART_MAIN];
     on lv_obj_set_style_text_color label_dp [Hex 0xFFFFFF, K LV_PART_MAIN];
     on lv_obj_align_to label_dp [H obj_d, K LV_ALIGN_OUT_RIGHT_MID, I 5, I 0];
     on lv_obj_add_event_cb obj_d [Cb ''slider_event_cb'', K LV_EVENT_VALUE_CHANGED, H label_dp];
     State_Monad.return () }"

fun draw_btn :: "drawing \<Rightarrow> nat \<Rightarrow> btn_look \<Rightarrow> unit gui" where
  "draw_btn Common_draw obj desc = common_draw obj desc"
| "draw_btn Player_btn_draw obj desc = player_btn_draw obj desc"
| "draw_btn Sliders_draw obj desc = sliders_draw obj"

subsection \<open>The widgets of a matrix\<close>

definition matrix_btn :: "nat \<Rightarrow> btn_look \<Rightarrow> placement \<Rightarrow> nat gui" where
  "matrix_btn main desc p = (case p of (x, y, w, h) \<Rightarrow> do {
     obj \<leftarrow> lv_obj_create main;
     on lv_obj_remove_style_all obj [];
     on lv_obj_set_style_bg_color obj [Hex 0x434650, K LV_PART_MAIN];
     on lv_obj_set_style_bg_color obj [Hex 0xB2B2B2, Fl [LV_PART_MAIN, LV_STATE_PRESSED]];
     on lv_obj_set_style_bg_opa obj [K LV_OPA_COVER, K LV_PART_MAIN];
     on lv_obj_set_style_shadow_width obj [I 1, K LV_PART_MAIN];
     on lv_obj_set_style_shadow_spread obj [I 2, K LV_PART_MAIN];
     on lv_obj_set_style_shadow_color obj [Hex 0, K LV_PART_MAIN];
     on lv_obj_set_style_shadow_opa obj [K LV_OPA_20, K LV_PART_MAIN];
     on lv_obj_set_style_radius obj [I 16, K LV_PART_MAIN];
     on lv_obj_set_grid_cell obj [K LV_GRID_ALIGN_STRETCH, I x, I w, K LV_GRID_ALIGN_STRETCH, I y, I h];
     on lv_obj_clear_flag obj [K LV_OBJ_FLAG_SCROLLABLE];
     on lv_obj_add_flag obj [K LV_OBJ_FLAG_CLICKABLE];
     on lv_obj_refr_size obj [];
     on lv_obj_refr_pos obj [];
     (case bl_cb desc of None \<Rightarrow> State_Monad.return ()
      | Some cb \<Rightarrow> on lv_obj_add_event_cb obj [Cb cb, K LV_EVENT_CLICKED, user_arg (bl_user_data desc)]);
     draw_btn (bl_draw desc) obj desc;
     State_Monad.return obj })"

text \<open>
  The loop over the buttons placed; the objects are given back with the index of their row, for
  the pointers the rows name.
\<close>

fun matrix_btns :: "nat \<Rightarrow> btn_look list \<Rightarrow> placed_btn list \<Rightarrow> (nat \<times> nat) list gui" where
  "matrix_btns main looks [] = State_Monad.return []"
| "matrix_btns main looks (b # bs) = do {
     obj \<leftarrow> matrix_btn main (looks ! pb_index b) (pb_cell b);
     hs \<leftarrow> matrix_btns main looks bs;
     State_Monad.return ((pb_index b, obj) # hs) }"

definition look_desc :: "btn_look \<Rightarrow> btn_desc" where
  "look_desc k = \<lparr>bd_area = (0, 0, 0, 0), bd_w = bl_w k, bd_h = bl_h k, bd_create = None,
     bd_draw = Some 0, bd_cb = map_option (\<lambda>_. 0) (bl_cb k), bd_user_data = 0\<rparr>"

record matrix_look =
  ml_cols :: "int list"
  ml_rows :: "int list"
  ml_pad :: int
  ml_gap :: int
  ml_btns :: "btn_look list"

text \<open>The tables as \<open>ui_btnmatrix_create\<close> takes them, with their end marks.\<close>

definition matrix_desc :: "int \<Rightarrow> matrix_look \<Rightarrow> btn_matrix_desc" where
  "matrix_desc l m = \<lparr>col_dsc = ml_cols m @ [l], row_dsc = ml_rows m @ [l], bm_pad = ml_pad m,
     bm_gap = ml_gap m, bm_desc = map look_desc (ml_btns m)\<rparr>"

text \<open>\<open>None\<close> is the null pointer.\<close>

definition btnmatrix_widgets :: "int \<Rightarrow> matrix_look \<Rightarrow> nat \<Rightarrow> (nat \<times> (nat \<times> nat) list) option gui" where
  "btnmatrix_widgets l m parent = (case ui_btnmatrix_create l (matrix_desc l m) of
     Matrix bs \<Rightarrow> do {
     main \<leftarrow> lv_obj_create parent;
     on lv_obj_remove_style_all main [];
       on lv_obj_set_style_grid_column_dsc_array main [Tab (ml_cols m @ [l]), I 0];
       on lv_obj_set_style_grid_row_dsc_array main [Tab (ml_rows m @ [l]), I 0];
     on lv_obj_set_layout main [K LV_LAYOUT_GRID];
     on lv_obj_set_size main [K LV_SIZE_CONTENT, K LV_SIZE_CONTENT];
       on lv_obj_set_style_pad_all main [I (ml_pad m), K LV_PART_MAIN];
       on lv_obj_set_style_pad_gap main [I (ml_gap m), K LV_PART_MAIN];
       hs \<leftarrow> matrix_btns main (ml_btns m) bs;
       State_Monad.return (Some (main, hs)) }
   | Null_return \<Rightarrow> State_Monad.return None
   | Memory_fault \<Rightarrow> do { null_call; State_Monad.return None })"

text \<open>A call on the matrix, and on the button whose pointer row \<open>i\<close> sets.\<close>

definition on_matrix :: "(nat \<times> (nat \<times> nat) list) option \<Rightarrow> (nat \<Rightarrow> unit gui) \<Rightarrow> unit gui" where
  "on_matrix m k = (case m of None \<Rightarrow> null_call | Some (main, _) \<Rightarrow> k main)"

definition on_btn :: "(nat \<times> (nat \<times> nat) list) option \<Rightarrow> nat \<Rightarrow> (nat \<Rightarrow> unit gui) \<Rightarrow> unit gui" where
  "on_btn m i k = (case m of None \<Rightarrow> null_call
     | Some (_, hs) \<Rightarrow> (case map_of hs i of None \<Rightarrow> null_call | Some h \<Rightarrow> k h))"

subsection \<open>Properties\<close>

lemma return_btn_builds: "builds {parent} (ui_return_btn_create d parent cb text')"
  unfolding ui_return_btn_create_def
  by (rule buildsI; cases text'; (simp only: option.case)?; intro typed_rules typed_if;
      ((simp add: class_simps split: option.splits; fail) | (intro grown_create grown_refl; simp)))

lemma btn_img_builds: "builds {obj} (btn_img obj i)"
  unfolding btn_img_def
  by (rule buildsI; cases i; (simp only: option.case)?; intro typed_rules;
      ((simp add: class_simps split: option.splits; fail) | (intro grown_create grown_refl; simp)))

lemma btn_text_builds: "builds {obj} (btn_text obj sty t)"
  unfolding btn_text_def
  by (rule buildsI; cases t; (simp only: option.case)?; intro typed_rules;
      ((simp add: class_simps split: option.splits; fail) | (intro grown_create grown_refl; simp)))

lemma sliders_builds: "builds {parent} (sliders_draw parent)"
  unfolding sliders_draw_def
  by (rule buildsI; intro typed_rules;
      ((simp add: class_simps split: option.splits; fail) | (intro grown_create grown_refl; simp)))

text \<open>In a triple: the rest of the button's tree is forgotten.\<close>

lemma common_draw_makes:
  assumes "in_block hs p (\<lambda>_. True)"
  shows "makes ((r, hs) # F) (common_draw p desc) (\<lambda>_. True) (\<lambda>_. (r, hs) # F)"
  unfolding common_draw_def using assms
  by (intro steps makes_bind [OF makes_builds [OF btn_img_builds]]
      makes_weaken [OF makes_builds [OF btn_text_builds]]; auto simp: makes_simps)

lemma player_btn_draw_makes:
  assumes "in_block hs p (\<lambda>_. True)"
  shows "makes ((r, hs) # F) (player_btn_draw p desc) (\<lambda>_. True) (\<lambda>_. (r, hs) # F)"
  unfolding player_btn_draw_def using assms
  by (intro steps makes_bind [OF makes_builds [OF btn_img_builds]]
      makes_weaken [OF makes_builds [OF btn_text_builds]]; auto simp: makes_simps)

lemma draw_btn_makes:
  "in_block hs p (\<lambda>_. True) \<Longrightarrow> makes ((r, hs) # F) (draw_btn dr p desc) (\<lambda>_. True) (\<lambda>_. (r, hs) # F)"
  by (cases dr) (simp_all add: common_draw_makes player_btn_draw_makes makes_builds [OF sliders_builds])

lemma in_block_weaken: "in_block hs p ok \<Longrightarrow> (\<And>c. ok c \<Longrightarrow> ok' c) \<Longrightarrow> in_block hs p ok'"
  by (auto simp: in_block_mem)

lemma matrix_btn_makes:
  assumes "in_block hs main (\<lambda>_. True)"
  shows "makes ((r, hs) # F) (matrix_btn main desc p) (\<lambda>_. True) (\<lambda>h. (r, (h, Obj) # hs) # F)"
  unfolding matrix_btn_def using assms
  by (cases p rule: prod_cases4; simp only: prod.case; intro steps makes_bind [OF draw_btn_makes] ends;
      auto simp: makes_simps)

lemma matrix_btns_makes:
  assumes "in_block hs main (\<lambda>_. True)"
  shows "makes ((r, hs) # F) (matrix_btns main looks bs) (\<lambda>ks. map fst ks = map pb_index bs)
    (\<lambda>ks. (r, map (\<lambda>h. (h, Obj)) (map snd ks) @ hs) # F)"
  using assms
proof (induction bs arbitrary: hs)
  case Nil
  then show ?case by (auto intro: makes_done)
next
  case (Cons b bs)
  show ?case
    by (simp only: matrix_btns.simps, rule makes_bind [OF matrix_btn_makes], rule Cons.prems,
        rule makes_bind [OF Cons.IH], simp add: Cons.prems, rule makes_done) auto
qed

text \<open>Every button of the table gets a place, so every pointer is set.\<close>

definition matrix_ok :: "int \<Rightarrow> matrix_look \<Rightarrow> bool" where
  "matrix_ok l m = (\<exists>bs. ui_btnmatrix_create l (matrix_desc l m) = Matrix bs
     \<and> map pb_index bs = [0..<length (ml_btns m)])"

lemma create_btns_index:
  "create_btns i ds g = Some (bs, g') \<Longrightarrow>
     length bs \<le> length ds \<and> (length bs = length ds \<longrightarrow> map pb_index bs = [i..<i + length ds])"
proof (induction ds arbitrary: i g bs g')
  case (Cons d ds)
  then obtain x g1 bs1 where d: "create_btn i d g = Some (x, g1)"
    and ds: "create_btns (Suc i) ds g1 = Some (bs1, g')"
    and bs: "bs = (case x of None \<Rightarrow> bs1 | Some b \<Rightarrow> b # bs1)"
    by (auto split: option.splits)
  note IH = Cons.IH [OF ds]
  show ?case
  proof (cases x)
    case (Some b)
    then have "pb_index b = i" using d by (auto simp: create_btn_def split: if_splits option.splits prod.splits)
    moreover have "[i..<i + length (d # ds)] = i # [Suc i..<Suc i + length ds]"
      by (subst upt_conv_Cons) auto
    ultimately show ?thesis using Some bs IH by (simp del: upt_Suc)
  qed (use bs IH in auto)
qed simp

lemma matrix_ok_unit:
  assumes "\<forall>k \<in> set (ml_btns m). bl_w k = 1 \<and> bl_h k = 1"
    and "l \<notin> set (ml_cols m)" "l \<notin> set (ml_rows m)" "length (ml_cols m) \<le> 100" "length (ml_rows m) \<le> 100"
    and "length (ml_btns m) \<le> length (ml_cols m) * length (ml_rows m)"
  shows "matrix_ok l m"
proof -
  let ?c = "int (length (ml_cols m))" and ?r = "int (length (ml_rows m))" and ?ds = "map look_desc (ml_btns m)"
  have c: "count_dsc l (ml_cols m @ [l]) 0 = Count ?c" "count_dsc l (ml_rows m @ [l]) 0 = Count ?r"
    using assms(2-5) by (simp_all add: count_dsc_terminated)
  have "filled_to (empty_bmap ?c ?r) 0"
    using cell_index_bounds(1) [of _ ?c _ ?r] by (auto simp: filled_to_def bmap_cells_def not_less)
  moreover have "\<forall>d \<in> set ?ds. bd_w d = 1 \<and> bd_h d = 1" using assms(1) by (simp add: look_desc_def)
  moreover have "int (0 + length ?ds) \<le> bm_cols (empty_bmap ?c ?r) * bm_rows (empty_bmap ?c ?r)"
    using assms(6) by (simp flip: of_nat_mult)
  ultimately obtain bs g' where bs: "create_btns 0 ?ds (empty_bmap ?c ?r) = Some (bs, g')"
    "map pb_cell bs = map (\<lambda>k. (int k mod bm_cols (empty_bmap ?c ?r), int k div bm_cols (empty_bmap ?c ?r), 1, 1))
       [0..<0 + length ?ds]"
    using unit_btns by blast
  from bs(2) [THEN arg_cong [where f = length]] have "length bs = length ?ds" by simp
  with create_btns_index [OF bs(1)] bs(1) c show ?thesis
    by (auto simp: matrix_ok_def ui_btnmatrix_create_def matrix_desc_def)
qed

lemma map_of_upt: "i < n \<Longrightarrow> map_of (map (\<lambda>i. (i, k i)) [0..<n]) i = Some (k i)"
  by (simp add: map_of_map_keys map_of_eq_Some_iff comp_def)

lemma makes_matrix:
  assumes "matrix_ok l m" "in_block hs p (\<lambda>_. True)" "length (ml_btns m) = n"
    and "\<And>main k. makes ((r, map (\<lambda>i. (k i, Obj)) [0..<n] @ (main, Obj) # hs) # F)
           (f (Some (main, map (\<lambda>i. (i, k i)) [0..<n]))) A D"
  shows "makes ((r, hs) # F) (btnmatrix_widgets l m p \<bind> f) A D"
proof -
  from assms(1,3) obtain bs where bs: "ui_btnmatrix_create l (matrix_desc l m) = Matrix bs"
    "map pb_index bs = [0..<n]" by (auto simp: matrix_ok_def)
  have "makes ((r, (main, Obj) # hs) # F) (matrix_btns main (ml_btns m) bs \<bind> (\<lambda>ks. f (Some (main, ks)))) A D" for main
  proof (rule makes_bind [OF matrix_btns_makes])
    fix ks :: "(nat \<times> nat) list"
    assume ks: "map fst ks = map pb_index bs"
    let ?k = "\<lambda>i. snd (ks ! i)"
    from ks [THEN arg_cong [where f = length]] bs(2) [THEN arg_cong [where f = length]]
    have len: "length ks = n" by simp
    have k: "ks = map (\<lambda>i. (i, ?k i)) [0..<n]"
    proof (rule nth_equalityI)
      show "ks ! i = map (\<lambda>i. (i, ?k i)) [0..<n] ! i" if "i < length ks" for i
      proof -
        have "fst (ks ! i) = map fst ks ! i" using that by simp
        also have "\<dots> = i" using ks bs(2) that len by simp
        finally show ?thesis using that len by (simp add: prod_eq_iff)
      qed
    qed (simp add: len)
    have "map (\<lambda>h. (h, Obj)) (map snd ks) = map (\<lambda>i. (?k i, Obj)) [0..<n]"
      by (subst k) (simp add: comp_def)
    with assms(4) [of ?k main] k
    show "makes ((r, map (\<lambda>h. (h, Obj)) (map snd ks) @ (main, Obj) # hs) # F) (f (Some (main, ks))) A D"
      by simp
  qed simp
  then show ?thesis
    unfolding btnmatrix_widgets_def bs(1) btnmatrix_result.case using assms(2)
    by (intro steps; simp add: makes_simps)
qed

lemma makes_on_matrix: "makes F (k main) A D \<Longrightarrow> makes F (on_matrix (Some (main, hs)) k) A D"
  by (simp add: on_matrix_def)

lemma makes_on_btn:
  "i < n \<Longrightarrow> makes F (f (k i)) A D \<Longrightarrow> makes F (on_btn (Some (main, map (\<lambda>i. (i, k i)) [0..<n])) i f) A D"
  by (simp add: on_btn_def map_of_upt)

lemmas matrix_steps = makes_on_matrix makes_on_btn
  makes_bind [OF makes_on_matrix [where A = "\<lambda>_. True" and D = "\<lambda>_. F" and F = F for F]]
  makes_bind [OF makes_on_btn [where A = "\<lambda>_. True" and D = "\<lambda>_. F" and F = F for F]]
  makes_bind [OF makes_builds [OF return_btn_builds]]

end
