(* ===== verification/UI_Home.thy ===== *)
theory UI_Home
  imports UI_Base UI_Menus Pages
begin

text \<open>
  The widgets of the home page (\<open>home_ui.c\<close>) and of the pages behind its second button: the
  household page and its three pages (\<open>furniture_control_ui.c\<close>, \<open>icebox_ui.c\<close>,
  \<open>coffee_machine.c\<close>, \<open>player_ui.c\<close>), as programs over \<open>Widgets\<close> with triples in \<open>Widget_Logic\<close>.
  The test of \<open>main\<close> at the start of each function is in \<open>Pages\<close>; what is here runs when the page
  is not there yet. Answers of LVGL (coordinates) and of the system (the time, files) are
  parameters.
\<close>

subsection \<open>Home\<close>

definition home_look :: "resource \<times> label_text \<times> string \<Rightarrow> btn_look" where
  "home_look r = (case r of (img, txt, f) \<Rightarrow>
     \<lparr>bl_w = 1, bl_h = 1, bl_img = Some img, bl_text = Some txt, bl_draw = Common_draw,
      bl_cb = Some ''page_switch'', bl_user_data = Fn_data f\<rparr>)"

definition home_btn_looks :: "btn_look list" where
  "home_btn_looks = map home_look
    [(IMG_SMART_HOME, Utf8 [230, 153, 186, 232, 131, 189, 229, 174, 182, 229, 177, 133], ''smart_home_ui_init''),
     (IMG_FURNITURE, Utf8 [229, 174, 182, 231, 148, 181, 230, 152, 190, 230, 142, 167], ''furniture_control_ui_init''),
     (IMG_PHONE, Utf8 [230, 165, 188, 229, 174, 135, 229, 175, 185, 232, 174, 178], ''intercom_homepage_ui_init''),
     (IMG_SETTING, Utf8 [231, 179, 187, 231, 187, 159, 232, 174, 190, 231, 189, 174], ''setting_ui_init'')]"

definition home_item_w :: "screen \<Rightarrow> int" where
  "home_item_w d = (if is_hor d then RK_PCT_H d 30 else RK_PCT_W d 25)"

definition home_matrix :: "screen \<Rightarrow> matrix_look" where
  "home_matrix d = (let (cols, rows) = home_grid (is_hor d) (int (length home_btn_looks)) in
     \<lparr>ml_cols = replicate (nat cols) (home_item_w d), ml_rows = replicate (nat rows) (home_item_w d),
      ml_pad = 5, ml_gap = 20, ml_btns = home_btn_looks\<rparr>)"

record home_ui =
  home_main :: nat
  ui_label_time :: nat
  ui_label_date :: nat
  ui_wifi :: "nat option"

text \<open>\<open>tm_year\<close> and \<open>tm_mon\<close> count from 1900 and from 0. \<open>ui_wifi\<close> is there with WiFi only.\<close>

record tm =
  tm_hour :: nat
  tm_min :: nat
  tm_year :: nat
  tm_mon :: nat
  tm_mday :: nat

definition date_update :: "tm \<Rightarrow> bool \<Rightarrow> home_ui \<Rightarrow> unit gui" where
  "date_update tim wifi_connected h = do {
     on lv_label_set_text_fmt (ui_label_time h) [T (padded 2 (tm_hour tim) @ '':'' @ padded 2 (tm_min tim))];
     on lv_label_set_text_fmt (ui_label_date h)
       [T (padded 4 (tm_year tim + 1900) @ ''-'' @ padded 2 (tm_mon tim + 1) @ ''-'' @ padded 2 (tm_mday tim))];
     on lv_obj_align (ui_label_time h) [K LV_ALIGN_TOP_LEFT, I 50, I 50];
     on lv_obj_align_to (ui_label_date h) [H (ui_label_time h), K LV_ALIGN_OUT_BOTTOM_LEFT, I 0, I 0];
     (case ui_wifi h of None \<Rightarrow> State_Monad.return ()
      | Some w \<Rightarrow> if wifi_connected then on lv_img_set_src w [R IMG_WIFI_ON]
          else on lv_img_set_src w [R IMG_WIFI_OFF]) }"

text \<open>The areas \<open>(x1, y1, x2, y2)\<close> LVGL gives for the date, the buttons and the page.\<close>

type_synonym area4 = "int \<times> int \<times> int \<times> int"

definition check_overlap :: "area4 \<Rightarrow> area4 \<Rightarrow> area4 \<Rightarrow> nat \<Rightarrow> unit gui" where
  "check_overlap area1 area2 area3 ui_box_main =
     (case area1 of (_, _, _, y2_1) \<Rightarrow> case area2 of (x1_2, y1_2, x2_2, _) \<Rightarrow> case area3 of (x1_3, _, x2_3, _) \<Rightarrow> do {
       only_if (x2_3 - x1_3 < x2_2 - x1_2) (do {
         on lv_obj_set_width ui_box_main [Pct 100];
         on lv_obj_set_align ui_box_main [K LV_ALIGN_LEFT_MID] });
       only_if (y1_2 < y2_1) (on lv_obj_set_y ui_box_main [I (y2_1 - y1_2 + 5)]) })"

definition home_widgets :: "screen \<Rightarrow> bool \<Rightarrow> tm \<Rightarrow> bool \<Rightarrow> area4 \<Rightarrow> area4 \<Rightarrow> area4 \<Rightarrow> home_ui gui" where
  "home_widgets d wifibt tim wifi_on area1 area2 area3 = do {
     main \<leftarrow> lv_obj_create lv_scr_act;
     on lv_obj_remove_style_all main [];
     on lv_obj_set_style_pad_all main [I 10, K LV_PART_MAIN];
     on lv_obj_set_size main [Pct 100, Pct 100];
     on lv_obj_refr_size main [];
     ui_box_main \<leftarrow> btnmatrix_widgets (grid_last d) (home_matrix d) main;
     (if is_hor d then on_matrix ui_box_main (\<lambda>m. on lv_obj_align m [K LV_ALIGN_BOTTOM_MID, I 0, I (-20)])
      else on_matrix ui_box_main (\<lambda>m. on lv_obj_center m []));
     ui_wifi \<leftarrow> (if wifibt then do {
     ui_wifi \<leftarrow> lv_img_create main;
     on lv_img_set_src ui_wifi [R IMG_WIFI_OFF];
     on lv_obj_align ui_wifi [K LV_ALIGN_TOP_RIGHT, I 0, I 0];
         State_Monad.return (Some ui_wifi) } else State_Monad.return None);
     ui_label_time \<leftarrow> lv_label_create main;
     on lv_obj_set_width ui_label_time [K LV_SIZE_CONTENT];
     on lv_obj_set_height ui_label_time [K LV_SIZE_CONTENT];
     on lv_obj_add_style ui_label_time [Sty style_txt_l, K LV_PART_MAIN];
     ui_label_date \<leftarrow> lv_label_create main;
     on lv_obj_set_width ui_label_date [K LV_SIZE_CONTENT];
     on lv_obj_set_height ui_label_date [K LV_SIZE_CONTENT];
     on lv_obj_add_style ui_label_date [Sty style_txt_m, K LV_PART_MAIN];
     let h = \<lparr>home_main = main, ui_label_time = ui_label_time, ui_label_date = ui_label_date, ui_wifi = ui_wifi\<rparr>;
     date_update tim wifi_on h;
     on lv_obj_refr_size ui_label_time [];
     on lv_obj_refr_size ui_label_date [];
     on_matrix ui_box_main (\<lambda>m. on lv_obj_refr_size m []);
     on lv_obj_refr_pos ui_label_time [];
     on lv_obj_refr_pos ui_label_date [];
     on_matrix ui_box_main (\<lambda>m. do {
       on lv_obj_refr_pos m [];
       check_overlap area1 area2 area3 m });
     State_Monad.return h }"

subsection \<open>Household\<close>

definition fc_look :: "resource \<times> label_text \<times> string \<Rightarrow> btn_look" where
  "fc_look r = (case r of (img, txt, cb) \<Rightarrow>
     \<lparr>bl_w = 1, bl_h = 1, bl_img = Some img, bl_text = Some txt, bl_draw = Common_draw,
      bl_cb = Some cb, bl_user_data = No_data\<rparr>)"

definition fc_btn_looks :: "btn_look list" where
  "fc_btn_looks = map fc_look
    [(IMG_ICEBOX, Utf8 [230, 175, 143, 230, 151, 165, 232, 143, 156, 232, 176, 177], ''furniture_control_page_jump_icebox_callback''),
     (IMG_PLAYER, Utf8 [229, 174, 163, 228, 188, 160, 232, 167, 134, 233, 162, 145], ''furniture_control_page_jump_player_callback''),
     (IMG_COFFEE, Utf8 [229, 146, 150, 229, 149, 161, 230, 156, 186], ''furniture_control_page_jump_coffee_machine_callback'')]"

definition fc_matrix :: "screen \<Rightarrow> matrix_look" where
  "fc_matrix d = \<lparr>ml_cols = [200, 200, 200], ml_rows = [200], ml_pad = 5,
     ml_gap = (if is_hor d then RK_PCT_H d 5 else RK_PCT_W d 2), ml_btns = fc_btn_looks\<rparr>"

text \<open>The background snapshot is data, not a widget; \<open>x1\<close> and \<open>y1\<close> are coordinates of \<open>v_bg\<close>.\<close>

definition furniture_control_widgets :: "screen \<Rightarrow> int \<Rightarrow> int \<Rightarrow> nat gui" where
  "furniture_control_widgets d x1 y1 = do {
     main \<leftarrow> lv_obj_create lv_scr_act;
     on lv_obj_remove_style_all main [];
     on lv_obj_set_style_pad_all main [I 0, K LV_PART_MAIN];
     on lv_obj_set_size main [Pct 100, Pct 100];
     on lv_obj_refr_size main [];
     btn_return \<leftarrow> ui_return_btn_create d main ''btn_return_cb'' (Some (Utf8 [229, 174, 182, 231, 148, 181, 230, 152, 190, 230, 142, 167]));
     furniture_control_ui_box \<leftarrow> lv_obj_create main;
     on lv_obj_remove_style_all furniture_control_ui_box [];
     on lv_obj_set_width furniture_control_ui_box [Pct 100];
     on lv_obj_set_height furniture_control_ui_box [Pct 33];
     on lv_obj_center furniture_control_ui_box [];
     on lv_obj_refr_size furniture_control_ui_box [];
     on lv_obj_refr_pos furniture_control_ui_box [];
     v_bg \<leftarrow> lv_img_create furniture_control_ui_box;
     on lv_obj_set_width v_bg [Pct 100];
     on lv_obj_set_height v_bg [Pct 100];
     on lv_obj_refr_size v_bg [];
     on lv_obj_refr_pos v_bg [];
     on lv_img_set_src v_bg [Snapshot];
     on lv_img_set_offset_x v_bg [I (- x1)];
     on lv_img_set_offset_y v_bg [I (- y1)];
     on lv_obj_clear_flag v_bg [K LV_OBJ_FLAG_SCROLLABLE];
     ui_box_main \<leftarrow> btnmatrix_widgets (grid_last d) (fc_matrix d) v_bg;
     on_matrix ui_box_main (\<lambda>m. on lv_obj_center m []);
     each (\<lambda>i. on_btn ui_box_main i (\<lambda>b. on lv_obj_set_style_bg_opa b [K LV_OPA_COVER, K LV_STATE_PRESSED])) [0, 1, 2];
     each (\<lambda>i. on_btn ui_box_main i (\<lambda>b. on lv_obj_set_style_bg_opa b [K LV_OPA_TRANSP, K LV_PART_MAIN])) [0, 1, 2];
     each (\<lambda>i. on_btn ui_box_main i (\<lambda>b. on lv_obj_set_style_shadow_width b [I 0, K LV_PART_MAIN])) [0, 1, 2];
     State_Monad.return main }"

subsection \<open>Icebox\<close>

definition icebox_widgets :: "screen \<Rightarrow> int \<Rightarrow> int \<Rightarrow> nat gui" where
  "icebox_widgets d x1 y1 = do {
     main \<leftarrow> lv_obj_create lv_scr_act;
     on lv_obj_remove_style_all main [];
     on lv_obj_set_style_pad_all main [I 0, K LV_PART_MAIN];
     on lv_obj_set_size main [Pct 100, Pct 100];
     on lv_obj_refr_size main [];
     ui_icebox_box \<leftarrow> lv_obj_create main;
     on lv_obj_remove_style_all ui_icebox_box [];
     on lv_obj_set_width ui_icebox_box [Pct 100];
     on lv_obj_set_height ui_icebox_box [Pct 33];
     on lv_obj_align ui_icebox_box [K LV_ALIGN_TOP_LEFT, I 0, Pct 33];
     on lv_obj_refr_pos ui_icebox_box [];
     text_bg \<leftarrow> lv_img_create ui_icebox_box;
     on lv_obj_set_width text_bg [Pct 100];
     on lv_obj_set_height text_bg [Pct 100];
     on lv_obj_center text_bg [];
     on lv_obj_refr_pos text_bg [];
     on lv_obj_refr_size text_bg [];
     on lv_img_set_src text_bg [Snapshot];
     on lv_img_set_offset_x text_bg [I (- x1)];
     on lv_img_set_offset_y text_bg [I (- y1)];
     ui_icebox_text_box \<leftarrow> lv_obj_create text_bg;
     on lv_obj_remove_style_all ui_icebox_text_box [];
     on lv_obj_set_width ui_icebox_text_box [Pct 66];
     on lv_obj_set_height ui_icebox_text_box [Pct 80];
     on lv_obj_clear_flag ui_icebox_text_box [K LV_OBJ_FLAG_SCROLLABLE];
     text_box1 \<leftarrow> lv_obj_create ui_icebox_text_box;
     on lv_obj_remove_style_all text_box1 [];
     on lv_obj_set_width text_box1 [Pct 100];
     on lv_obj_set_height text_box1 [Pct 30];
     on lv_obj_align text_box1 [K LV_ALIGN_TOP_LEFT, I 0, I 0];
     ui_Label1 \<leftarrow> lv_label_create text_box1;
     on lv_obj_set_width ui_Label1 [K LV_SIZE_CONTENT];
     on lv_obj_set_height ui_Label1 [K LV_SIZE_CONTENT];
     on lv_obj_add_style ui_Label1 [Sty style_txt_m, K LV_PART_MAIN];
     on lv_obj_set_align ui_Label1 [K LV_ALIGN_CENTER];
     on lv_label_set_text ui_Label1 [U [230, 175, 143, 230, 151, 165, 233, 163, 159, 232, 176, 177, 45, 231, 130, 146, 233, 165, 173]];
     text_box2 \<leftarrow> lv_obj_create ui_icebox_text_box;
     on lv_obj_remove_style_all text_box2 [];
     on lv_obj_set_width text_box2 [Pct 100];
     on lv_obj_set_height text_box2 [Pct 66];
     on lv_obj_align text_box2 [K LV_ALIGN_BOTTOM_LEFT, I 0, I 0];
     ui_Label3 \<leftarrow> lv_label_create text_box2;
     on lv_obj_set_width ui_Label3 [K LV_SIZE_CONTENT];
     on lv_obj_set_height ui_Label3 [K LV_SIZE_CONTENT];
     on lv_obj_add_style ui_Label3 [Sty style_txt_m, K LV_PART_MAIN];
     on lv_obj_set_align ui_Label3 [K LV_ALIGN_CENTER];
     on lv_label_set_text ui_Label3 [U [229, 176, 134, 231, 142, 137, 231, 177, 179, 231, 178, 146, 227, 128, 129, 233, 157, 146, 232, 177, 134, 227, 128, 129, 232, 131, 161, 232, 144, 157, 229, 141, 156, 229, 133, 165, 233, 148, 133, 228, 184, 128, 232, 181, 183, 231, 130, 146, 229, 140, 128, 239, 188, 140, 10, 229, 138, 160, 233, 128, 130, 233, 135, 143, 231, 154, 132, 231, 155, 144, 232, 176, 131, 229, 145, 179, 227, 128, 129, 230, 187, 180, 229, 135, 160, 230, 187, 180, 232, 154, 157, 230, 178, 185, 231, 130, 146, 229, 140, 128, 227, 128, 130]];
     ui_icebox_png_box \<leftarrow> lv_img_create text_bg;
     on lv_obj_set_width ui_icebox_png_box [Pct 30];
     on lv_obj_set_height ui_icebox_png_box [Pct 100];
     on lv_obj_align ui_icebox_png_box [K LV_ALIGN_TOP_RIGHT, I 0, I 0];
     ui_rice \<leftarrow> lv_img_create ui_icebox_png_box;
     on lv_img_set_src ui_rice [R IMG_RICE];
     on lv_obj_center ui_rice [];
     btn_return \<leftarrow> ui_return_btn_create d main ''btn_return_cb'' None;
     State_Monad.return main }"

subsection \<open>Coffee machine\<close>

record coffee_ui =
  coffee_main :: nat
  coffee_imgs :: "nat list"
  coffee_machine_name :: nat

definition coffee_machine_widgets :: "screen \<Rightarrow> coffee_ui gui" where
  "coffee_machine_widgets d = do {
     main \<leftarrow> lv_obj_create lv_scr_act;
     on lv_obj_remove_style_all main [];
     on lv_obj_set_style_pad_all main [I 0, K LV_PART_MAIN];
     on lv_obj_set_size main [Pct 100, Pct 100];
     on lv_obj_refr_size main [];
     btn_return \<leftarrow> ui_return_btn_create d main ''btn_return_cb'' (Some (Utf8 [229, 146, 150, 229, 149, 161, 230, 156, 186]));
     coffee_machine_box \<leftarrow> lv_obj_create main;
     on lv_obj_remove_style_all coffee_machine_box [];
     on lv_obj_set_width coffee_machine_box [Pct 100];
     on lv_obj_set_height coffee_machine_box [Pct 90];
     on lv_obj_align coffee_machine_box [K LV_ALIGN_TOP_MID, I 0, Pct 10];
     on lv_obj_set_style_pad_all coffee_machine_box [I 0, K LV_PART_MAIN];
     on lv_obj_set_style_pad_gap coffee_machine_box [I 0, K LV_PART_MAIN];
     on lv_obj_set_flex_flow coffee_machine_box [K LV_FLEX_FLOW_COLUMN];
     coffee_machine_png_box \<leftarrow> lv_obj_create coffee_machine_box;
     on lv_obj_set_scroll_snap_x coffee_machine_png_box [K LV_SCROLL_SNAP_CENTER];
     on lv_obj_remove_style_all coffee_machine_png_box [];
     on lv_obj_set_width coffee_machine_png_box [Pct 100];
     on lv_obj_set_height coffee_machine_png_box [I 300];
     on lv_obj_set_style_pad_hor coffee_machine_png_box [I (c_div (scr_w d - 300) 2), I 0];
     on lv_obj_add_event_cb coffee_machine_png_box [Cb ''coffee_machine_png_box_scroll_callback'', K LV_EVENT_SCROLL, Nul];
     coffee_1 \<leftarrow> lv_img_create coffee_machine_png_box;
     on lv_obj_set_width coffee_1 [I 300];
     on lv_obj_set_height coffee_1 [I 300];
     on lv_obj_align coffee_1 [K LV_ALIGN_CENTER, I 0, I 10];
     on lv_img_set_src coffee_1 [R COFFEE_1];
     coffee_2 \<leftarrow> lv_img_create coffee_machine_png_box;
     on lv_obj_set_width coffee_2 [I 300];
     on lv_obj_set_height coffee_2 [I 300];
     on lv_obj_align coffee_2 [K LV_ALIGN_CENTER, I 400, I 10];
     on lv_img_set_src coffee_2 [R COFFEE_2];
     on lv_img_set_zoom coffee_2 [I 192];
     coffee_3 \<leftarrow> lv_img_create coffee_machine_png_box;
     on lv_obj_set_width coffee_3 [I 300];
     on lv_obj_set_height coffee_3 [I 300];
     on lv_obj_align coffee_3 [K LV_ALIGN_CENTER, I 800, I 10];
     on lv_img_set_src coffee_3 [R COFFEE_3];
     on lv_img_set_zoom coffee_3 [I 192];
     coffee_4 \<leftarrow> lv_img_create coffee_machine_png_box;
     on lv_obj_set_width coffee_4 [I 300];
     on lv_obj_set_height coffee_4 [I 300];
     on lv_obj_align coffee_4 [K LV_ALIGN_CENTER, I 1200, I 10];
     on lv_img_set_src coffee_4 [R COFFEE_4];
     on lv_img_set_zoom coffee_4 [I 192];
     coffee_5 \<leftarrow> lv_img_create coffee_machine_png_box;
     on lv_obj_set_width coffee_5 [I 300];
     on lv_obj_set_height coffee_5 [I 300];
     on lv_obj_align coffee_5 [K LV_ALIGN_CENTER, I 1600, I 10];
     on lv_img_set_src coffee_5 [R COFFEE_5];
     on lv_img_set_zoom coffee_5 [I 192];
     coffee_machine_box_name \<leftarrow> lv_obj_create coffee_machine_box;
     on lv_obj_remove_style_all coffee_machine_box_name [];
     on lv_obj_set_width coffee_machine_box_name [Pct 100];
     coffee_machine_name \<leftarrow> lv_label_create coffee_machine_box_name;
     on lv_obj_add_style coffee_machine_name [Sty style_txt_m, K LV_PART_MAIN];
     on lv_label_set_text coffee_machine_name [U [231, 190, 142, 229, 188, 143, 229, 146, 150, 229, 149, 161]];
     on lv_obj_set_style_text_color coffee_machine_name [Hex 0xFFFFFF, K LV_PART_MAIN];
     on lv_obj_align coffee_machine_name [K LV_ALIGN_CENTER, I 0, I 0];
     coffee_machine_button_box \<leftarrow> lv_obj_create coffee_machine_box;
     on lv_obj_remove_style_all coffee_machine_button_box [];
     on lv_obj_set_width coffee_machine_button_box [Pct 100];
     on lv_obj_set_height coffee_machine_button_box [Pct 20];
     coffee_machine_button \<leftarrow> lv_btn_create coffee_machine_button_box;
     on lv_obj_set_width coffee_machine_button [Pct 40];
     on lv_obj_set_height coffee_machine_button [Pct 100];
     on lv_obj_set_style_bg_color coffee_machine_button [Hex 0xDED6D6, K LV_PART_MAIN];
     on lv_obj_align coffee_machine_button [K LV_ALIGN_CENTER, I 0, I 0];
     on lv_obj_set_style_radius coffee_machine_button [K LV_RADIUS_CIRCLE, I 0];
     coffee_machine_button_label \<leftarrow> lv_label_create coffee_machine_button;
     on lv_obj_add_style coffee_machine_button_label [Sty style_txt_m, K LV_PART_MAIN];
     on lv_obj_align coffee_machine_button_label [K LV_ALIGN_CENTER, I 0, I 0];
     on lv_label_set_text coffee_machine_button_label [U [229, 188, 128, 229, 167, 139, 229, 136, 182, 228, 189, 156]];
     State_Monad.return \<lparr>coffee_main = main, coffee_imgs = [coffee_1, coffee_2, coffee_3, coffee_4, coffee_5],
       coffee_machine_name = coffee_machine_name\<rparr> }"

definition coffee_zoom :: "coffee_ui \<Rightarrow> nat \<Rightarrow> int \<Rightarrow> unit gui" where
  "coffee_zoom c i z = on lv_img_set_zoom (coffee_imgs c ! i) [I z]"

definition coffee_scroll_calls :: "int \<Rightarrow> coffee_ui \<Rightarrow> unit gui" where
  "coffee_scroll_calls v c = do {
     only_if (0 < v \<and> v \<le> 200) (do { coffee_zoom c 0 256; coffee_zoom c 1 192;
       on lv_label_set_text (coffee_machine_name c) [U [231, 190, 142, 229, 188, 143, 229, 146, 150, 229, 149, 161]] });
     only_if (200 < v \<and> v \<le> 600) (do { coffee_zoom c 0 192; coffee_zoom c 1 256; coffee_zoom c 2 192;
       on lv_label_set_text (coffee_machine_name c) [U [230, 132, 143, 229, 188, 143, 229, 146, 150, 229, 149, 161]] });
     only_if (600 < v \<and> v \<le> 1000) (do { coffee_zoom c 1 192; coffee_zoom c 2 256; coffee_zoom c 3 192;
       on lv_label_set_text (coffee_machine_name c) [U [231, 190, 142, 229, 145, 179, 230, 139, 191, 233, 147, 129]] });
     only_if (1000 < v \<and> v \<le> 1400) (do { coffee_zoom c 2 192; coffee_zoom c 3 256; coffee_zoom c 4 192;
       on lv_label_set_text (coffee_machine_name c) [U [229, 141, 161, 229, 184, 131, 229, 165, 135, 232, 175, 186]] });
     only_if (1400 < v \<and> v \<le> 1800) (do { coffee_zoom c 3 192; coffee_zoom c 4 256;
       on lv_label_set_text (coffee_machine_name c) [U [82, 75, 229, 146, 150, 229, 149, 161]] }) }"

subsection \<open>Video\<close>

definition player_look :: "label_text \<times> string \<Rightarrow> btn_look" where
  "player_look r = (case r of (txt, cb) \<Rightarrow>
     \<lparr>bl_w = 1, bl_h = 1, bl_img = None, bl_text = Some txt, bl_draw = Player_btn_draw,
      bl_cb = Some cb, bl_user_data = No_data\<rparr>)"

definition player_btn_looks :: "btn_look list" where
  "player_btn_looks = map player_look
    [(Ascii ''list'', ''player_list_button_callback''), (Ascii ''play'', ''player_start_button_callback''),
     (Ascii ''stop'', ''player_stop_button_callback'')]"

definition player_matrix :: "screen \<Rightarrow> matrix_look" where
  "player_matrix d = \<lparr>ml_cols = replicate 3 (RK_PCT_W d 27), ml_rows = [RK_PCT_W d 27], ml_pad = 5,
     ml_gap = 5, ml_btns = player_btn_looks\<rparr>"

record player_ui =
  player_main :: nat
  player_box_button :: "(nat \<times> (nat \<times> nat) list) option"
  video_label :: nat

text \<open>\<open>rk3506\<close> is the build option \<open>USE_RK3506\<close>. Rows 1, 2, 0 are the start, stop and list buttons.\<close>

definition player_widgets :: "screen \<Rightarrow> bool \<Rightarrow> player_ui gui" where
  "player_widgets d rk3506 = do {
     main \<leftarrow> lv_obj_create lv_scr_act;
     on lv_obj_remove_style_all main [];
     on lv_obj_set_style_pad_all main [I 0, K LV_PART_MAIN];
     on lv_obj_set_size main [Pct 100, Pct 100];
     on lv_obj_set_style_bg_opa main [I 0, K LV_PART_MAIN];
     on lv_obj_refr_size main [];
     icon_box \<leftarrow> lv_obj_create main;
     on lv_obj_clear_flag icon_box [K LV_OBJ_FLAG_SCROLLABLE];
     on lv_obj_set_style_pad_all icon_box [I 0, K LV_PART_MAIN];
     on lv_obj_set_width icon_box [Pct 100];
     on lv_obj_set_height icon_box [Pct 10];
     on lv_obj_align icon_box [K LV_ALIGN_TOP_LEFT, I 0, I 0];
     btn_return \<leftarrow> ui_return_btn_create d icon_box ''btn_return_cb'' (Some (Utf8 [229, 174, 163, 228, 188, 160, 232, 167, 134, 233, 162, 145]));
     player_box \<leftarrow> lv_obj_create main;
     on lv_obj_set_width player_box [Pct 100];
     on lv_obj_set_height player_box [Pct (if rk3506 then 33 else 50)];
     on lv_obj_align player_box [K LV_ALIGN_TOP_LEFT, I 0, Pct (if rk3506 then 67 else 50)];
     player_box_button \<leftarrow> btnmatrix_widgets (grid_last d) (player_matrix d) player_box;
     each (\<lambda>i. on_btn player_box_button i (\<lambda>b. on lv_obj_set_style_bg_opa b [K LV_OPA_COVER, K LV_STATE_PRESSED])) [1, 2, 0];
     each (\<lambda>i. on_btn player_box_button i (\<lambda>b. on lv_obj_set_style_bg_opa b [K LV_OPA_TRANSP, K LV_PART_MAIN])) [1, 2, 0];
     each (\<lambda>i. on_btn player_box_button i (\<lambda>b. on lv_obj_set_style_shadow_width b [I 0, K LV_PART_MAIN])) [1, 2, 0];
     video_label \<leftarrow> lv_label_create icon_box;
     on lv_obj_set_width video_label [K LV_SIZE_CONTENT];
     on lv_obj_set_height video_label [K LV_SIZE_CONTENT];
     on lv_obj_align video_label [K LV_ALIGN_CENTER, I 0, Pct 10];
     on lv_obj_add_style video_label [Sty style_txt_m, K LV_PART_MAIN];
     on lv_label_set_text video_label [T ''''];
     State_Monad.return \<lparr>player_main = main, player_box_button = player_box_button, video_label = video_label\<rparr> }"

text \<open>\<open>player_list_button_callback\<close> with the list closed, for the names \<open>Player_UI\<close> says it offers.\<close>

definition list_entry :: "nat \<Rightarrow> string \<Rightarrow> unit gui" where
  "list_entry video_list name = do {
     obj_text \<leftarrow> create_with List_btn video_list [Nul, T name];
     on lv_obj_add_flag obj_text [K LV_OBJ_FLAG_CLICKABLE];
     on lv_obj_add_event_cb obj_text [Cb ''video_name_callback'', K LV_EVENT_CLICKED, T name] }"

definition open_list :: "string list \<Rightarrow> player_ui \<Rightarrow> nat gui" where
  "open_list names p = do {
     video_list_box \<leftarrow> lv_obj_create (player_main p);
     on lv_obj_set_width video_list_box [Pct 50];
     on lv_obj_set_height video_list_box [Pct 40];
     on_matrix (player_box_button p) (\<lambda>player_box_button.
       on lv_obj_align_to video_list_box [H player_box_button, K LV_ALIGN_OUT_TOP_LEFT, I 0, I 0]);
     video_list \<leftarrow> lv_list_create video_list_box;
     on lv_obj_set_size video_list [Pct 100, Pct 100];
     on lv_obj_center video_list [];
     on lv_obj_add_style video_list [Sty style_list, K LV_PART_MAIN];
     on lv_obj_set_style_pad_column video_list [I 10, K LV_PART_MAIN];
     each (list_entry video_list) names;
     State_Monad.return video_list_box }"

text \<open>A name chosen: its calls; and the list button pressed again.\<close>

definition choose_name :: "string \<Rightarrow> player_ui \<Rightarrow> nat \<Rightarrow> unit gui" where
  "choose_name name p video_list_box = do {
     on lv_label_set_text (video_label p) [T (''/oem/'' @ name)];
     del video_list_box }"

text \<open>The list opened and closed, by a choice or without one.\<close>

definition list_session :: "player_ui \<Rightarrow> string list \<times> string option \<Rightarrow> unit gui" where
  "list_session p x = do {
     box \<leftarrow> open_list (fst x) p;
     (case snd x of Some name \<Rightarrow> choose_name name p box | None \<Rightarrow> del box) }"

subsection \<open>Properties\<close>

lemma home_grid_four: "home_grid True 4 = (4, 1)" "home_grid False 4 = (2, 2)"
  by code_simp+

lemma home_matrix_ok: "home_item_w d \<noteq> grid_last d \<Longrightarrow> matrix_ok (grid_last d) (home_matrix d)"
  by (rule matrix_ok_unit; cases "is_hor d")
    (auto simp: home_matrix_def home_btn_looks_def home_look_def home_grid_four Let_def)

lemma home_matrix_btns: "length (ml_btns (home_matrix d)) = 4"
  by (simp add: home_matrix_def home_btn_looks_def split_def Let_def)

lemma fc_matrix_ok: "200 \<noteq> grid_last d \<Longrightarrow> matrix_ok (grid_last d) (fc_matrix d)"
  by (rule matrix_ok_unit) (auto simp: fc_matrix_def fc_btn_looks_def fc_look_def)

lemma fc_matrix_btns: "length (ml_btns (fc_matrix d)) = 3"
  by (simp add: fc_matrix_def fc_btn_looks_def)

lemma player_matrix_ok: "RK_PCT_W d 27 \<noteq> grid_last d \<Longrightarrow> matrix_ok (grid_last d) (player_matrix d)"
  by (rule matrix_ok_unit) (auto simp: player_matrix_def player_btn_looks_def player_look_def)

lemma player_matrix_btns: "length (ml_btns (player_matrix d)) = 3"
  by (simp add: player_matrix_def player_btn_looks_def)

lemma date_update_makes:
  assumes "allowed F (ui_label_time h) (\<lambda>c. c = Label)" "allowed F (ui_label_date h) (\<lambda>c. c = Label)"
    "\<And>w. ui_wifi h = Some w \<Longrightarrow> allowed F w (\<lambda>c. c = Img)"
  shows "makes F (date_update tim wifi_on h) (\<lambda>_. True) (\<lambda>_. F)"
  unfolding date_update_def
  by (intro steps ends; use assms in \<open>auto simp: makes_simps allowed_mem\<close>)

lemma overlap_makes:
  assumes "allowed F m (\<lambda>_. True)"
  shows "makes F (check_overlap a1 a2 a3 m) (\<lambda>_. True) (\<lambda>_. F)"
  unfolding check_overlap_def
  by (cases a1 rule: prod_cases4; cases a2 rule: prod_cases4; cases a3 rule: prod_cases4; simp only: prod.case;
      intro steps ends; use assms in \<open>auto simp: makes_simps allowed_mem\<close>)

lemma coffee_makes:
  "makes F (coffee_machine_widgets d) (\<lambda>c. length (coffee_imgs c) = 5)
    (\<lambda>c. (coffee_main c, map (\<lambda>i. (i, Img)) (coffee_imgs c) @ [(coffee_machine_name c, Label)]) # F)"
  unfolding coffee_machine_widgets_def
  by (intro steps matrix_steps ends; auto simp: makes_simps)

lemma icebox_makes: "makes F (icebox_widgets d x1 y1) (\<lambda>_. True) (\<lambda>m. (m, []) # F)"
  unfolding icebox_widgets_def
  by (intro steps matrix_steps ends; auto simp: makes_simps)

lemma furniture_makes:
  assumes "200 \<noteq> grid_last d"
  shows "makes F (furniture_control_widgets d x1 y1) (\<lambda>_. True) (\<lambda>m. (m, []) # F)"
  unfolding furniture_control_widgets_def
  by (intro steps matrix_steps ends makes_matrix [OF fc_matrix_ok [OF assms] _ fc_matrix_btns];
      auto simp: makes_simps)

lemma player_makes:
  assumes "RK_PCT_W d 27 \<noteq> grid_last d"
  shows "makes F (player_widgets d rk) (\<lambda>p. player_box_button p \<noteq> None)
    (\<lambda>p. (player_main p, [(player_main p, Obj), (fst (the (player_box_button p)), Obj), (video_label p, Label)]) # F)"
  unfolding player_widgets_def
  by (intro steps matrix_steps ends makes_matrix [OF player_matrix_ok [OF assms] _ player_matrix_btns];
      auto simp: makes_simps)

lemma home_makes:
  assumes "home_item_w d \<noteq> grid_last d"
  shows "makes F (home_widgets d wifibt tim wifi_on a1 a2 a3) (\<lambda>_. True)
    (\<lambda>h. (home_main h, (ui_label_time h, Label) # (ui_label_date h, Label)
       # (case ui_wifi h of None \<Rightarrow> [] | Some w \<Rightarrow> [(w, Img)])) # F)"
  unfolding home_widgets_def Let_def
  by (cases wifibt; simp only: if_True if_False;
    intro steps matrix_steps ends makes_matrix [OF home_matrix_ok [OF assms] _ home_matrix_btns]
      makes_bind [OF date_update_makes] makes_weaken [OF overlap_makes];
    auto simp: makes_simps)

lemma coffee_scroll_makes:
  assumes "length (coffee_imgs c) = 5" "\<And>i. i \<in> set (coffee_imgs c) \<Longrightarrow> allowed F i (\<lambda>c. c = Img)"
    "allowed F (coffee_machine_name c) (\<lambda>c. c = Label)"
  shows "makes F (coffee_scroll_calls v c) (\<lambda>_. True) (\<lambda>_. F)"
proof -
  have "allowed F (coffee_imgs c ! i) (fits lv_img_set_zoom)" if "i < 5" for i
    using assms(2) [of "coffee_imgs c ! i"] assms(1) that by (auto simp: makes_simps allowed_mem)
  moreover have "allowed F (coffee_machine_name c) (fits lv_label_set_text)"
    using assms(3) by (auto simp: makes_simps allowed_mem)
  ultimately show ?thesis
    unfolding coffee_scroll_calls_def coffee_zoom_def by (intro steps ends; simp)
qed

lemma list_entry_grown:
  assumes "fresh_from n e" "e l = Some (List_w, q)"
  shows "typed (list_entry l name) n e (\<lambda>_ n' e'. grown {l} n e n' e')"
  unfolding list_entry_def using assms fresh_fromD [OF assms(1)] fresh_from_less [OF assms]
  by (intro typed_rules; ((simp add: class_simps split: option.splits; fail) | (intro grown_create grown_refl; simp)))

lemma list_session_keeps:
  assumes f: "fresh_from n e" and "accepts e (player_main p) (\<lambda>_. True)"
    and "accepts e (video_label p) (\<lambda>c. c = Label)"
    and "player_box_button p = Some (b, hs)" "accepts e b (\<lambda>_. True)"
  shows "typed (list_session p x) n e (\<lambda>_ n' e'. n \<le> n' \<and> e' = e)"
proof -
  from assms(2,5) obtain y z where y: "e (player_main p) = Some y" "e b = Some z"
    by (auto simp: accepts_def split: option.splits)
  from accepts_label [OF assms(3)] obtain q where q: "e (video_label p) = Some (Label, q)" by blast
  note n = fresh_fromD [OF f] fresh_from_less [OF f y(1)] fresh_from_less [OF f y(2)] fresh_from_less [OF f q]
  define e1 where "e1 = e(n \<mapsto> (Obj, player_main p), Suc n \<mapsto> (List_w, n))"
  have t: "tree n e (Suc (Suc n)) e1"
    unfolding e1_def by (rule tree_create [OF tree_root [OF f]]) simp_all
  have rest: "typed (case snd x of Some name \<Rightarrow> choose_name name p n | None \<Rightarrow> del n) m e' (\<lambda>_ n' e'. n \<le> n' \<and> e' = e)"
    if g: "grown {Suc n} (Suc (Suc n)) e1 m e'" for m e'
  proof -
    have tr: "tree n e m e'" by (rule tree_grown [OF t g]) (simp add: e1_def)
    have "e' n \<noteq> None" "e' (video_label p) = Some (Label, q)" "n \<le> m"
      using grown_old [OF g, of n] grown_old [OF g, of "video_label p"] grown_le [OF g] n q by (simp_all add: e1_def)
    then show ?thesis unfolding choose_name_def
      by (cases "snd x"; simp only: option.case; intro typed_rules conjI tree_removed [OF f tr];
          simp add: class_simps)
  qed
  have "typed (each (list_entry (Suc n)) (fst x)) (Suc (Suc n)) e1 (\<lambda>_ n' e'. grown {Suc n} (Suc (Suc n)) e1 n' e')"
    by (rule typed_each [where f = e1]) (use tree_fresh [OF t] in \<open>auto intro!: list_entry_grown simp: e1_def\<close>)
  then have "typed (each (list_entry (Suc n)) (fst x)) (Suc (Suc n)) e1 (\<lambda>_ n' e'.
      typed (State_Monad.return n) n' e' (\<lambda>r n' e'. typed (case snd x of Some name \<Rightarrow> choose_name name p r | None \<Rightarrow> del r)
        n' e' (\<lambda>_ n' e'. n \<le> n' \<and> e' = e)))"
    by (rule typed_weaken) (use rest in \<open>auto intro!: typed_return\<close>)
  then show ?thesis
    unfolding list_session_def open_list_def on_matrix_def assms(4) option.case prod.case e1_def
    using f y q n
    by (intro typed_rules; ((simp add: class_simps split: option.splits; fail) | assumption))
qed
end
