(* ===== verification/UI_Tiles.thy ===== *)
theory UI_Tiles
  imports Widgets
begin

text \<open>
  The tiles of the smart home page that only draw (\<open>app_date.c\<close>, \<open>app_weather.c\<close>, \<open>app_switch.c\<close>,
  \<open>app_scene.c\<close>, \<open>app_aircond.c\<close> in \<open>smart_home\<close>), as programs over \<open>Widgets\<close>. A tile's \<open>userdata\<close> is its text, or \<open>None\<close> for a null pointer; the
  counters \<open>idx\<close> are taken and given back.
\<close>

definition app_date_init :: "nat \<Rightarrow> unit gui" where
  "app_date_init parent = do {
     obj \<leftarrow> lv_label_create parent;
     on lv_label_set_text obj [T ''10:32''];
     on lv_obj_add_style obj [Sty style_txt_l, K LV_PART_MAIN];
     on lv_obj_set_style_text_color obj [Hex 0xFFFFFF, K LV_PART_MAIN];
     on lv_obj_align obj [K LV_ALIGN_CENTER, I 0, I (-10)];
     label \<leftarrow> lv_label_create parent;
     on lv_label_set_text label [U [55, 230, 156, 136, 49, 51, 230, 151, 165, 32, 229, 145, 168, 229, 155, 155]];
     on lv_obj_add_style label [Sty style_txt_m, K LV_PART_MAIN];
     on lv_obj_set_style_text_color label [Hex 0xFFFFFF, K LV_PART_MAIN];
     on lv_obj_align_to label [H obj, K LV_ALIGN_OUT_BOTTOM_MID, I 0, I 0];
     State_Monad.return () }"

definition app_weather_init :: "nat \<Rightarrow> unit gui" where
  "app_weather_init parent = do {
     obj \<leftarrow> lv_label_create parent;
     on lv_label_set_text obj [U [51, 50, 226, 132, 131]];
     on lv_obj_add_style obj [Sty style_txt_l, K LV_PART_MAIN];
     on lv_obj_set_style_text_color obj [Hex 0xFFFFFF, K LV_PART_MAIN];
     on lv_obj_align obj [K LV_ALIGN_CENTER, I 0, I (-10)];
     label \<leftarrow> lv_label_create parent;
     on lv_label_set_text label [U [231, 166, 143, 229, 183, 158, 32, 230, 153, 180]];
     on lv_obj_add_style label [Sty style_txt_m, K LV_PART_MAIN];
     on lv_obj_set_style_text_color label [Hex 0xFFFFFF, K LV_PART_MAIN];
     on lv_obj_align_to label [H obj, K LV_ALIGN_OUT_BOTTOM_LEFT, I 0, I 0];
     State_Monad.return () }"

text \<open>\<open>((uint8_t *)userdata)[0] & 0x4\<close> is bit 2 of the first byte of the text.\<close>

definition app_switch_init :: "int \<Rightarrow> nat \<Rightarrow> string option \<Rightarrow> int gui" where
  "app_switch_init idx parent userdata = do {
     cont \<leftarrow> lv_obj_create parent;
     on lv_obj_remove_style_all cont [];
     on lv_obj_set_size cont [Pct 100, K LV_SIZE_CONTENT];
     on lv_obj_set_flex_flow cont [K LV_FLEX_FLOW_COLUMN];
     on lv_obj_set_flex_align cont [K LV_FLEX_ALIGN_CENTER, K LV_FLEX_ALIGN_CENTER, K LV_FLEX_ALIGN_CENTER];
     on lv_obj_center cont [];
     label \<leftarrow> lv_label_create cont;
     on lv_obj_add_style label [Sty style_txt_m, K LV_PART_MAIN];
     on lv_obj_set_style_text_color label [Hex 0xFFFFFF, K LV_PART_MAIN];
     obj \<leftarrow> lv_switch_create cont;
     case userdata of
       Some txt \<Rightarrow> do {
         on lv_label_set_text label [T txt];
         on lv_obj_add_state obj
           [K (if bit (of_char (case txt of [] \<Rightarrow> CHR 0x00 | c # _ \<Rightarrow> c) :: u8) 2
               then LV_STATE_CHECKED else LV_STATE_DEFAULT)];
         State_Monad.return idx }
     | None \<Rightarrow> do {
         on lv_label_set_text_fmt label [U [229, 188, 128, 229, 133, 179, 32, 37, 100], I idx];
         on lv_obj_add_state obj [I (if c_mod (idx + 1) 3 = 0 then 1 else 0)];
         State_Monad.return (idx + 1) } }"

text \<open>The answer of \<open>lv_obj_get_content_width\<close> is the parameter \<open>width\<close>.\<close>

definition app_scene_init :: "int \<Rightarrow> nat \<Rightarrow> unit gui" where
  "app_scene_init width parent = do {
     on lv_obj_refr_size parent [];
     let size = c_div width 2;
     obj \<leftarrow> lv_btn_create parent;
     on lv_obj_align obj [K LV_ALIGN_CENTER, I (c_div (- size * 2) 3), I 0];
     on lv_obj_set_size obj [I size, I size];
     on lv_obj_set_style_radius obj [I size, K LV_PART_MAIN];
     obj \<leftarrow> lv_label_create obj;
     on lv_label_set_text obj [U [229, 155, 158, 229, 174, 182]];
     on lv_obj_add_style obj [Sty style_txt_s, K LV_PART_MAIN];
     on lv_obj_set_style_text_color obj [Hex 0xFFFFFF, K LV_PART_MAIN];
     on lv_obj_center obj [];
     obj \<leftarrow> lv_btn_create parent;
     on lv_obj_align obj [K LV_ALIGN_CENTER, I (c_div (size * 2) 3), I 0];
     on lv_obj_set_size obj [I size, I size];
     on lv_obj_set_style_radius obj [I size, K LV_PART_MAIN];
     obj \<leftarrow> lv_label_create obj;
     on lv_label_set_text obj [U [229, 164, 150, 229, 135, 186]];
     on lv_obj_add_style obj [Sty style_txt_s, K LV_PART_MAIN];
     on lv_obj_set_style_text_color obj [Hex 0xFFFFFF, K LV_PART_MAIN];
     on lv_obj_center obj [];
     State_Monad.return () }"

definition aircond_btns :: "(arg \<times> sym) list" where
  "aircond_btns =
    [(U [229, 188, 128, 229, 144, 175, 47, 229, 133, 179, 233, 151, 173], LV_ALIGN_TOP_LEFT),
     (U [229, 136, 182, 229, 134, 183, 230, 168, 161, 229, 188, 143], LV_ALIGN_TOP_RIGHT),
     (U [229, 136, 182, 231, 131, 173, 230, 168, 161, 229, 188, 143], LV_ALIGN_BOTTOM_LEFT),
     (U [233, 163, 142, 229, 138, 155, 239, 188, 154, 51], LV_ALIGN_BOTTOM_RIGHT)]"

definition aircond_temps :: "string list" where
  "aircond_temps = [''16'', ''17'', ''18'', ''19'', ''20'', ''21'', ''22'', ''23'', ''24'', ''25'', ''26'',
     ''27'', ''28'', ''29'', ''30'', ''31'', ''32'']"

definition aircond_btn :: "nat \<Rightarrow> arg \<times> sym \<Rightarrow> unit gui" where
  "aircond_btn area_btn b = do {
     obj \<leftarrow> lv_btn_create area_btn;
     on lv_obj_align obj [K (snd b), I 0, I 0];
     on lv_obj_set_size obj [Pct 45, Pct 45];
     on lv_obj_set_style_radius obj [Pct 50, K LV_PART_MAIN];
     obj \<leftarrow> lv_label_create obj;
     on lv_label_set_text obj [fst b];
     on lv_obj_add_style obj [Sty style_txt_s, K LV_PART_MAIN];
     on lv_obj_set_style_text_color obj [Hex 0xFFFFFF, K LV_PART_MAIN];
     on lv_obj_center obj [];
     State_Monad.return () }"

definition app_aircond_init :: "int \<Rightarrow> nat \<Rightarrow> string option \<Rightarrow> int gui" where
  "app_aircond_init idx parent userdata = do {
     area_aircond \<leftarrow> lv_obj_create parent;
     on lv_obj_remove_style_all area_aircond [];
     on lv_obj_set_size area_aircond [Pct 100, Pct 100];
     on lv_obj_set_style_pad_all area_aircond [I 10, K LV_PART_MAIN];
     on lv_obj_center area_aircond [];
     obj \<leftarrow> lv_label_create area_aircond;
     on lv_obj_align obj [K LV_ALIGN_TOP_LEFT, I 0, I 0];
     idx' \<leftarrow> (case userdata of
       Some txt \<Rightarrow> do { on lv_label_set_text obj [T txt]; State_Monad.return idx }
     | None \<Rightarrow> do {
         on lv_label_set_text_fmt obj [U [231, 169, 186, 232, 176, 131, 32, 37, 100], I idx];
         State_Monad.return (idx + 1) });
     on lv_obj_add_style obj [Sty style_txt_m, K LV_PART_MAIN];
     on lv_obj_set_style_text_color obj [Hex 0xFFFFFF, K LV_PART_MAIN];
     area_temp \<leftarrow> lv_obj_create area_aircond;
     on lv_obj_remove_style_all area_temp [];
     on lv_obj_set_size area_temp [Pct 100, Pct 50];
     on lv_obj_align area_temp [K LV_ALIGN_TOP_MID, I 0, I 0];
     on lv_obj_clear_flag area_temp [K LV_OBJ_FLAG_SCROLLABLE];
     area_btn \<leftarrow> lv_obj_create area_aircond;
     on lv_obj_remove_style_all area_btn [];
     on lv_obj_set_size area_btn [Pct 50, Pct 50];
     on lv_obj_align area_btn [K LV_ALIGN_BOTTOM_LEFT, I 0, I 0];
     on lv_obj_clear_flag area_btn [K LV_OBJ_FLAG_SCROLLABLE];
     area_set \<leftarrow> lv_obj_create area_aircond;
     on lv_obj_remove_style_all area_set [];
     on lv_obj_set_size area_set [Pct 50, Pct 50];
     on lv_obj_align area_set [K LV_ALIGN_BOTTOM_RIGHT, I 0, I 0];
     on lv_obj_clear_flag area_set [K LV_OBJ_FLAG_SCROLLABLE];
     temp \<leftarrow> lv_label_create area_temp;
     on lv_obj_align temp [K LV_ALIGN_BOTTOM_MID, I 0, I 0];
     on lv_label_set_text temp [U [50, 52, 226, 132, 131]];
     on lv_obj_add_style temp [Sty style_txt_l, K LV_PART_MAIN];
     on lv_obj_set_style_text_color temp [Hex 0xFFFFFF, K LV_PART_MAIN];
     on lv_obj_refr_size temp [];
     on lv_obj_refr_pos temp [];
     obj \<leftarrow> lv_label_create area_temp;
     on lv_label_set_text obj [U [229, 189, 147, 229, 137, 141, 229, 174, 164, 230, 184, 169]];
     on lv_obj_add_style obj [Sty style_txt_s, K LV_PART_MAIN];
     on lv_obj_set_style_text_color obj [Hex 0xFFFFFF, K LV_PART_MAIN];
     on lv_obj_refr_size obj [];
     on lv_obj_refr_pos obj [];
     on lv_obj_align_to obj [H temp, K LV_ALIGN_OUT_LEFT_TOP, I 0, I 0];
     each (aircond_btn area_btn) aircond_btns;
     temp \<leftarrow> lv_roller_create area_set;
     on lv_roller_set_options temp [Lines aircond_temps, K LV_ROLLER_MODE_NORMAL];
     on lv_roller_set_visible_row_count temp [I 3];
     on lv_roller_set_selected temp [I 8, K LV_ANIM_OFF];
     on lv_obj_align temp [K LV_ALIGN_CENTER, I 0, I 0];
     obj \<leftarrow> lv_label_create area_set;
     on lv_label_set_text obj [U [232, 174, 190, 231, 189, 174, 230, 184, 169, 229, 186, 166]];
     on lv_obj_add_style obj [Sty style_txt_s, K LV_PART_MAIN];
     on lv_obj_set_style_text_color obj [Hex 0xFFFFFF, K LV_PART_MAIN];
     on lv_obj_align_to obj [H temp, K LV_ALIGN_OUT_BOTTOM_MID, I 0, I 0];
     State_Monad.return idx' }"

subsection \<open>Properties\<close>

lemma date_builds: "builds {parent} (app_date_init parent)"
  unfolding app_date_init_def
  by (rule buildsI; intro typed_rules;
      ((simp add: class_simps split: option.splits; fail) | (intro grown_create grown_refl; simp)))

lemma weather_builds: "builds {parent} (app_weather_init parent)"
  unfolding app_weather_init_def
  by (rule buildsI; intro typed_rules;
      ((simp add: class_simps split: option.splits; fail) | (intro grown_create grown_refl; simp)))

lemma scene_builds: "builds {parent} (app_scene_init width parent)"
  unfolding app_scene_init_def Let_def
  by (rule buildsI; intro typed_rules;
      ((simp add: class_simps split: option.splits; fail) | (intro grown_create grown_refl; simp)))

lemma switch_builds: "builds {parent} (app_switch_init idx parent userdata)"
  unfolding app_switch_init_def
  by (rule buildsI; cases userdata; simp only: option.case; intro typed_rules;
      ((simp add: class_simps split: option.splits; fail) | (intro grown_create grown_refl; simp)))

lemma aircond_builds: "builds {parent} (app_aircond_init idx parent userdata)"
  unfolding app_aircond_init_def aircond_btns_def each.simps aircond_btn_def
  by (rule buildsI; cases userdata; simp only: option.case; intro typed_rules;
      ((simp add: class_simps split: option.splits; fail) | (intro grown_create grown_refl; simp)))

text \<open>Every tile constructor is well typed, whatever its text and the numbers it is given: it calls
  each LVGL function on a live object of the class the function is for, and every object it makes
  is below the tile's item, so that deleting the item deletes all of the tile.\<close>

theorem tiles_well_typed:
  "builds {parent} (app_date_init parent) \<and> builds {parent} (app_weather_init parent)
    \<and> builds {parent} (app_scene_init width parent) \<and> builds {parent} (app_switch_init idx parent userdata)
    \<and> builds {parent} (app_aircond_init idx parent userdata)"
  by (intro conjI date_builds weather_builds scene_builds switch_builds aircond_builds)

end
