(* ===== verification/UI_Panels.thy ===== *)
theory UI_Panels
  imports UI_Home UI_Tiles Pagination Bt_Base
begin

text \<open>
  The widgets of the smart home page (\<open>smart_home_ui.c\<close>, with the music tile of \<open>app_music.c\<close>), of the
  intercom's pages (\<open>ui_intercom_homepage.c\<close>, \<open>ui_intercom_call.c\<close>, \<open>ui_monitor.c\<close>) and of the settings
  page (\<open>setting_ui.c\<close>). The pages of tiles are those \<open>Pagination\<close> computes.
\<close>

subsection \<open>Pages of tiles\<close>

definition tile_layout_widgets :: "tile_layout \<Rightarrow> nat \<Rightarrow> nat gui" where
  "tile_layout_widgets t parent = do {
     layout \<leftarrow> lv_obj_create parent;
     on lv_obj_remove_style_all layout [];
     on lv_obj_set_size layout [I (tl_w t), I (tl_h t)];
     on lv_obj_set_style_grid_column_dsc_array layout [Tab (tl_col_dsc t), I 0];
     on lv_obj_set_style_grid_row_dsc_array layout [Tab (tl_row_dsc t), I 0];
     on lv_obj_set_layout layout [K LV_LAYOUT_GRID];
     on lv_obj_center layout [];
     State_Monad.return layout }"

definition tile_item_widget :: "nat \<Rightarrow> int \<Rightarrow> int \<Rightarrow> int \<Rightarrow> int \<Rightarrow> nat gui" where
  "tile_item_widget layout x cols y rows = do {
     obj \<leftarrow> lv_obj_create layout;
     on lv_obj_remove_style_all obj [];
     on lv_obj_set_grid_cell obj [K LV_GRID_ALIGN_STRETCH, I x, I cols, K LV_GRID_ALIGN_STRETCH, I y, I rows];
     on lv_obj_clear_flag obj [K LV_OBJ_FLAG_SCROLLABLE];
     State_Monad.return obj }"

text \<open>
  The two nested loops. \<open>init i s obj\<close> is what is done with the item of application \<open>i\<close>; \<open>s\<close> are the
  static counters of the tiles.
\<close>

fun items_widgets :: "(nat \<Rightarrow> 's \<Rightarrow> nat \<Rightarrow> 's gui) \<Rightarrow> nat \<Rightarrow> nat \<Rightarrow> tile_item list \<Rightarrow> 's \<Rightarrow> (nat \<times> 's) gui" where
  "items_widgets init layout idx [] s = State_Monad.return (idx, s)"
| "items_widgets init layout idx (Pad_item # its) s = items_widgets init layout (Suc idx) its s"
| "items_widgets init layout idx (Tile_item x w y h # its) s = do {
     tl_item \<leftarrow> tile_item_widget layout x w y h;
     s' \<leftarrow> init idx s tl_item;
     items_widgets init layout (Suc idx) its s' }"

fun pages_widgets :: "(nat \<Rightarrow> 's \<Rightarrow> nat \<Rightarrow> 's gui) \<Rightarrow> nat \<Rightarrow> tile_layout \<Rightarrow> nat \<Rightarrow> nat \<Rightarrow> tile_item list list \<Rightarrow> 's \<Rightarrow> 's gui" where
  "pages_widgets init tv t cnt idx [] s = State_Monad.return s"
| "pages_widgets init tv t cnt idx (its # ps) s = do {
     obj \<leftarrow> create_with Tile tv [I (int cnt), I 0, Fl [LV_DIR_LEFT, LV_DIR_RIGHT]];
     on lv_obj_set_style_pad_all obj [I 0, K LV_PART_MAIN];
     layout \<leftarrow> tile_layout_widgets t obj;
     r \<leftarrow> items_widgets init layout idx its s;
     pages_widgets init tv t (Suc cnt) (fst r) ps (snd r) }"

subsection \<open>Smart home\<close>

definition btn_symbols :: "sym list" where
  "btn_symbols = [LV_SYMBOL_PREV, LV_SYMBOL_PLAY, LV_SYMBOL_NEXT, LV_SYMBOL_VOLUME_MID, LV_SYMBOL_VOLUME_MAX,
     LV_SYMBOL_MUTE]"

definition music_btn :: "nat \<Rightarrow> nat \<Rightarrow> unit gui" where
  "music_btn area_btn i = do {
     obj \<leftarrow> lv_btn_create area_btn;
     on lv_obj_set_style_radius obj [I 25, K LV_PART_MAIN];
     on lv_obj_set_size obj [I 50, I 50];
     on lv_obj_add_event_cb obj [Cb ''btn_cb'', K LV_EVENT_CLICKED, I (int i)];
     obj \<leftarrow> lv_label_create obj;
     on lv_label_set_text obj [K (btn_symbols ! i)];
     on lv_obj_center obj [] }"

text \<open>\<open>bt_state\<close> and \<open>bt_name\<close> are the answer to \<open>BT_INFO\<close>; \<open>last_btn\<close> is at most 5.\<close>

definition app_music_widgets :: "int \<Rightarrow> string \<Rightarrow> nat \<Rightarrow> nat \<Rightarrow> unit gui" where
  "app_music_widgets bt_state bt_name last_btn parent = do {
     area_player \<leftarrow> lv_obj_create parent;
     on lv_obj_remove_style_all area_player [];
     on lv_obj_clear_flag area_player [K LV_OBJ_FLAG_SCROLLABLE];
     on lv_obj_set_size area_player [Pct 100, Pct 100];
     on lv_obj_set_style_pad_all area_player [I 20, K LV_PART_MAIN];
     on lv_obj_center area_player [];
     area_status \<leftarrow> lv_obj_create area_player;
     on lv_obj_remove_style_all area_status [];
     on lv_obj_set_width area_status [Pct 100];
     obj \<leftarrow> lv_label_create area_status;
     on lv_label_set_text_fmt obj [U [232, 147, 157, 231, 137, 153, 233, 159, 179, 228, 185, 144, 32, 37, 46, 42, 115], T bt_name];
     on lv_obj_add_style obj [Sty style_txt_s, K LV_PART_MAIN];
     on lv_obj_set_style_text_color obj [Hex 0xFFFFFF, K LV_PART_MAIN];
     on lv_obj_align obj [K LV_ALIGN_TOP_LEFT, I 0, I 0];
     label_bt_state \<leftarrow> lv_label_create area_status;
     (if bt_state = BT_STATE_OFF then on lv_label_set_text label_bt_state [U [232, 147, 157, 231, 137, 153, 239, 188, 154, 230, 156, 170, 229, 188, 128, 229, 144, 175]]
      else if bt_state = BT_STATE_ON then on lv_label_set_text label_bt_state [U [232, 147, 157, 231, 137, 153, 239, 188, 154, 231, 173, 137, 229, 190, 133, 232, 191, 158, 230, 142, 165]]
      else on lv_label_set_text label_bt_state [U [232, 147, 157, 231, 137, 153, 239, 188, 154, 229, 183, 178, 232, 191, 158, 230, 142, 165]]);
     on lv_obj_add_style label_bt_state [Sty style_txt_s, K LV_PART_MAIN];
     on lv_obj_set_style_text_color label_bt_state [Hex 0xFFFFFF, K LV_PART_MAIN];
     on lv_obj_align label_bt_state [K LV_ALIGN_TOP_RIGHT, I 0, I 0];
     area_label \<leftarrow> lv_obj_create area_player;
     on lv_obj_remove_style_all area_label [];
     on lv_obj_set_size area_label [Pct 40, K LV_SIZE_CONTENT];
     on lv_obj_set_flex_flow area_label [K LV_FLEX_FLOW_COLUMN];
     on lv_obj_set_style_pad_row area_label [I 10, I 0];
     on lv_obj_align area_label [K LV_ALIGN_LEFT_MID, I 0, I 0];
     label_singer \<leftarrow> lv_label_create area_label;
     on lv_obj_set_width label_singer [Pct 100];
     on lv_label_set_text label_singer [U [230, 173, 140, 230, 155, 178, 229, 144, 141]];
     on lv_label_set_long_mode label_singer [K LV_LABEL_LONG_SCROLL_CIRCULAR];
     on lv_obj_add_style label_singer [Sty style_txt_m, K LV_PART_MAIN];
     on lv_obj_set_style_text_color label_singer [Hex 0xFFFFFF, K LV_PART_MAIN];
     label_song \<leftarrow> lv_label_create area_label;
     on lv_obj_set_width label_song [Pct 100];
     on lv_label_set_text label_song [U [230, 173, 140, 230, 137, 139, 229, 144, 141]];
     on lv_label_set_long_mode label_song [K LV_LABEL_LONG_SCROLL_CIRCULAR];
     on lv_obj_add_style label_song [Sty style_txt_m, K LV_PART_MAIN];
     on lv_obj_set_style_text_color label_song [Hex 0xFFFFFF, K LV_PART_MAIN];
     area_time \<leftarrow> lv_obj_create area_player;
     on lv_obj_remove_style_all area_time [];
     on lv_obj_set_size area_time [Pct 60, I 120];
     on lv_obj_set_flex_flow area_time [K LV_FLEX_FLOW_COLUMN];
     on lv_obj_set_flex_align area_time [K LV_FLEX_ALIGN_END, K LV_FLEX_ALIGN_CENTER, K LV_FLEX_ALIGN_END];
     on lv_obj_set_style_pad_row area_time [I 10, I 0];
     on lv_obj_align area_time [K LV_ALIGN_RIGHT_MID, I 0, I 0];
     label_time \<leftarrow> lv_label_create area_time;
     on lv_label_set_text label_time [T ''00:00 / 00:00''];
     on lv_obj_set_style_text_color label_time [Hex 0xFFFFFF, K LV_PART_MAIN];
     area_btn \<leftarrow> lv_obj_create area_time;
     on lv_obj_remove_style_all area_btn [];
     on lv_obj_set_size area_btn [I ((int last_btn + 1) * 50 + int last_btn * 10), I 60];
     on lv_obj_set_style_pad_column area_btn [I 10, K LV_PART_MAIN];
     on lv_obj_set_flex_align area_btn [K LV_FLEX_ALIGN_CENTER, K LV_FLEX_ALIGN_CENTER, K LV_FLEX_ALIGN_CENTER];
     each (music_btn area_btn) [0..<Suc last_btn];
     State_Monad.return () }"

text \<open>\<open>sc_width\<close> is the content width of the scene tile's item.\<close>

record smart_env =
  sm_bt_state :: int
  sm_bt_name :: string
  sm_last_btn :: nat
  sm_width :: int

datatype tile = Date_tile | Weather_tile | Switch_tile "string option" | Scene_tile | Music_tile
  | Aircond_tile "string option"

text \<open>The texts are UTF-8; a string here is its bytes.\<close>

definition utf8 :: "int list \<Rightarrow> string" where
  "utf8 = map (\<lambda>b. char_of (nat b))"

definition smart_tiles :: "bool \<Rightarrow> tile list" where
  "smart_tiles bt_en = [Date_tile, Weather_tile, Switch_tile (Some (utf8 [229, 174, 162, 229, 142, 133, 231, 129, 175])),
     Switch_tile (Some (utf8 [229, 141, 167, 229, 174, 164, 231, 129, 175])), Switch_tile None, Switch_tile None, Scene_tile] @
     (if bt_en then [Music_tile] else []) @
     [Aircond_tile (Some (utf8 [229, 174, 162, 229, 142, 133, 231, 169, 186, 232, 176, 131])), Aircond_tile (Some (utf8 [229, 141, 167, 229, 174, 164, 231, 169, 186, 232, 176, 131]))]"

text \<open>The counters are those of \<open>app_switch.c\<close> and \<open>app_aircond.c\<close>.\<close>

fun tile_init :: "smart_env \<Rightarrow> tile \<Rightarrow> int \<times> int \<Rightarrow> nat \<Rightarrow> (int \<times> int) gui" where
  "tile_init v Date_tile s obj = do { app_date_init obj; State_Monad.return s }"
| "tile_init v Weather_tile s obj = do { app_weather_init obj; State_Monad.return s }"
| "tile_init v (Switch_tile t) s obj = do { i \<leftarrow> app_switch_init (fst s) obj t; State_Monad.return (i, snd s) }"
| "tile_init v Scene_tile s obj = do { app_scene_init (sm_width v) obj; State_Monad.return s }"
| "tile_init v Music_tile s obj = do {
     app_music_widgets (sm_bt_state v) (sm_bt_name v) (sm_last_btn v) obj; State_Monad.return s }"
| "tile_init v (Aircond_tile t) s obj = do { i \<leftarrow> app_aircond_init (snd s) obj t; State_Monad.return (fst s, i) }"

definition init_app_bg :: "nat \<Rightarrow> unit gui" where
  "init_app_bg obj = do {
     on lv_obj_set_style_pad_all obj [I 5, K LV_PART_MAIN];
     app_bg \<leftarrow> lv_img_create obj;
     on lv_obj_set_size app_bg [Pct 100, Pct 100];
     on lv_obj_set_style_radius app_bg [I 20, K LV_PART_MAIN];
     on lv_obj_set_style_clip_corner app_bg [I 1, K LV_PART_MAIN];
     on lv_img_set_src app_bg [Snapshot];
     on lv_obj_add_event_cb app_bg [Cb ''app_bg_update'', K LV_EVENT_DRAW_MAIN_BEGIN, Nul] }"

definition smart_item :: "smart_env \<Rightarrow> bool \<Rightarrow> nat \<Rightarrow> int \<times> int \<Rightarrow> nat \<Rightarrow> (int \<times> int) gui" where
  "smart_item v bt_en idx s tl_item = do {
     init_app_bg tl_item;
     tile_init v (smart_tiles bt_en ! idx) s tl_item }"

definition smart_home_widgets ::
    "screen \<Rightarrow> smart_env \<Rightarrow> bool \<Rightarrow> tile_layout \<Rightarrow> tile_item list list \<Rightarrow> int \<times> int \<Rightarrow> nat gui" where
  "smart_home_widgets d v bt_en t ps s = do {
     main \<leftarrow> lv_obj_create lv_scr_act;
     on lv_obj_remove_style_all main [];
     on lv_obj_set_style_pad_all main [I 0, K LV_PART_MAIN];
     on lv_obj_set_size main [Pct 100, Pct 100];
     on lv_obj_refr_size main [];
     btn_return \<leftarrow> ui_return_btn_create d main ''btn_return_cb'' (Some (Utf8 [230, 153, 186, 232, 131, 189, 229, 174, 182, 229, 177, 133]));
     tv \<leftarrow> lv_tileview_create main;
     on lv_obj_remove_style_all tv [];
     on lv_obj_set_size tv [Pct 100, Pct 90];
     on lv_obj_set_pos tv [I 0, Pct 10];
     on lv_obj_add_event_cb tv [Cb ''scroll_cb'', K LV_EVENT_SCROLL, Nul];
     on lv_obj_refr_size tv [];
     s' \<leftarrow> pages_widgets (smart_item v bt_en) tv t 0 0 ps s;
     State_Monad.return main }"

subsection \<open>Intercom\<close>

definition intercom_texts :: "(label_text \<times> string option) list" where
  "intercom_texts = [(Utf8 [232, 167, 134, 233, 162, 145, 231, 155, 145, 230, 142, 167], Some ''monitor_ui_init''), (Utf8 [229, 175, 185, 232, 174, 178, 229, 145, 188, 229, 143, 171], Some ''intercom_call_ui_init''),
     (Utf8 [229, 174, 137, 233, 152, 178, 230, 138, 165, 232, 173, 166], None), (Utf8 [228, 191, 161, 230, 129, 175], None), (Utf8 [229, 174, 182, 231, 148, 181, 230, 142, 167, 229, 136, 182], None), (Utf8 [231, 149, 153, 229, 189, 177, 231, 149, 153, 232, 168, 128], None),
     (Utf8 [231, 148, 181, 230, 162, 175, 229, 143, 172, 229, 148, 164], None), (Utf8 [229, 145, 188, 229, 143, 171, 231, 174, 161, 231, 144, 134, 229, 145, 152], None), (Utf8 [229, 155, 190, 231, 137, 135, 231, 174, 161, 231, 144, 134], None), (Utf8 [229, 174, 182, 228, 186, 186, 231, 149, 153, 232, 168, 128], None)]"

definition app_init :: "nat \<Rightarrow> label_text \<times> string option \<Rightarrow> unit gui" where
  "app_init parent private = do {
     on lv_obj_set_style_pad_all parent [I 5, K LV_PART_MAIN];
     obj \<leftarrow> lv_obj_create parent;
     on lv_obj_remove_style_all obj [];
     on lv_obj_set_style_bg_color obj [Hex 0x434650, K LV_PART_MAIN];
     on lv_obj_set_style_bg_color obj [Hex 0xB2B2B2, Fl [LV_PART_MAIN, LV_STATE_PRESSED]];
     on lv_obj_set_style_bg_opa obj [K LV_OPA_COVER, K LV_PART_MAIN];
     on lv_obj_set_style_shadow_width obj [I 1, K LV_PART_MAIN];
     on lv_obj_set_style_shadow_spread obj [I 2, K LV_PART_MAIN];
     on lv_obj_set_style_shadow_color obj [Hex 0, K LV_PART_MAIN];
     on lv_obj_set_style_shadow_opa obj [K LV_OPA_20, K LV_PART_MAIN];
     on lv_obj_set_style_radius obj [I 16, K LV_PART_MAIN];
     on lv_obj_clear_flag obj [K LV_OBJ_FLAG_SCROLLABLE];
     on lv_obj_add_flag obj [K LV_OBJ_FLAG_CLICKABLE];
     on lv_obj_add_event_cb obj [Cb ''page_switch'', K LV_EVENT_CLICKED,
       (case snd private of None \<Rightarrow> Nul | Some cb \<Rightarrow> Cb cb)];
     label \<leftarrow> lv_label_create obj;
     on lv_label_set_text label [text_arg (fst private)];
     on lv_obj_add_flag label [Fl [LV_OBJ_FLAG_CLICKABLE, LV_OBJ_FLAG_EVENT_BUBBLE]];
     on lv_obj_add_style label [Sty style_txt_m, K LV_PART_MAIN];
     on lv_obj_set_style_text_color label [Hex 0xFFFFFF, K LV_PART_MAIN];
     on lv_obj_center label [];
     State_Monad.return () }"

definition intercom_item :: "nat \<Rightarrow> unit \<Rightarrow> nat \<Rightarrow> unit gui" where
  "intercom_item idx s tl_item = app_init tl_item (intercom_texts ! idx)"

definition intercom_widgets :: "screen \<Rightarrow> tile_layout \<Rightarrow> tile_item list list \<Rightarrow> nat gui" where
  "intercom_widgets d t ps = do {
     main \<leftarrow> lv_obj_create lv_scr_act;
     on lv_obj_remove_style_all main [];
     on lv_obj_set_style_pad_all main [I 0, K LV_PART_MAIN];
     on lv_obj_set_size main [Pct 100, Pct 100];
     on lv_obj_refr_size main [];
     btn_return \<leftarrow> ui_return_btn_create d main ''btn_return_cb'' (Some (Utf8 [230, 165, 188, 229, 174, 135, 229, 175, 185, 232, 174, 178]));
     tv \<leftarrow> lv_tileview_create main;
     on lv_obj_remove_style_all tv [];
     on lv_obj_set_size tv [Pct 100, Pct 90];
     on lv_obj_set_pos tv [I 0, Pct 10];
     on lv_obj_refr_size tv [];
     s' \<leftarrow> pages_widgets intercom_item tv t 0 0 ps ();
     State_Monad.return main }"

subsection \<open>Intercom call\<close>

definition keyboard_map :: "arg list" where
  "keyboard_map = [T ''1'', T ''2'', T ''3'', U [10], T ''4'', T ''5'', T ''6'', U [10],
     T ''7'', T ''8'', T ''9'', U [10], T ''.'', T ''0'', K LV_SYMBOL_BACKSPACE, U [10],
     K LV_SYMBOL_LEFT, K LV_SYMBOL_RIGHT, T '''']"

definition keyboard_ctrl :: "arg list" where
  "keyboard_ctrl = replicate 14 (K LV_BTNMATRIX_WIDTH)"

record call_ui =
  call_main :: nat
  ui_remote_ip :: nat
  ui_call_label :: nat

text \<open>\<open>ip\<close> is the answer of \<open>get_local_ip\<close>.\<close>

definition intercom_call_widgets :: "screen \<Rightarrow> string option \<Rightarrow> call_ui gui" where
  "intercom_call_widgets d ip = do {
     main \<leftarrow> lv_obj_create lv_scr_act;
     on lv_obj_remove_style_all main [];
     on lv_obj_set_style_pad_all main [I 0, K LV_PART_MAIN];
     on lv_obj_set_size main [Pct 100, Pct 100];
     on lv_obj_refr_size main [];
     btn_return \<leftarrow> ui_return_btn_create d main ''btn_return_cb'' (Some (Utf8 [229, 175, 185, 232, 174, 178, 229, 145, 188, 229, 143, 171]));
     ui_cont \<leftarrow> lv_obj_create main;
     on lv_obj_remove_style_all ui_cont [];
     on lv_obj_set_style_pad_all ui_cont [I 0, K LV_PART_MAIN];
     on lv_obj_set_size ui_cont [Pct 80, Pct 80];
     on lv_obj_set_flex_flow ui_cont [K LV_FLEX_FLOW_COLUMN];
     on lv_obj_set_flex_align ui_cont [K LV_FLEX_ALIGN_CENTER, K LV_FLEX_ALIGN_CENTER, K LV_FLEX_ALIGN_CENTER];
     on lv_obj_set_style_pad_row ui_cont [I 10, K LV_PART_MAIN];
     on lv_obj_center ui_cont [];
     ui_local_ip \<leftarrow> lv_label_create ui_cont;
     on lv_obj_set_width ui_local_ip [Pct 100];
     on lv_obj_add_style ui_local_ip [Sty style_txt_m, K LV_PART_MAIN];
     (case ip of Some s \<Rightarrow> on lv_label_set_text ui_local_ip [T s]
      | None \<Rightarrow> on lv_label_set_text ui_local_ip [U [230, 156, 170, 232, 129, 148, 231, 189, 145]]);
     ui_remote_ip \<leftarrow> lv_textarea_create ui_cont;
     on lv_obj_set_width ui_remote_ip [Pct 100];
     on lv_textarea_set_password_mode ui_remote_ip [I 0];
     on lv_textarea_set_one_line ui_remote_ip [I 1];
     on lv_obj_add_style ui_remote_ip [Sty style_txt_m, K LV_PART_MAIN];
     ui_keyboard \<leftarrow> lv_keyboard_create ui_cont;
     on lv_keyboard_set_map ui_keyboard (K LV_KEYBOARD_MODE_USER_1 # keyboard_map @ keyboard_ctrl);
     on lv_keyboard_set_mode ui_keyboard [K LV_KEYBOARD_MODE_USER_1];
     on lv_keyboard_set_textarea ui_keyboard [H ui_remote_ip];
     on lv_obj_set_style_radius ui_keyboard [I 5, K LV_PART_MAIN];
     ui_call \<leftarrow> lv_btn_create ui_cont;
     on lv_obj_set_size ui_call [Pct 50, Pct 12];
     on lv_obj_set_style_bg_color ui_call [Hex 0xFFFFFF, K LV_PART_MAIN];
     on lv_obj_add_event_cb ui_call [Cb ''ui_call_cb'', K LV_EVENT_CLICKED, Nul];
     label \<leftarrow> lv_label_create ui_call;
     on lv_label_set_text label [U [229, 145, 188, 229, 143, 171]];
     on lv_obj_add_style label [Sty style_txt_m, K LV_PART_MAIN];
     on lv_obj_center label [];
     State_Monad.return \<lparr>call_main = main, ui_remote_ip = ui_remote_ip, ui_call_label = label\<rparr> }"

text \<open>\<open>state_update\<close> when the state has changed; \<open>ui_call->spec_attr->children[0]\<close> is the label.\<close>

definition call_update :: "bool \<Rightarrow> call_ui \<Rightarrow> unit gui" where
  "call_update running c = (if running then do {
       on lv_label_set_text (ui_call_label c) [U [230, 140, 130, 230, 150, 173]];
       on lv_obj_set_style_text_color (ui_call_label c) [Hex 0xFF0000, K LV_PART_MAIN] }
     else do {
       on lv_label_set_text (ui_call_label c) [U [229, 145, 188, 229, 143, 171]];
       on lv_obj_set_style_text_color (ui_call_label c) [Hex 0, K LV_PART_MAIN] })"

subsection \<open>Properties\<close>

lemma keyboard_ctrl_length:
  "length keyboard_ctrl = length (filter (\<lambda>k. k \<noteq> U [10]) (butlast keyboard_map))"
  by (simp add: keyboard_ctrl_def keyboard_map_def numeral_eq_Suc)

lemma app_music_makes:
  assumes "in_block hs obj (\<lambda>_. True)"
  shows "makes ((r, hs) # F) (app_music_widgets st nm k obj) (\<lambda>_. True) (\<lambda>_. (r, hs) # F)"
  unfolding app_music_widgets_def music_btn_def using assms
  by (intro steps ends makes_branch; auto simp: makes_simps)

lemma tile_init_makes:
  assumes "in_block hs obj (\<lambda>_. True)"
  shows "makes ((r, hs) # F) (tile_init v a s obj) (\<lambda>_. True) (\<lambda>_. (r, hs) # F)"
proof (cases a)
  case Music_tile
  then show ?thesis by (simp, intro makes_bind [OF app_music_makes [OF assms]] ends) simp_all
qed (use assms in \<open>auto intro!: makes_builds builds_return date_builds weather_builds switch_builds
  scene_builds aircond_builds\<close>)

lemma smart_item_makes:
  assumes "in_block hs obj (\<lambda>_. True)"
  shows "makes ((r, hs) # F) (smart_item v bt_en idx s obj) (\<lambda>_. True) (\<lambda>_. (r, hs) # F)"
  unfolding smart_item_def init_app_bg_def using assms
  by (intro steps makes_weaken [OF tile_init_makes]; auto simp: makes_simps)

lemma intercom_item_makes:
  assumes "in_block hs obj (\<lambda>_. True)"
  shows "makes ((r, hs) # F) (intercom_item idx s obj) (\<lambda>_. True) (\<lambda>_. (r, hs) # F)"
  unfolding intercom_item_def app_init_def using assms
  by (intro steps ends; auto simp: makes_simps split: option.split)

lemma items_makes:
  assumes "\<And>i s obj hs. in_block hs obj (\<lambda>_. True) \<Longrightarrow>
      makes ((r, hs) # F) (init i s obj) (\<lambda>_. True) (\<lambda>_. (r, hs) # F)"
  shows "in_block hs layout (\<lambda>_. True) \<Longrightarrow>
    makes ((r, hs) # F) (items_widgets init layout idx its s) (\<lambda>_. True) (\<lambda>_. (r, hs) # F)"
proof (induction its arbitrary: hs idx s)
  case (Cons it its)
  show ?case
  proof (cases it)
    case (Tile_item x w y h)
    then show ?thesis
      unfolding Tile_item items_widgets.simps tile_item_widget_def using Cons.prems
      by (intro steps makes_bind [OF assms] makes_weaken [OF Cons.IH]; auto simp: makes_simps)
  qed (use Cons in auto)
qed (auto intro: makes_done)

lemma pages_makes:
  assumes "\<And>i s obj hs. in_block hs obj (\<lambda>_. True) \<Longrightarrow>
      makes ((r, hs) # F) (init i s obj) (\<lambda>_. True) (\<lambda>_. (r, hs) # F)"
  shows "in_block hs tv (\<lambda>c. c = Tileview) \<Longrightarrow>
    makes ((r, hs) # F) (pages_widgets init tv t cnt idx ps s) (\<lambda>_. True) (\<lambda>_. (r, hs) # F)"
proof (induction ps arbitrary: hs cnt idx s)
  case (Cons its ps)
  have "in_block hs tv (\<lambda>_. True)" using Cons.prems by (auto simp: in_block_mem)
  with Cons.prems show ?case
    unfolding pages_widgets.simps tile_layout_widgets_def
    by (intro steps makes_bind [OF items_makes [OF assms]] makes_weaken [OF Cons.IH]; auto simp: makes_simps)
qed (auto intro: makes_done)

lemma smart_home_makes: "makes F (smart_home_widgets d v bt_en t ps s) (\<lambda>_. True) (\<lambda>m. (m, []) # F)"
  unfolding smart_home_widgets_def
  by (intro steps makes_bind [OF makes_builds [OF return_btn_builds]] makes_bind [OF pages_makes [OF smart_item_makes]] ends;
      auto simp: makes_simps)

lemma intercom_makes: "makes F (intercom_widgets d t ps) (\<lambda>_. True) (\<lambda>m. (m, []) # F)"
  unfolding intercom_widgets_def
  by (intro steps makes_bind [OF makes_builds [OF return_btn_builds]] makes_bind [OF pages_makes [OF intercom_item_makes]] ends;
      auto simp: makes_simps)

lemma call_makes:
  "makes F (intercom_call_widgets d ip) (\<lambda>_. True) (\<lambda>c. (call_main c, [(ui_call_label c, Label)]) # F)"
  unfolding intercom_call_widgets_def
  by (intro steps makes_bind [OF makes_builds [OF return_btn_builds]] ends;
      auto simp: makes_simps keyboard_map_def keyboard_ctrl_def list_all_iff)

lemma call_update_makes:
  assumes "allowed F (ui_call_label c) (\<lambda>c. c = Label)"
  shows "makes F (call_update running c) (\<lambda>_. True) (\<lambda>_. F)"
proof -
  have "allowed F (ui_call_label c) (\<lambda>_. True)" "allowed F (ui_call_label c) (Widgets.fits lv_label_set_text)"
    using assms by (auto simp: allowed_mem makes_simps)
  then show ?thesis unfolding call_update_def by (cases running; simp only: if_True if_False; intro steps ends; simp add: makes_simps)
qed

end
