(* ===== verification/UI_Setting.thy ===== *)
theory UI_Setting
  imports UI_Home
begin

text \<open>
  The widgets of the settings page (\<open>setting_ui.c\<close>). It has two roots on the screen, \<open>main\<close> and
  \<open>submenu_mask\<close>; the submenus, in \<open>UI_Menus\<close>, are opened below \<open>submenu_area\<close>, and which of them
  is shown is in \<open>Setting_UI\<close>.
\<close>

definition menu_look :: "resource \<times> label_text \<times> string \<times> int \<Rightarrow> btn_look" where
  "menu_look r = (case r of (img, txt, cb, k) \<Rightarrow>
     \<lparr>bl_w = 1, bl_h = 1, bl_img = Some img, bl_text = Some txt, bl_draw = Common_draw,
      bl_cb = Some cb, bl_user_data = Int_data k\<rparr>)"

definition sliders_look :: btn_look where
  "sliders_look = \<lparr>bl_w = 2, bl_h = 1, bl_img = None, bl_text = None, bl_draw = Sliders_draw,
     bl_cb = None, bl_user_data = No_data\<rparr>"

text \<open>\<open>wifibt\<close> is \<open>WIFIBT_EN\<close>, which \<open>BT_EN\<close> follows. The numbers are those of the submenus.\<close>

definition setting_looks :: "bool \<Rightarrow> btn_look list" where
  "setting_looks wifibt = sliders_look #
     (if wifibt then [menu_look (ICON_WIFI, Ascii ''WiFi'', ''wifi_switch_cb'', 3),
        menu_look (ICON_BT, Utf8 [232, 147, 157, 231, 137, 153], ''switch_toggled'', 4)] else []) @
     map menu_look [(ICON_WALLPAPER, Utf8 [233, 148, 129, 229, 177, 143, 229, 146, 140, 229, 163, 129, 231, 186, 184], ''menu_switch_cb'', 0),
        (ICON_DATA, Utf8 [232, 175, 173, 232, 168, 128, 229, 146, 140, 230, 151, 165, 230, 156, 159], ''menu_switch_cb'', 1), (ICON_ABOUT, Utf8 [229, 133, 179, 228, 186, 142], ''menu_switch_cb'', 2)]"

text \<open>\<open>large\<close> is the build option \<open>LARGE\<close>.\<close>

definition setting_matrix :: "bool \<Rightarrow> bool \<Rightarrow> matrix_look" where
  "setting_matrix large wifibt = \<lparr>ml_cols = (if large then [300, 300] else [200, 200]),
     ml_rows = [140, 140, 140, 140], ml_pad = 5, ml_gap = 20, ml_btns = setting_looks wifibt\<rparr>"

record setting_widget =
  sw_main :: nat
  sw_mask :: nat
  sw_area :: nat
  sw_box :: "(nat \<times> (nat \<times> nat) list) option"

text \<open>Rows 1 and 2 are \<open>ui_wifi\<close> and \<open>ui_bt\<close> where there is WiFi; \<open>bt_on\<close> is \<open>bt_state >= BT_STATE_ON\<close>.\<close>

definition show_states :: "bool \<Rightarrow> bool \<Rightarrow> bool \<Rightarrow> (nat \<times> (nat \<times> nat) list) option \<Rightarrow> unit gui" where
  "show_states wifibt wifi_enabled bt_on box = only_if wifibt (do {
     (if wifi_enabled then on_btn box 1 (\<lambda>b. on lv_obj_set_style_bg_color b [Hex 0x239CFF, K LV_PART_MAIN])
      else on_btn box 1 (\<lambda>b. on lv_obj_set_style_bg_color b [Hex 0x434650, K LV_PART_MAIN]));
     (if bt_on then on_btn box 2 (\<lambda>b. on lv_obj_set_style_bg_color b [Hex 0x239CFF, K LV_PART_MAIN])
      else on_btn box 2 (\<lambda>b. on lv_obj_set_style_bg_color b [Hex 0x434650, K LV_PART_MAIN])) })"

definition setting_widgets :: "screen \<Rightarrow> bool \<Rightarrow> bool \<Rightarrow> bool \<Rightarrow> bool \<Rightarrow> setting_widget gui" where
  "setting_widgets d large wifibt wifi_enabled bt_on = do {
     main \<leftarrow> lv_obj_create lv_scr_act;
     on lv_obj_remove_style_all main [];
     on lv_obj_set_style_pad_all main [I 0, K LV_PART_MAIN];
     on lv_obj_set_size main [Pct 100, Pct 100];
     on lv_obj_refr_size main [];
     btn_return \<leftarrow> ui_return_btn_create d main ''btn_return_cb'' (Some (Utf8 [231, 179, 187, 231, 187, 159, 232, 174, 190, 231, 189, 174]));
     ui_box_main \<leftarrow> btnmatrix_widgets (grid_last d) (setting_matrix large wifibt) main;
     on_matrix ui_box_main (\<lambda>m. on lv_obj_align m [K LV_ALIGN_TOP_MID, I 0, Pct 10]);
     show_states wifibt wifi_enabled bt_on ui_box_main;
     submenu_mask \<leftarrow> lv_obj_create lv_scr_act;
     on lv_obj_add_flag submenu_mask [Fl [LV_OBJ_FLAG_HIDDEN, LV_OBJ_FLAG_CLICKABLE]];
     on lv_obj_remove_style_all submenu_mask [];
     on lv_obj_set_size submenu_mask [Pct 100, Pct 100];
     on lv_obj_set_style_bg_color submenu_mask [Hex 0xFFFFFF, K LV_PART_MAIN];
     on lv_obj_set_style_bg_opa submenu_mask [K LV_OPA_80, K LV_PART_MAIN];
     on lv_obj_add_event_cb submenu_mask [Cb ''submenu_mask_cb'', K LV_EVENT_CLICKED, H submenu_mask];
     submenu_area \<leftarrow> lv_obj_create submenu_mask;
     on lv_obj_set_size submenu_area [Pct 70, Pct 70];
     on lv_obj_set_style_bg_color submenu_area [Hex 0xFFFFFF, K LV_PART_MAIN];
     on lv_obj_center submenu_area [];
     on lv_obj_refr_size submenu_area [];
     on lv_obj_refr_pos submenu_area [];
     cancel_btn \<leftarrow> lv_img_create submenu_mask;
     on lv_obj_add_flag cancel_btn [Fl [LV_OBJ_FLAG_CLICKABLE, LV_OBJ_FLAG_EVENT_BUBBLE]];
     on lv_img_set_src cancel_btn [R IMG_CANCEL];
     on lv_obj_align_to cancel_btn [H submenu_area, K LV_ALIGN_OUT_BOTTOM_MID, I 0, I 20];
     State_Monad.return \<lparr>sw_main = main, sw_mask = submenu_mask, sw_area = submenu_area, sw_box = ui_box_main\<rparr> }"

text \<open>
  The callbacks: the timer; a press on the Bluetooth button, where \<open>blue\<close> says its colour; the
  mask shown by a menu button, and hidden by a press on it; a slider moved.
\<close>

datatype setting_event = Ev_timer bool bool | Ev_bt bool | Ev_show_mask | Ev_hide_mask

fun setting_event_cb :: "bool \<Rightarrow> setting_widget \<Rightarrow> setting_event \<Rightarrow> unit gui" where
  "setting_event_cb wifibt s (Ev_timer wifi_enabled bt_on) = show_states wifibt wifi_enabled bt_on (sw_box s)"
| "setting_event_cb wifibt s (Ev_bt blue) = only_if wifibt (on_btn (sw_box s) 2 (\<lambda>b.
     if blue then on lv_obj_set_style_bg_color b [Hex 0x434650, K LV_PART_MAIN]
     else on lv_obj_set_style_bg_color b [Hex 0x239CFF, K LV_PART_MAIN]))"
| "setting_event_cb wifibt s Ev_show_mask = on lv_obj_clear_flag (sw_mask s) [K LV_OBJ_FLAG_HIDDEN]"
| "setting_event_cb wifibt s Ev_hide_mask = on lv_obj_add_flag (sw_mask s) [K LV_OBJ_FLAG_HIDDEN]"

definition setting_slider_event_cb :: "int \<Rightarrow> nat \<Rightarrow> unit gui" where
  "setting_slider_event_cb v label = on lv_label_set_text label [T (percent_buf v)]"

subsection \<open>Properties\<close>

lemma setting_places:
  "map_option (\<lambda>(bs, _). map pb_index bs) (create_btns 0 (map look_desc (setting_looks w)) (empty_bmap 2 4))
     = Some [0..<length (setting_looks w)]"
  by (cases w; simp only: if_True; code_simp)

lemma setting_matrix_ok:
  assumes "grid_last d \<notin> {140, 200, 300}"
  shows "matrix_ok (grid_last d) (setting_matrix large wifibt)"
proof -
  have c: "count_dsc (grid_last d) (ml_cols (setting_matrix large wifibt) @ [grid_last d]) 0 = Count 2"
    "count_dsc (grid_last d) (ml_rows (setting_matrix large wifibt) @ [grid_last d]) 0 = Count 4"
    using assms by (simp_all add: setting_matrix_def)
  from setting_places [of wifibt] obtain bs g
    where "create_btns 0 (map look_desc (setting_looks wifibt)) (empty_bmap 2 4) = Some (bs, g)"
      "map pb_index bs = [0..<length (setting_looks wifibt)]" by auto
  with c show ?thesis
    by (auto simp: matrix_ok_def ui_btnmatrix_create_def matrix_desc_def setting_matrix_def)
qed

lemma setting_matrix_btns: "length (ml_btns (setting_matrix large wifibt)) = (if wifibt then 6 else 4)"
  by (simp add: setting_matrix_def setting_looks_def)

lemma setting_slider_makes:
  "allowed F label (\<lambda>c. c = Label) \<Longrightarrow> makes F (setting_slider_event_cb v label) (\<lambda>_. True) (\<lambda>_. F)"
  unfolding setting_slider_event_cb_def by (intro ends; auto simp: makes_simps allowed_mem)

lemma show_states_makes:
  assumes "wifibt \<Longrightarrow> 2 < n" "allowed F (k 1) (\<lambda>_. True)" "allowed F (k 2) (\<lambda>_. True)"
  shows "makes F (show_states wifibt w b (Some (box, map (\<lambda>i. (i, k i)) [0..<n]))) (\<lambda>_. True) (\<lambda>_. F)"
  unfolding show_states_def using assms
  by (intro steps ends matrix_steps makes_only_if makes_branch; simp add: makes_simps)

definition setting_ctx :: "setting_widget \<Rightarrow> ctx" where
  "setting_ctx s = [(sw_mask s, [(sw_mask s, Obj), (sw_area s, Obj)]),
     (sw_main s, map (\<lambda>b. (b, Obj)) (map snd (snd (the (sw_box s)))))]"

definition setting_rows :: "bool \<Rightarrow> setting_widget \<Rightarrow> bool" where
  "setting_rows wifibt s = (\<exists>b k. sw_box s = Some (b, map (\<lambda>i. (i, k i)) [0..<if wifibt then 6 else 4]))"

lemma setting_makes:
  assumes "grid_last d \<notin> {140, 200, 300}"
  shows "makes F (setting_widgets d large wifibt w b) (setting_rows wifibt) (\<lambda>s. setting_ctx s @ F)"
  unfolding setting_widgets_def
  by (intro steps matrix_steps ends makes_matrix [OF setting_matrix_ok [OF assms] _ setting_matrix_btns]
      makes_bind [OF show_states_makes];
      ((simp add: makes_simps; fail) | (auto simp: makes_simps setting_rows_def setting_ctx_def)))

lemma setting_event_makes:
  assumes "setting_rows wifibt s"
  shows "makes (setting_ctx s @ F) (setting_event_cb wifibt s ev) (\<lambda>_. True) (\<lambda>_. setting_ctx s @ F)"
proof -
  from assms obtain b k where box: "sw_box s = Some (b, map (\<lambda>i. (i, k i)) [0..<if wifibt then 6 else 4])"
    by (auto simp: setting_rows_def)
  have "allowed (setting_ctx s @ F) (k i) (\<lambda>_. True)" if "i < 4" for i
    using that by (auto simp: setting_ctx_def box comp_def)
  moreover have "allowed (setting_ctx s @ F) (sw_mask s) (\<lambda>_. True)" by (simp add: setting_ctx_def)
  ultimately show ?thesis
    by (cases ev; simp only: setting_event_cb.simps box;
        (intro show_states_makes makes_only_if makes_on_btn makes_branch makes_on; simp add: makes_simps))
qed

end
