(* ===== verification/UI_Monitor.thy ===== *)
theory UI_Monitor
  imports UI_Home
begin

text \<open>
  The widgets of the monitor page (\<open>ui_monitor.c\<close>): the page itself, and the keyboard with the
  floating text area, which stand on the system layer and so are roots of their own. Its player
  and thread are in \<open>Monitor_UI\<close>.
\<close>

record monitor_ui =
  mw_main :: nat
  mw_icon_box :: nat
  mw_player_box :: nat
  mw_addr :: nat
  mw_pause_label :: nat
  mw_setting_box :: nat
  mw_ratios :: "nat list"

text \<open>\<open>aw\<close> and \<open>ah\<close> are the size of the text area, \<open>y2\<close> the bottom of the control box.\<close>

definition control_btn :: "nat \<Rightarrow> int \<Rightarrow> int \<Rightarrow> string \<Rightarrow> arg \<Rightarrow> nat gui" where
  "control_btn ui_control_box btn_size col cb txt = do {
     btn \<leftarrow> lv_btn_create ui_control_box;
     on lv_obj_set_width btn [I btn_size];
     on lv_obj_add_event_cb btn [Cb cb, K LV_EVENT_CLICKED, Nul];
     on lv_obj_set_grid_cell btn [K LV_GRID_ALIGN_STRETCH, I col, I 1, K LV_GRID_ALIGN_STRETCH, I 0, I 1];
     label \<leftarrow> lv_label_create btn;
     on lv_label_set_text label [txt];
     on lv_obj_add_style label [Sty style_txt_m, K LV_PART_MAIN];
     on lv_obj_set_style_text_color label [Hex 0xFFFFFF, K LV_PART_MAIN];
     on lv_obj_center label [];
     State_Monad.return label }"

definition ratio_box :: "nat \<Rightarrow> arg \<Rightarrow> bool \<Rightarrow> nat gui" where
  "ratio_box ui_checkbox_ratio_box txt checked = do {
     c \<leftarrow> lv_checkbox_create ui_checkbox_ratio_box;
     on lv_checkbox_set_text c [txt];
     on lv_obj_add_flag c [K LV_OBJ_FLAG_EVENT_BUBBLE];
     on lv_obj_add_style c [Sty style_txt_m, K LV_PART_MAIN];
     on lv_obj_set_style_radius c [K LV_RADIUS_CIRCLE, K LV_PART_INDICATOR];
     on lv_obj_set_style_bg_img_src c [Nul, Fl [LV_PART_INDICATOR, LV_STATE_CHECKED]];
     only_if checked (on lv_obj_add_state c [K LV_STATE_CHECKED]);
     on lv_obj_refr_size c [];
     on lv_obj_refr_pos c [];
     State_Monad.return c }"

definition calc_video_area_calls :: "monitor_ui \<Rightarrow> unit gui" where
  "calc_video_area_calls m = do {
     on lv_obj_refr_size (mw_icon_box m) [];
     on lv_obj_refr_pos (mw_icon_box m) [];
     on lv_obj_refr_size (mw_player_box m) [];
     on lv_obj_refr_pos (mw_player_box m) [] }"

text \<open>\<open>vo_scale\<close> is the build option \<open>VO_SUPPORT_SCALE\<close>, \<open>mode\<close> the number of the scale mode.\<close>

definition ratio_widgets :: "nat \<Rightarrow> nat \<Rightarrow> nat list gui" where
  "ratio_widgets ui_setting_box mode = do {
     ui_checkbox_ratio_box \<leftarrow> lv_obj_create ui_setting_box;
     on lv_obj_set_size ui_checkbox_ratio_box [Pct 100, K LV_SIZE_CONTENT];
     on lv_obj_set_flex_flow ui_checkbox_ratio_box [K LV_FLEX_FLOW_COLUMN];
     on lv_obj_add_event_cb ui_checkbox_ratio_box [Cb ''ui_ratio_cb'', K LV_EVENT_CLICKED, Nul];
     label \<leftarrow> lv_label_create ui_checkbox_ratio_box;
     on lv_label_set_text label [U [232, 167, 134, 233, 162, 145, 230, 175, 148, 228, 190, 139]];
     on lv_obj_add_style label [Sty style_txt_s, K LV_PART_MAIN];
     on lv_obj_refr_size label [];
     on lv_obj_refr_pos label [];
     ui_checkbox_ratio_4_3 \<leftarrow> ratio_box ui_checkbox_ratio_box (T ''4:3'') (mode = 0);
     ui_checkbox_ratio_16_9 \<leftarrow> ratio_box ui_checkbox_ratio_box (T ''16:9'') (mode = 1);
     ui_checkbox_stretch \<leftarrow> ratio_box ui_checkbox_ratio_box (U [230, 139, 137, 228, 188, 184]) (mode = 2);
     on lv_obj_refr_size ui_checkbox_ratio_box [];
     on lv_obj_refr_pos ui_checkbox_ratio_box [];
     State_Monad.return [ui_checkbox_ratio_4_3, ui_checkbox_ratio_16_9, ui_checkbox_stretch] }"

definition monitor_widgets :: "screen \<Rightarrow> bool \<Rightarrow> nat \<Rightarrow> bool \<Rightarrow> int \<Rightarrow> int \<Rightarrow> int \<Rightarrow> monitor_ui gui" where
  "monitor_widgets d vo_scale mode audio_enable aw ah y2 = do {
     main \<leftarrow> lv_obj_create lv_scr_act;
     on lv_obj_remove_style_all main [];
     on lv_obj_set_style_pad_all main [I 0, K LV_PART_MAIN];
     on lv_obj_set_size main [Pct 100, Pct 100];
     on lv_obj_refr_size main [];
     icon_box \<leftarrow> lv_obj_create main;
     on lv_obj_clear_flag icon_box [K LV_OBJ_FLAG_SCROLLABLE];
     on lv_obj_set_style_pad_all icon_box [I 0, K LV_PART_MAIN];
     on lv_obj_set_width icon_box [Pct 100];
     on lv_obj_set_height icon_box [Pct 10];
     on lv_obj_align icon_box [K LV_ALIGN_TOP_LEFT, I 0, I 0];
     btn_return \<leftarrow> ui_return_btn_create d icon_box ''btn_return_cb'' (Some (Utf8 [232, 167, 134, 233, 162, 145, 231, 155, 145, 230, 142, 167]));
     player_box \<leftarrow> lv_obj_create main;
     on lv_obj_set_width player_box [Pct 100];
     on lv_obj_set_height player_box [K LV_SIZE_CONTENT];
     on lv_obj_set_flex_flow player_box [K LV_FLEX_FLOW_COLUMN];
     on lv_obj_align player_box [K LV_ALIGN_BOTTOM_MID, I 0, I 0];
     ui_rtsp_label \<leftarrow> lv_label_create player_box;
     on lv_label_set_text ui_rtsp_label [U [82, 84, 83, 80, 229, 156, 176, 229, 157, 128, 58]];
     on lv_obj_add_style ui_rtsp_label [Sty style_txt_s, K LV_PART_MAIN];
     on lv_obj_refr_size ui_rtsp_label [];
     on lv_obj_refr_pos ui_rtsp_label [];
     ui_rtsp_addr \<leftarrow> lv_textarea_create player_box;
     on lv_obj_set_width ui_rtsp_addr [Pct 100];
     on lv_textarea_set_password_mode ui_rtsp_addr [I 0];
     on lv_textarea_set_one_line ui_rtsp_addr [I 1];
     on lv_obj_add_style ui_rtsp_addr [Sty style_txt_m, K LV_PART_MAIN];
     on lv_obj_add_flag ui_rtsp_addr [K LV_OBJ_FLAG_CLICKABLE];
     on lv_obj_add_event_cb ui_rtsp_addr [Cb ''rtsp_addr_set'', K LV_EVENT_CLICKED, Nul];
     on lv_obj_refr_size ui_rtsp_addr [];
     on lv_obj_refr_pos ui_rtsp_addr [];
     let btn_size = c_div (aw - 30) 4;
     ui_control_box \<leftarrow> lv_obj_create player_box;
     on lv_obj_remove_style_all ui_control_box [];
     on lv_obj_set_size ui_control_box [Pct 100, I (ah * 2)];
     on lv_obj_set_flex_flow ui_control_box [K LV_FLEX_FLOW_ROW];
     on lv_obj_set_style_pad_gap ui_control_box [I 10, K LV_PART_MAIN];
     label_setting \<leftarrow> control_btn ui_control_box btn_size 0 ''rtsp_setting_callback'' (U [232, 174, 190, 231, 189, 174]);
     ui_pause_label \<leftarrow> control_btn ui_control_box btn_size 1 ''rtsp_play_pause_callback'' (U [230, 146, 173, 230, 148, 190]);
     label_replay \<leftarrow> control_btn ui_control_box btn_size 2 ''rtsp_play_start_callback'' (U [233, 135, 141, 231, 189, 174]);
     label_stop \<leftarrow> control_btn ui_control_box btn_size 3 ''rtsp_play_stop_callback'' (U [229, 129, 156, 230, 173, 162]);
     on lv_obj_refr_size ui_control_box [];
     on lv_obj_refr_pos ui_control_box [];
     only_if (y2 > scr_h d - 1) (do {
       on lv_obj_set_width ui_rtsp_addr [Pct 50];
       on lv_obj_set_width ui_control_box [Pct 50] });
     on lv_obj_refr_size player_box [];
     on lv_obj_refr_pos player_box [];
     on lv_obj_align player_box [K LV_ALIGN_BOTTOM_MID, I 0, I 0];
     ui_setting_box \<leftarrow> lv_obj_create main;
     on lv_obj_set_size ui_setting_box [Pct 50, K LV_SIZE_CONTENT];
     on lv_obj_add_flag ui_setting_box [K LV_OBJ_FLAG_HIDDEN];
     on lv_obj_set_flex_flow ui_setting_box [K LV_FLEX_FLOW_COLUMN];
     on lv_obj_set_style_radius ui_setting_box [I 0, K LV_PART_MAIN];
     on lv_obj_center ui_setting_box [];
     ui_checkbox_audio \<leftarrow> lv_checkbox_create ui_setting_box;
     on lv_checkbox_set_text ui_checkbox_audio [U [233, 159, 179, 233, 162, 145]];
     on lv_obj_add_style ui_checkbox_audio [Sty style_txt_m, K LV_PART_MAIN];
     only_if audio_enable (on lv_obj_add_state ui_checkbox_audio [K LV_STATE_CHECKED]);
     on lv_obj_add_event_cb ui_checkbox_audio [Cb ''ui_checkbox_cb'', K LV_EVENT_VALUE_CHANGED, T ''bAudioEnable''];
     ratios \<leftarrow> (if vo_scale then ratio_widgets ui_setting_box mode else State_Monad.return []);
     label \<leftarrow> lv_label_create ui_setting_box;
     on lv_label_set_text label [U [230, 179, 168, 239, 188, 154, 231, 130, 185, 229, 135, 187, 233, 135, 141, 231, 189, 174, 229, 144, 142, 231, 148, 159, 230, 149, 136]];
     on lv_obj_add_style label [Sty style_txt_s, K LV_PART_MAIN];
     on lv_obj_set_style_text_color label [K LV_PALETTE_GREY, I 2, K LV_PART_MAIN];
     obj \<leftarrow> lv_btn_create ui_setting_box;
     on lv_obj_add_event_cb obj [Cb ''rtsp_setting_callback'', K LV_EVENT_CLICKED, Nul];
     label \<leftarrow> lv_label_create obj;
     on lv_label_set_text label [U [229, 133, 179, 233, 151, 173]];
     on lv_obj_add_style label [Sty style_txt_m, K LV_PART_MAIN];
     on lv_obj_set_style_text_color label [Hex 0xFFFFFF, K LV_PART_MAIN];
     on lv_obj_center label [];
     let m = \<lparr>mw_main = main, mw_icon_box = icon_box, mw_player_box = player_box, mw_addr = ui_rtsp_addr,
       mw_pause_label = ui_pause_label, mw_setting_box = ui_setting_box, mw_ratios = ratios\<rparr>;
     calc_video_area_calls m;
     State_Monad.return m }"

subsection \<open>The keyboard\<close>

text \<open>
  \<open>rtsp_addr_set\<close> without a keyboard: \<open>covers\<close> says whether the keyboard covers the text area,
  whose text is \<open>txt\<close>. The floating text area is \<open>None\<close> where there is none.
\<close>

definition rtsp_addr_set_widgets :: "bool \<Rightarrow> string \<Rightarrow> int \<Rightarrow> monitor_ui \<Rightarrow> (nat \<times> nat option) gui" where
  "rtsp_addr_set_widgets covers txt pos m = do {
     kb \<leftarrow> lv_keyboard_create lv_layer_sys;
     on lv_obj_set_size kb [Pct 100, Pct 30];
     on lv_obj_set_align kb [K LV_ALIGN_BOTTOM_MID];
     on lv_obj_add_event_cb kb [Cb ''kb_cb'', K LV_EVENT_CANCEL, Nul];
     on lv_obj_add_event_cb kb [Cb ''kb_cb'', K LV_EVENT_READY, Nul];
     on lv_obj_refr_size (mw_addr m) [];
     on lv_obj_refr_pos (mw_addr m) [];
     on lv_obj_refr_size kb [];
     on lv_obj_refr_pos kb [];
     (if covers then do {
        ui_rtsp_addr_float \<leftarrow> lv_textarea_create lv_layer_sys;
     on lv_obj_set_width ui_rtsp_addr_float [Pct 100];
     on lv_obj_add_state ui_rtsp_addr_float [K LV_STATE_FOCUSED];
        on lv_obj_clear_state (mw_addr m) [K LV_STATE_FOCUSED];
        on lv_textarea_set_text ui_rtsp_addr_float [T txt];
        on lv_textarea_set_cursor_pos ui_rtsp_addr_float [I pos];
        on lv_textarea_set_password_mode ui_rtsp_addr_float [I 0];
        on lv_textarea_set_one_line ui_rtsp_addr_float [I 1];
     on lv_obj_add_style ui_rtsp_addr_float [Sty style_txt_m, K LV_PART_MAIN];
     on lv_keyboard_set_textarea kb [H ui_rtsp_addr_float];
     on lv_obj_align_to ui_rtsp_addr_float [H kb, K LV_ALIGN_OUT_TOP_MID, I 0, I 0];
        State_Monad.return (kb, Some ui_rtsp_addr_float) }
      else do {
        on lv_keyboard_set_textarea kb [H (mw_addr m)];
        State_Monad.return (kb, None) }) }"

definition kb_cb_widgets :: "string \<Rightarrow> monitor_ui \<Rightarrow> nat \<times> nat option \<Rightarrow> unit gui" where
  "kb_cb_widgets txt m k = (case snd k of
     Some float \<Rightarrow> do {
       on lv_textarea_set_text (mw_addr m) [T txt];
       del float;
       del (fst k) }
   | None \<Rightarrow> del (fst k))"

definition kb_session :: "monitor_ui \<Rightarrow> bool \<times> string \<times> int \<times> string \<Rightarrow> unit gui" where
  "kb_session m x = (case x of (covers, txt, pos, typed_txt) \<Rightarrow> do {
     k \<leftarrow> rtsp_addr_set_widgets covers txt pos m;
     kb_cb_widgets typed_txt m k })"

text \<open>
  The other callbacks: the settings shown or hidden, another scale mode, and the timer's label.
\<close>

datatype monitor_event = Ev_setting bool | Ev_ratio nat nat | Ev_label bool | Ev_kb "bool \<times> string \<times> int \<times> string"

fun monitor_event_cb :: "monitor_ui \<Rightarrow> monitor_event \<Rightarrow> unit gui" where
  "monitor_event_cb m (Ev_setting hidden) =
     (if hidden then on lv_obj_clear_flag (mw_setting_box m) [K LV_OBJ_FLAG_HIDDEN]
      else on lv_obj_add_flag (mw_setting_box m) [K LV_OBJ_FLAG_HIDDEN])"
| "monitor_event_cb m (Ev_ratio old new) =
     only_if (old < length (mw_ratios m) \<and> new < length (mw_ratios m)) (do {
       on lv_obj_clear_state (mw_ratios m ! old) [K LV_STATE_CHECKED];
       on lv_obj_add_state (mw_ratios m ! new) [K LV_STATE_CHECKED];
       calc_video_area_calls m })"
| "monitor_event_cb m (Ev_label playing) =
     (if playing then on lv_label_set_text (mw_pause_label m) [U [230, 154, 130, 229, 129, 156]]
      else on lv_label_set_text (mw_pause_label m) [U [230, 146, 173, 230, 148, 190]])"
| "monitor_event_cb m (Ev_kb x) = kb_session m x"

subsection \<open>Properties\<close>

lemma control_btn_makes:
  assumes "in_block hs p (\<lambda>_. True)" "\<And>F. ok_arg F txt"
  shows "makes ((r, hs) # F) (control_btn p w col cb txt) (\<lambda>_. True) (\<lambda>h. (r, (h, Label) # hs) # F)"
  unfolding control_btn_def using assms by (intro steps ends; auto simp: makes_simps)

lemma ratio_box_makes:
  assumes "in_block hs p (\<lambda>_. True)" "\<And>F. ok_arg F txt"
  shows "makes ((r, hs) # F) (ratio_box p txt b) (\<lambda>_. True) (\<lambda>h. (r, (h, Checkbox) # hs) # F)"
  unfolding ratio_box_def using assms by (intro steps ends makes_on; auto simp: makes_simps)

lemma ratio_widgets_makes:
  assumes "in_block hs p (\<lambda>_. True)"
  shows "makes ((r, hs) # F) (ratio_widgets p mode) (\<lambda>_. True) (\<lambda>rs. (r, map (\<lambda>h. (h, Checkbox)) rs @ hs) # F)"
  unfolding ratio_widgets_def using assms
  by (intro steps ends makes_bind [OF ratio_box_makes]; auto simp: makes_simps)

definition monitor_ctx :: "monitor_ui \<Rightarrow> nat \<times> (nat \<times> cls) list" where
  "monitor_ctx m = (mw_main m, [(mw_icon_box m, Obj), (mw_player_box m, Obj), (mw_addr m, Textarea),
     (mw_pause_label m, Label), (mw_setting_box m, Obj)] @ map (\<lambda>h. (h, Checkbox)) (mw_ratios m))"

lemma calc_video_area_makes:
  assumes "allowed F (mw_icon_box m) (\<lambda>_. True)" "allowed F (mw_player_box m) (\<lambda>_. True)"
  shows "makes F (calc_video_area_calls m) (\<lambda>_. True) (\<lambda>_. F)"
  unfolding calc_video_area_calls_def using assms by (intro steps ends; simp add: makes_simps)

lemma monitor_makes:
  "makes F (monitor_widgets d vo mode au aw ah y2) (\<lambda>_. True) (\<lambda>m. monitor_ctx m # F)"
  unfolding monitor_widgets_def Let_def
  by (cases vo; simp only: if_True if_False;
    intro steps ends makes_bind [OF makes_builds [OF return_btn_builds]] makes_bind [OF control_btn_makes]
      makes_bind [OF ratio_widgets_makes] makes_bind [OF calc_video_area_makes];
    ((simp add: makes_simps; fail) | (simp add: monitor_ctx_def; fail) | (simp add: monitor_ctx_def, blast)))

definition kb_ctx :: "nat \<times> nat option \<Rightarrow> ctx" where
  "kb_ctx k = (case snd k of None \<Rightarrow> [] | Some f \<Rightarrow> [(f, [(f, Textarea)])]) @ [(fst k, [(fst k, Keyboard)])]"

lemma rtsp_addr_set_makes:
  assumes "allowed F (mw_addr m) (\<lambda>c. c = Textarea)"
  shows "makes F (rtsp_addr_set_widgets covers txt pos m) (\<lambda>k. snd k = None \<longleftrightarrow> \<not> covers) (\<lambda>k. kb_ctx k @ F)"
proof -
  have a: "allowed F (mw_addr m) (\<lambda>_. True)" using assms by (auto simp: allowed_mem)
  show ?thesis
    unfolding rtsp_addr_set_widgets_def
    by (cases covers; simp only: if_True if_False; intro steps ends; use a in \<open>auto simp: makes_simps kb_ctx_def\<close>)
qed

lemma kb_cb_makes:
  assumes "allowed F (mw_addr m) (\<lambda>c. c = Textarea)"
  shows "makes (kb_ctx k @ F) (kb_cb_widgets txt m k) (\<lambda>_. True) (\<lambda>_. F)"
proof -
  have a: "allowed F (mw_addr m) (fits lv_textarea_set_text)" using assms by (auto simp: allowed_mem makes_simps)
  show ?thesis
    unfolding kb_cb_widgets_def kb_ctx_def
    by (cases "snd k"; simp only: option.case append.simps; intro steps makes_bind [OF makes_del] makes_del; simp add: a)
qed

lemma kb_session_makes:
  assumes "allowed F (mw_addr m) (\<lambda>c. c = Textarea)"
  shows "makes F (kb_session m x) (\<lambda>_. True) (\<lambda>_. F)"
  unfolding kb_session_def
  by (cases x rule: prod_cases4; simp only: prod.case)
    (rule makes_bind [OF rtsp_addr_set_makes [OF assms] kb_cb_makes [OF assms]])

lemma monitor_event_makes:
  "makes (monitor_ctx m # F) (monitor_event_cb m ev) (\<lambda>_. True) (\<lambda>_. monitor_ctx m # F)"
proof -
  let ?F = "monitor_ctx m # F"
  have s: "allowed ?F (mw_setting_box m) (\<lambda>_. True)" "allowed ?F (mw_icon_box m) (\<lambda>_. True)"
    "allowed ?F (mw_player_box m) (\<lambda>_. True)" "allowed ?F (mw_addr m) (\<lambda>c. c = Textarea)"
    "allowed ?F (mw_pause_label m) (fits lv_label_set_text)"
    by (simp_all add: monitor_ctx_def makes_simps)
  have r: "allowed ?F (mw_ratios m ! i) (\<lambda>_. True)" if "i < length (mw_ratios m)" for i
    using that by (simp add: monitor_ctx_def)
  show ?thesis
  proof (cases ev)
    case (Ev_ratio old new)
    then show ?thesis using s r
      by (simp only: monitor_event_cb.simps, intro steps makes_only_if calc_video_area_makes; simp add: makes_simps)
  qed (use s in \<open>auto simp: makes_simps intro!: makes_branch makes_on kb_session_makes\<close>)
qed

end
