(* ===== verification/UI_Tour.thy ===== *)
theory UI_Tour
  imports UI_Panels UI_Setting UI_Monitor
begin

text \<open>
  A walk through the pages, with all their widgets. To go to another page a callback builds that
  page, deletes the widgets of the one it leaves, and from then on the new page's own callbacks
  run: \<open>page_switch\<close> and \<open>btn_return_cb\<close> of every page. Which page may follow which is in \<open>Pages\<close>;
  here any may follow any.
\<close>

text \<open>A visit: the page, the answers its constructor gets, and the events while it is open.\<close>

datatype visit =
    V_home bool tm bool area4 area4 area4 "(tm \<times> bool) list"
  | V_smart smart_env bool tile_layout "tile_item list list" "int \<times> int"
  | V_furniture int int
  | V_icebox int int
  | V_coffee "int list"
  | V_player bool "(string list \<times> string option) list" "string list option"
  | V_intercom tile_layout "tile_item list list"
  | V_call "string option" "bool list"
  | V_monitor bool nat bool int int int "monitor_event list" "(bool \<times> string \<times> int) option"
  | V_setting bool bool bool bool "setting_event list"

text \<open>
  An open page. Of the monitor page also the keyboard, if it is shown. A video list or a
  keyboard may be left open: the last component of \<open>V_player\<close> and \<open>V_monitor\<close>.
\<close>

datatype opened =
    P_home home_ui
  | P_plain nat
  | P_coffee coffee_ui
  | P_player player_ui
  | P_call call_ui
  | P_monitor monitor_ui "(nat \<times> nat option) option"
  | P_setting bool setting_widget

fun open_page :: "screen \<Rightarrow> visit \<Rightarrow> opened gui" where
  "open_page d (V_home wifibt tim w a1 a2 a3 evs) = do {
     h \<leftarrow> home_widgets d wifibt tim w a1 a2 a3; State_Monad.return (P_home h) }"
| "open_page d (V_smart v bt_en t ps s) = do {
     m \<leftarrow> smart_home_widgets d v bt_en t ps s; State_Monad.return (P_plain m) }"
| "open_page d (V_furniture x y) = do { m \<leftarrow> furniture_control_widgets d x y; State_Monad.return (P_plain m) }"
| "open_page d (V_icebox x y) = do { m \<leftarrow> icebox_widgets d x y; State_Monad.return (P_plain m) }"
| "open_page d (V_coffee vs) = do { c \<leftarrow> coffee_machine_widgets d; State_Monad.return (P_coffee c) }"
| "open_page d (V_player rk ss l) = do { p \<leftarrow> player_widgets d rk; State_Monad.return (P_player p) }"
| "open_page d (V_intercom t ps) = do { m \<leftarrow> intercom_widgets d t ps; State_Monad.return (P_plain m) }"
| "open_page d (V_call ip us) = do { c \<leftarrow> intercom_call_widgets d ip; State_Monad.return (P_call c) }"
| "open_page d (V_monitor vo mode au aw ah y2 evs k) = do {
     m \<leftarrow> monitor_widgets d vo mode au aw ah y2; State_Monad.return (P_monitor m None) }"
| "open_page d (V_setting large wifibt w b evs) = do {
     s \<leftarrow> setting_widgets d large wifibt w b; State_Monad.return (P_setting wifibt s) }"

fun use_page :: "visit \<Rightarrow> opened \<Rightarrow> opened gui" where
  "use_page (V_home _ _ _ _ _ _ evs) (P_home h) = do {
     each (\<lambda>x. date_update (fst x) (snd x) h) evs; State_Monad.return (P_home h) }"
| "use_page (V_coffee vs) (P_coffee c) = do { each (\<lambda>v. coffee_scroll_calls v c) vs; State_Monad.return (P_coffee c) }"
| "use_page (V_player _ ss l) (P_player p) = do {
     each (list_session p) ss;
     (case l of None \<Rightarrow> State_Monad.return () | Some names \<Rightarrow> do { b \<leftarrow> open_list names p; State_Monad.return () });
     State_Monad.return (P_player p) }"
| "use_page (V_call _ us) (P_call c) = do { each (\<lambda>u. call_update u c) us; State_Monad.return (P_call c) }"
| "use_page (V_monitor _ _ _ _ _ _ evs k) (P_monitor m _) = do {
     each (monitor_event_cb m) evs;
     (case k of None \<Rightarrow> State_Monad.return (P_monitor m None)
      | Some (covers, txt, pos) \<Rightarrow> do {
          kb \<leftarrow> rtsp_addr_set_widgets covers txt pos m; State_Monad.return (P_monitor m (Some kb)) }) }"
| "use_page (V_setting _ _ _ _ evs) (P_setting wifibt s) = do {
     each (setting_event_cb wifibt s) evs; State_Monad.return (P_setting wifibt s) }"
| "use_page _ p = State_Monad.return p"

text \<open>
  What a page deletes when it is left, in this order. The monitor page does not delete the
  floating text area.
\<close>

fun left_roots :: "opened \<Rightarrow> nat list" where
  "left_roots (P_home h) = [home_main h]"
| "left_roots (P_plain m) = [m]"
| "left_roots (P_coffee c) = [coffee_main c]"
| "left_roots (P_player p) = [player_main p]"
| "left_roots (P_call c) = [call_main c]"
| "left_roots (P_monitor m k) = (case k of None \<Rightarrow> [] | Some kb \<Rightarrow> [fst kb]) @ [mw_main m]"
| "left_roots (P_setting _ s) = [sw_main s, sw_mask s]"

fun walk :: "screen \<Rightarrow> visit list \<Rightarrow> opened \<Rightarrow> opened gui" where
  "walk d [] p = State_Monad.return p"
| "walk d (v # vs) p = do {
     q \<leftarrow> open_page d v;
     each del (left_roots p);
     q \<leftarrow> use_page v q;
     walk d vs q }"

definition browse :: "screen \<Rightarrow> visit \<Rightarrow> visit list \<Rightarrow> opened gui" where
  "browse d v vs = do {
     p \<leftarrow> open_page d v;
     p \<leftarrow> use_page v p;
     walk d vs p }"

definition tour :: "screen \<Rightarrow> visit \<Rightarrow> visit list \<Rightarrow> unit gui" where
  "tour d v vs = do {
     p \<leftarrow> browse d v vs;
     each del (left_roots p) }"

subsection \<open>Properties\<close>

text \<open>The cell sizes are not LVGL's end mark.\<close>

definition screen_ok :: "screen \<Rightarrow> bool" where
  "screen_ok d = (home_item_w d \<noteq> grid_last d \<and> RK_PCT_W d 27 \<noteq> grid_last d \<and> grid_last d \<notin> {140, 200, 300})"

text \<open>The roots of an open page with what its callbacks use, and when its pointers are set.\<close>

fun page_ctx :: "opened \<Rightarrow> ctx" where
  "page_ctx (P_home h) = [(home_main h, (ui_label_time h, Label) # (ui_label_date h, Label)
     # (case ui_wifi h of None \<Rightarrow> [] | Some w \<Rightarrow> [(w, Img)]))]"
| "page_ctx (P_plain m) = [(m, [])]"
| "page_ctx (P_coffee c) = [(coffee_main c, map (\<lambda>i. (i, Img)) (coffee_imgs c) @ [(coffee_machine_name c, Label)])]"
| "page_ctx (P_player p) = [(player_main p, [(player_main p, Obj), (fst (the (player_box_button p)), Obj),
     (video_label p, Label)])]"
| "page_ctx (P_call c) = [(call_main c, [(ui_call_label c, Label)])]"
| "page_ctx (P_monitor m k) = (case k of None \<Rightarrow> [] | Some kb \<Rightarrow> kb_ctx kb) @ [monitor_ctx m]"
| "page_ctx (P_setting _ s) = setting_ctx s"

fun opened_ok :: "opened \<Rightarrow> bool" where
  "opened_ok (P_coffee c) = (length (coffee_imgs c) = 5)"
| "opened_ok (P_player p) = (player_box_button p \<noteq> None)"
| "opened_ok (P_setting wifibt s) = setting_rows wifibt s"
| "opened_ok _ = True"

text \<open>The page does not have the floating text area open.\<close>

fun no_float :: "opened \<Rightarrow> bool" where
  "no_float (P_monitor m (Some kb)) = (snd kb = None)"
| "no_float _ = True"

fun closes_float :: "visit \<Rightarrow> bool" where
  "closes_float (V_monitor _ _ _ _ _ _ _ (Some (covers, _))) = (\<not> covers)"
| "closes_float _ = True"

text \<open>A page just opened.\<close>

fun no_keyboard :: "opened \<Rightarrow> bool" where
  "no_keyboard (P_monitor m k) = (k = None)"
| "no_keyboard _ = True"

lemma open_makes:
  assumes "screen_ok d"
  shows "makes F (open_page d v) (\<lambda>p. opened_ok p \<and> no_keyboard p) (\<lambda>p. page_ctx p @ F)"
proof -
  from assms have d: "home_item_w d \<noteq> grid_last d" "RK_PCT_W d 27 \<noteq> grid_last d" "200 \<noteq> grid_last d"
    "grid_last d \<notin> {140, 200, 300}" by (auto simp: screen_ok_def)
  show ?thesis
    by (cases v; simp only: open_page.simps;
      rule makes_bind [OF home_makes [OF d(1)]] makes_bind [OF player_makes [OF d(2)]]
        makes_bind [OF furniture_makes [OF d(3)]] makes_bind [OF setting_makes [OF d(4)]]
        makes_bind [OF smart_home_makes] makes_bind [OF icebox_makes] makes_bind [OF coffee_makes]
        makes_bind [OF intercom_makes] makes_bind [OF call_makes] makes_bind [OF monitor_makes];
      rule makes_done; simp)
qed

lemma open_list_makes:
  assumes "player_box_button p = Some (b, ks)" "in_block hs (player_main p) (\<lambda>_. True)" "in_block hs b (\<lambda>_. True)"
  shows "makes ((r, hs) # F) (open_list names p) (\<lambda>_. True) (\<lambda>_. (r, hs) # F)"
  unfolding open_list_def list_entry_def assms(1) using assms(2,3)
  by (intro steps matrix_steps ends; auto simp: makes_simps)

lemma list_session_makes:
  assumes "player_box_button p \<noteq> None"
  shows "makes (page_ctx (P_player p) @ F) (list_session p x) (\<lambda>_. True) (\<lambda>_. page_ctx (P_player p) @ F)"
proof (rule makes_keeps)
  fix n e
  assume f: "fresh_from n e" and a: "\<And>h ok. allowed (page_ctx (P_player p) @ F) h ok \<Longrightarrow> accepts e h ok"
  obtain b ks where b: "player_box_button p = Some (b, ks)" using assms by auto
  show "typed (list_session p x) n e (\<lambda>_ n' e'. n \<le> n' \<and> e' = e)"
    by (rule list_session_keeps [OF f _ _ b]; rule a) (simp_all add: b)
qed

lemma no_keyboard_float: "no_keyboard p \<Longrightarrow> no_float p"
  by (cases p) auto

lemma use_makes:
  assumes "opened_ok p" "no_keyboard p"
  shows "makes (page_ctx p @ F) (use_page v p) (\<lambda>q. opened_ok q \<and> (closes_float v \<longrightarrow> no_float q)) (\<lambda>q. page_ctx q @ F)"
  using assms
proof (induction v p rule: use_page.induct)
  case (1 a b c d e f evs h)
  show ?case
    by (simp only: use_page.simps, intro steps date_update_makes makes_done) (auto split: option.splits)
next
  case (2 vs c)
  then show ?case
    by (simp only: use_page.simps, intro steps coffee_scroll_makes makes_done) auto
next
  case (3 rk ss l p)
  then obtain b ks where b: "player_box_button p = Some (b, ks)" by auto
  with 3 show ?case
    by (simp only: use_page.simps, intro steps list_session_makes makes_done)
      (auto intro!: makes_bind [OF open_list_makes [OF b]] makes_done)
next
  case (4 ip us c)
  show ?case
    by (simp only: use_page.simps, intro steps call_update_makes makes_done) auto
next
  case (5 vo mode au aw ah y2 evs k m kb)
  then have kb: "kb = None" by simp
  have ev: "makes (monitor_ctx m # F) (each (monitor_event_cb m) evs) (\<lambda>_. True) (\<lambda>_. monitor_ctx m # F)"
    by (rule makes_each [OF monitor_event_makes])
  have "allowed (monitor_ctx m # F) (mw_addr m) (\<lambda>c. c = Textarea)" by (simp add: monitor_ctx_def)
  note rs = rtsp_addr_set_makes [OF this]
  show ?case
  proof (cases k)
    case None
    then show ?thesis unfolding kb use_page.simps option.case
      by simp (rule makes_bind [OF ev], rule makes_done, simp_all)
  next
    case (Some x)
    obtain covers u i where x: "x = (covers, u, i)" by (cases x)
    show ?thesis unfolding kb Some x use_page.simps option.case prod.case
      by simp (rule makes_bind [OF ev], rule makes_bind [OF rs], rule makes_done, auto)
  qed
next
  case (6 lg wf w b evs wifibt s)
  then show ?case
    by (simp only: use_page.simps) (auto intro!: makes_bind [OF makes_each [OF setting_event_makes]] makes_done)
qed (auto intro!: makes_done no_keyboard_float)

text \<open>Leaving a page without the floating text area deletes all it has; others are not touched.\<close>

lemma leave_one: "makes (G @ (r, hs) # F) (each del [r]) (\<lambda>_. True) (\<lambda>_. G @ F)"
  unfolding each.simps by (rule makes_bind [OF makes_del_at], rule makes_done) simp_all

lemma leave_two: "makes (G @ (r, hs) # (r', hs') # F) (each del [r, r']) (\<lambda>_. True) (\<lambda>_. G @ F)"
  unfolding each.simps(2) [of del r]
  by (rule makes_bind [OF makes_del_at], rule leave_one)

lemma leave_two_back: "makes (G @ (r', hs') # (r, hs) # F) (each del [r, r']) (\<lambda>_. True) (\<lambda>_. G @ F)"
proof -
  have "makes (G @ (r', hs') # (r, hs) # F) (del r) (\<lambda>_. True) (\<lambda>_. G @ (r', hs') # F)"
    using makes_del_at [of "G @ [(r', hs')]"] by simp
  then show ?thesis
    unfolding each.simps(2) [of del r] by (rule makes_bind) (rule leave_one)
qed

lemma leave_makes:
  assumes "no_float p"
  shows "makes (G @ page_ctx p @ F) (each del (left_roots p)) (\<lambda>_. True) (\<lambda>_. G @ F)"
proof (cases p)
  case (P_monitor m k)
  show ?thesis
  proof (cases k)
    case None
    show ?thesis
      unfolding P_monitor None page_ctx.simps left_roots.simps option.case append.simps monitor_ctx_def by (rule leave_one)
  next
    case (Some kb)
    with assms P_monitor have "kb_ctx kb = [(fst kb, [(fst kb, Keyboard)])]" by (simp add: kb_ctx_def)
    then show ?thesis
      unfolding P_monitor Some page_ctx.simps left_roots.simps option.case monitor_ctx_def
      by (simp only: append.simps) (rule leave_two)
  qed
next
  case (P_setting w s)
  show ?thesis
    unfolding P_setting page_ctx.simps left_roots.simps setting_ctx_def append.simps by (rule leave_two_back)
qed (simp_all only: page_ctx.simps left_roots.simps append.simps leave_one)

lemma walk_makes:
  assumes "screen_ok d"
  shows "opened_ok p \<and> no_float p \<Longrightarrow> \<forall>v \<in> set vs. closes_float v \<Longrightarrow>
    makes (page_ctx p) (walk d vs p) (\<lambda>q. opened_ok q \<and> no_float q) page_ctx"
proof (induction vs arbitrary: p)
  case Nil
  then show ?case by (auto intro: makes_done)
next
  case (Cons v vs)
  show ?case
    unfolding walk.simps
  proof (rule makes_bind [OF open_makes [OF assms]])
    fix q
    assume q: "opened_ok q \<and> no_keyboard q"
    have l: "makes (page_ctx q @ page_ctx p) (each del (left_roots p)) (\<lambda>_. True) (\<lambda>_. page_ctx q)"
      using leave_makes [of p "page_ctx q" "[]"] Cons.prems(1) by simp
    have u: "makes (page_ctx q) (use_page v q) (\<lambda>q. opened_ok q \<and> no_float q) page_ctx"
      using use_makes [of q "[]" v] q Cons.prems(2) by simp
    show "makes (page_ctx q @ page_ctx p) (each del (left_roots p) \<bind> (\<lambda>_. use_page v q \<bind> walk d vs))
        (\<lambda>q. opened_ok q \<and> no_float q) page_ctx"
      by (rule makes_bind [OF l], rule makes_bind [OF u], rule Cons.IH) (use Cons.prems(2) in auto)
  qed
qed

lemma browse_makes:
  assumes "screen_ok d" "\<forall>v \<in> set (v # vs). closes_float v"
  shows "makes [] (browse d v vs) (\<lambda>q. opened_ok q \<and> no_float q) page_ctx"
  unfolding browse_def
proof (rule makes_bind)
  show "makes [] (open_page d v) (\<lambda>p. opened_ok p \<and> no_keyboard p) page_ctx"
    using open_makes [OF assms(1), of "[]"] by simp
next
  fix p
  assume p: "opened_ok p \<and> no_keyboard p"
  have "makes (page_ctx p) (use_page v p) (\<lambda>q. opened_ok q \<and> no_float q) page_ctx"
    using use_makes [of p "[]" v] p assms(2) by simp
  then show "makes (page_ctx p) (use_page v p \<bind> walk d vs) (\<lambda>q. opened_ok q \<and> no_float q) page_ctx"
    by (rule makes_bind, intro walk_makes [OF assms(1)]) (use assms(2) in auto)
qed

lemma left_roots_ctx: "no_float p \<Longrightarrow> fst ` set (page_ctx p) = set (left_roots p)"
  by (cases p) (auto simp: kb_ctx_def monitor_ctx_def setting_ctx_def split: option.splits)

lemma tour_makes:
  assumes "screen_ok d" "\<forall>v \<in> set (v # vs). closes_float v"
  shows "makes [] (tour d v vs) (\<lambda>_. True) (\<lambda>_. [])"
  unfolding tour_def
proof (rule makes_bind [OF browse_makes [OF assms]])
  fix q
  assume "opened_ok q \<and> no_float q"
  then show "makes (page_ctx q) (each del (left_roots q)) (\<lambda>_. True) (\<lambda>_. [])"
    using leave_makes [of q "[]" "[]"] by simp
qed

text \<open>Leaving the monitor page with the floating text area open: that one object is left.\<close>

lemma float_makes:
  assumes "snd kb = Some f"
  shows "makes (page_ctx (P_monitor m (Some kb))) (each del (left_roots (P_monitor m (Some kb)))) (\<lambda>_. True)
    (\<lambda>_. [(f, [(f, Textarea)])])"
proof -
  have "page_ctx (P_monitor m (Some kb)) = [(f, [(f, Textarea)])] @ (fst kb, [(fst kb, Keyboard)]) # [monitor_ctx m]"
    using assms by (simp add: kb_ctx_def)
  moreover have "left_roots (P_monitor m (Some kb)) = [fst kb, mw_main m]" by simp
  ultimately show ?thesis
    using leave_two [of "[(f, [(f, Textarea)])]" "fst kb" _ "mw_main m" _ "[]"] by (simp only: monitor_ctx_def append_Nil2)
qed

lemma float_opened:
  "makes [] (browse d (V_monitor vo mode au aw ah y2 evs (Some (True, u, i))) [])
     (\<lambda>q. \<exists>m kb f. q = P_monitor m (Some kb) \<and> snd kb = Some f) page_ctx"
proof -
  let ?A = "\<lambda>q. \<exists>m kb f. q = P_monitor m (Some kb) \<and> snd kb = Some f"
  have "makes [monitor_ctx m] (use_page (V_monitor vo mode au aw ah y2 evs (Some (True, u, i))) (P_monitor m None))
      ?A page_ctx" for m
  proof -
    have ev: "makes [monitor_ctx m] (each (monitor_event_cb m) evs) (\<lambda>_. True) (\<lambda>_. [monitor_ctx m])"
      by (rule makes_each [OF monitor_event_makes])
    have "allowed [monitor_ctx m] (mw_addr m) (\<lambda>c. c = Textarea)" by (simp add: monitor_ctx_def)
    note rs = rtsp_addr_set_makes [OF this]
    show ?thesis unfolding use_page.simps option.case prod.case
      by (rule makes_bind [OF ev], rule makes_bind [OF rs], rule makes_done) auto
  qed
  then show ?thesis
    unfolding browse_def open_page.simps walk.simps
    by (intro makes_assoc makes_bind [OF monitor_makes [of "[]"]] makes_step_return) (simp add: makes_bind)
qed

lemma makes_left:
  assumes "makes [] m A D" "world n e"
  shows "typed m n e (\<lambda>r n' e'. A r \<and> under n e (D r) n' e')"
proof -
  have "fresh_from n e" using assms(2) by (simp add: world_def)
  then have "forest n e {} n e" by (auto simp: forest_def dest: fresh_fromD)
  with assms(2) have "under n e [] n e" by (simp add: under_def)
  then show ?thesis by (rule makesD [OF assms(1)])
qed

text \<open>A 1024x600 screen with LVGL's percentage and end mark, and its three layers.\<close>

definition demo_screen :: screen where
  "demo_screen = \<lparr>scr_w = 1024, scr_h = 600, pct = (\<lambda>x. 8192 + x), grid_last = 8191\<rparr>"

definition demo_layers :: env where
  "demo_layers = [lv_scr_act \<mapsto> (Obj, lv_scr_act), lv_layer_top \<mapsto> (Obj, lv_layer_top), lv_layer_sys \<mapsto> (Obj, lv_layer_sys)]"

lemma demo_ok: "screen_ok demo_screen" "world 3 demo_layers"
proof -
  show "screen_ok demo_screen" by code_simp
  show "world 3 demo_layers"
    by (simp add: world_def demo_layers_def fresh_from_def lv_scr_act_def lv_layer_top_def lv_layer_sys_def)
qed





text \<open>Leaving the monitor page while the keyboard covers the address leaves the floating text
  area on the system layer: \<open>btn_return_cb\<close> deletes the keyboard and the page only.
\<close>

theorem float_left_behind:
  assumes "world n e"
  shows "typed (tour d (V_monitor vo mode au aw ah y2 evs (Some (True, u, i))) []) n e
    (\<lambda>_ _ e'. \<exists>f q. e f = None \<and> e' f = Some (Textarea, q))"
  unfolding tour_def
proof (rule typed_bind, rule typed_weaken [OF makes_left [OF float_opened assms]])
  fix q n' e'
  assume "(\<exists>m kb f. q = P_monitor m (Some kb) \<and> snd kb = Some f) \<and> under n e (page_ctx q) n' e'"
  then obtain m kb f where q: "q = P_monitor m (Some kb)" "snd kb = Some f" and u: "under n e (page_ctx q) n' e'"
    by blast
  show "typed (each del (left_roots q)) n' e' (\<lambda>_ _ e'. \<exists>f q. e f = None \<and> e' f = Some (Textarea, q))"
  proof (rule typed_weaken [OF makesD [OF float_makes [OF q(2), of m, folded q(1)] u]])
    fix r n2 e2
    assume "True \<and> under n e [(f, [(f, Textarea)])] n2 e2"
    then have w: "world n e" "forest n e {f} n2 e2" "has_cls e2 f Textarea" by (auto simp: under_def)
    then have "n \<le> f" by (simp add: forest_def)
    with w show "\<exists>f q. e f = None \<and> e2 f = Some (Textarea, q)"
      by (auto simp: world_def fresh_from_def has_cls_def)
  qed
qed

lemma float_left_behind_witness:
  "typed (tour demo_screen (V_monitor True 0 False 10 10 0 [] (Some (True, ''rtsp'', 4))) []) 3 demo_layers
    (\<lambda>_ _ e'. \<exists>f q. demo_layers f = None \<and> e' f = Some (Textarea, q))"
  by (rule float_left_behind [OF demo_ok(2)])

end
