(* ===== verification/UI_Wifi.thy ===== *)
theory UI_Wifi
  imports UI_Base Wifi_UI
begin

text \<open>
  The widgets of the WiFi page (\<open>wifi_ui.c\<close>): the lists are emptied and filled again while the page
  is open, tags come and go, and a dialog asks for the password. \<open>lv_inputbox\<close>, an addition to
  LVGL, is an object with a button matrix and a text area inside; it takes all presses while it
  is open.
\<close>

record wifi_w =
  wf_bg :: nat
  wf_switch :: nat
  wf_part_scaned :: nat
  wf_saved :: nat
  wf_scaned :: nat
  wf_scan :: nat
  wf_icon :: nat
  wf_current :: "nat option"
  wf_saved_btns :: "nat list"
  wf_scaned_btns :: "nat list"
  wf_waiting :: bool
  wf_anim :: bool
  wf_dialog :: "(nat \<times> nat \<times> nat) option"

text \<open>
  \<open>wf_anim\<close>: the animation of the icon runs. \<open>wf_dialog\<close>: the input box, its keyboard and the
  button it was opened for.
\<close>

definition key_mgmt_icon :: "key_mgmt \<Rightarrow> arg" where
  "key_mgmt_icon k = Dsc (case k of NONE \<Rightarrow> ''wifi_none'' | WPA \<Rightarrow> ''wifi_wpa'' | WEP \<Rightarrow> ''wifi_wep'' | WPA3 \<Rightarrow> ''wifi_wpa3'')"

definition key_mgmt_num :: "key_mgmt \<Rightarrow> int" where
  "key_mgmt_num k = (case k of NONE \<Rightarrow> 0 | WPA \<Rightarrow> 1 | WEP \<Rightarrow> 2 | WPA3 \<Rightarrow> 3)"

definition btn_add_tag :: "nat \<Rightarrow> arg \<Rightarrow> nat gui" where
  "btn_add_tag btn txt = do {
     label \<leftarrow> lv_label_create btn;
     on lv_obj_remove_style_all label [];
     on lv_label_set_text label [txt];
     on lv_obj_add_style label [Sty style_txt, K LV_PART_MAIN];
     on lv_obj_set_size label [K LV_SIZE_CONTENT, K LV_SIZE_CONTENT];
     on lv_obj_add_flag label [K LV_OBJ_FLAG_IGNORE_LAYOUT];
     on lv_obj_align label [K LV_ALIGN_RIGHT_MID, I 0, I 0];
     State_Monad.return label }"

subsection \<open>The lists\<close>

definition list_entry_btn :: "nat \<Rightarrow> string \<Rightarrow> key_mgmt \<times> string \<Rightarrow> nat gui" where
  "list_entry_btn l cb e = do {
     btn \<leftarrow> create_with List_btn l [key_mgmt_icon (fst e), T (snd e)];
     on lv_obj_add_event_cb btn [Cb cb, K LV_EVENT_CLICKED, H btn];
     on lv_obj_set_user_data btn [I (key_mgmt_num (fst e))];
     State_Monad.return btn }"

fun saved_rows :: "saved_info list \<Rightarrow> wifi_w \<Rightarrow> wifi_w gui" where
  "saved_rows [] w = State_Monad.return w"
| "saved_rows (r # rs) w =
     (if is_ssid_row r then saved_rows rs w
      else do {
        btn \<leftarrow> list_entry_btn (wf_saved w) ''connect_saved_wifi'' (entry_of r);
        let w = w\<lparr>wf_saved_btns := wf_saved_btns w @ [btn]\<rparr>;
        (if sv_state r = ''[CURRENT]'' then do {
           t \<leftarrow> btn_add_tag btn (U [229, 183, 178, 232, 191, 158, 230, 142, 165]);
           saved_rows rs (w\<lparr>wf_current := Some t\<rparr>) }
         else saved_rows rs w) })"

text \<open>\<open>read_saved_wifi (1)\<close>.\<close>

definition read_saved_widgets :: "saved_info list \<Rightarrow> wifi_w \<Rightarrow> wifi_w gui" where
  "read_saved_widgets wsi w =
     (if length wsi < 1 \<or> is_ssid_row (hd wsi) \<and> length wsi \<le> 1 then State_Monad.return w
      else do {
        obj_clean (wf_saved w);
        w \<leftarrow> saved_rows (drop (if is_ssid_row (hd wsi) then 1 else 0) wsi) (w\<lparr>wf_current := None, wf_saved_btns := []\<rparr>);
        on lv_obj_refr_size (wf_part_scaned w) [];
        on lv_obj_refr_pos (wf_part_scaned w) [];
        on lv_obj_align_to (wf_scan w) [H (wf_part_scaned w), K LV_ALIGN_OUT_TOP_RIGHT, I 0, I 0];
        on lv_obj_align_to (wf_icon w) [H (wf_scan w), K LV_ALIGN_CENTER, I 0, I 0];
        State_Monad.return w })"

fun scaned_rows :: "(key_mgmt \<times> string) list \<Rightarrow> wifi_w \<Rightarrow> wifi_w gui" where
  "scaned_rows [] w = State_Monad.return w"
| "scaned_rows (e # es) w = do {
     btn \<leftarrow> list_entry_btn (wf_scaned w) ''connect_wifi'' e;
     scaned_rows es (w\<lparr>wf_scaned_btns := wf_scaned_btns w @ [btn]\<rparr>) }"

definition show_scan :: "wifi_w \<Rightarrow> unit gui" where
  "show_scan w = do {
     on lv_obj_clear_flag (wf_scan w) [K LV_OBJ_FLAG_HIDDEN];
     on lv_obj_add_flag (wf_icon w) [K LV_OBJ_FLAG_HIDDEN] }"

text \<open>
  \<open>icon_anim_end\<close> on a page that is set up; \<open>es\<close> are the entries \<open>add_scaned\<close> makes of the library's
  result, \<open>None\<close> where there is none.
\<close>

definition icon_anim_end_widgets :: "(key_mgmt \<times> string) list option \<Rightarrow> wifi_w \<Rightarrow> wifi_w gui" where
  "icon_anim_end_widgets es w = do {
     show_scan w;
     (case es of None \<Rightarrow> State_Monad.return w
      | Some es \<Rightarrow> do {
          obj_clean (wf_scaned w);
          scaned_rows es (w\<lparr>wf_scaned_btns := []\<rparr>) }) }"

text \<open>Starting the animation deletes the one that still runs, which calls \<open>icon_anim_deled\<close>.\<close>

definition scan_btn_widgets :: "bool \<Rightarrow> wifi_w \<Rightarrow> wifi_w gui" where
  "scan_btn_widgets init_done w = do {
     on lv_obj_add_flag (wf_scan w) [K LV_OBJ_FLAG_HIDDEN];
     on lv_obj_clear_flag (wf_icon w) [K LV_OBJ_FLAG_HIDDEN];
     only_if (wf_anim w \<and> init_done) (show_scan w);
     on lv_anim_start (wf_icon w) [I 0, I 3600, I 1000, Cb ''icon_anim_cb'', Cb ''icon_anim_deled'', I 3];
     State_Monad.return (w\<lparr>wf_anim := True, wf_waiting := True\<rparr>) }"

subsection \<open>The page\<close>

definition wifi_parts :: "nat \<Rightarrow> bool \<Rightarrow> wifi_w gui" where
  "wifi_parts parent enabled = do {
     bg \<leftarrow> lv_img_create parent;
     on lv_obj_remove_style_all bg [];
     on lv_obj_set_size bg [Pct 100, Pct 100];
     on lv_obj_set_flex_flow bg [K LV_FLEX_FLOW_COLUMN];
     on lv_obj_center bg [];
     part_switch \<leftarrow> lv_obj_create bg;
     on lv_obj_set_width part_switch [Pct 100];
     on lv_obj_set_height part_switch [K LV_SIZE_CONTENT];
     on lv_obj_add_style part_switch [Sty style_txt, K LV_PART_MAIN];
     wifi_label \<leftarrow> lv_label_create part_switch;
     on lv_obj_align wifi_label [K LV_ALIGN_LEFT_MID, I 0, I 0];
     on lv_label_set_text wifi_label [T ''WIFI''];
     on lv_obj_add_style wifi_label [Sty style_txt, K LV_PART_MAIN];
     wifi_switch \<leftarrow> lv_switch_create part_switch;
     on lv_obj_align wifi_switch [K LV_ALIGN_RIGHT_MID, I 0, I 0];
     on lv_obj_add_event_cb wifi_switch [Cb ''switch_toggled'', K LV_EVENT_VALUE_CHANGED, Nul];
     only_if enabled (on lv_obj_add_state wifi_switch [K LV_STATE_CHECKED]);
     item_label_saved \<leftarrow> lv_label_create bg;
     on lv_label_set_text item_label_saved [U [229, 183, 178, 228, 191, 157, 229, 173, 152, 231, 189, 145, 231, 187, 156]];
     on lv_obj_add_style item_label_saved [Sty style_txt, K LV_PART_MAIN];
     part_saved \<leftarrow> lv_obj_create bg;
     on lv_obj_remove_style_all part_saved [];
     on lv_obj_set_width part_saved [Pct 100];
     on lv_obj_set_height part_saved [K LV_SIZE_CONTENT];
     on lv_obj_set_flex_flow part_saved [K LV_FLEX_FLOW_COLUMN];
     item_label_scaned \<leftarrow> lv_label_create bg;
     on lv_label_set_text item_label_scaned [U [229, 143, 175, 231, 148, 168, 231, 189, 145, 231, 187, 156]];
     on lv_obj_add_style item_label_scaned [Sty style_txt, K LV_PART_MAIN];
     part_scaned \<leftarrow> lv_obj_create bg;
     on lv_obj_remove_style_all part_scaned [];
     on lv_obj_set_width part_scaned [Pct 100];
     on lv_obj_set_height part_scaned [K LV_SIZE_CONTENT];
     on lv_obj_set_flex_flow part_scaned [K LV_FLEX_FLOW_COLUMN];
     on lv_obj_refr_size part_scaned [];
     on lv_obj_refr_pos part_scaned [];
     item_list_saved \<leftarrow> lv_list_create part_saved;
     on lv_obj_set_size item_list_saved [Pct 100, K LV_SIZE_CONTENT];
     on lv_obj_add_style item_list_saved [Sty style_list, K LV_PART_MAIN];
     none \<leftarrow> create_with List_btn item_list_saved [Nul, U [230, 151, 160]];
     item_list_scaned \<leftarrow> lv_list_create part_scaned;
     on lv_obj_set_size item_list_scaned [Pct 100, K LV_SIZE_CONTENT];
     on lv_obj_add_style item_list_scaned [Sty style_list, K LV_PART_MAIN];
     none \<leftarrow> create_with List_btn item_list_scaned [Nul, U [230, 151, 160]];
     item_scan \<leftarrow> lv_label_create bg;
     on lv_label_set_text item_scan [U [229, 136, 183, 230, 150, 176]];
     on lv_obj_add_style item_scan [Sty style_txt, K LV_PART_MAIN];
     on lv_obj_align_to item_scan [H part_scaned, K LV_ALIGN_OUT_TOP_RIGHT, I 0, I 0];
     on lv_obj_add_event_cb item_scan [Cb ''scan_btn_cb'', K LV_EVENT_CLICKED, Nul];
     on lv_obj_add_flag item_scan [Fl [LV_OBJ_FLAG_CLICKABLE, LV_OBJ_FLAG_IGNORE_LAYOUT]];
     item_scan_icon \<leftarrow> lv_img_create bg;
     on lv_img_set_src item_scan_icon [R WIFI_SCANNING];
     on lv_img_set_angle item_scan_icon [I 0];
     on lv_obj_align_to item_scan_icon [H item_scan, K LV_ALIGN_CENTER, I 0, I 0];
     on lv_obj_add_flag item_scan_icon [Fl [LV_OBJ_FLAG_HIDDEN, LV_OBJ_FLAG_IGNORE_LAYOUT]];
     State_Monad.return \<lparr>wf_bg = bg, wf_switch = wifi_switch, wf_part_scaned = part_scaned, wf_saved = item_list_saved,
       wf_scaned = item_list_scaned, wf_scan = item_scan, wf_icon = item_scan_icon, wf_current = None,
       wf_saved_btns = [], wf_scaned_btns = [], wf_waiting = False, wf_anim = False, wf_dialog = None\<rparr> }"

definition menu_wifi_widgets :: "nat \<Rightarrow> bool \<Rightarrow> saved_info list \<Rightarrow> wifi_w gui" where
  "menu_wifi_widgets parent enabled wsi = do {
     w \<leftarrow> wifi_parts parent enabled;
     (if enabled then do {
        w \<leftarrow> read_saved_widgets wsi w;
        scan_btn_widgets False w }
      else State_Monad.return w) }"

definition menu_wifi_deinit_widgets :: "wifi_w \<Rightarrow> unit gui" where
  "menu_wifi_deinit_widgets w = do { anim_del ''icon_anim''; del (wf_bg w) }"

subsection \<open>The callbacks\<close>

definition connect_saved_widgets :: "nat \<Rightarrow> wifi_w \<Rightarrow> wifi_w gui" where
  "connect_saved_widgets btn w = do {
     on lv_list_get_btn_text (wf_saved w) [H btn];
     on lv_obj_get_user_data btn [];
     (case wf_current w of None \<Rightarrow> State_Monad.return () | Some t \<Rightarrow> del t);
     t \<leftarrow> btn_add_tag btn (U [230, 173, 163, 229, 156, 168, 232, 191, 158, 230, 142, 165]);
     State_Monad.return (w\<lparr>wf_current := Some t\<rparr>) }"

definition connect_wifi_widgets :: "nat \<Rightarrow> string \<Rightarrow> wifi_w \<Rightarrow> wifi_w gui" where
  "connect_wifi_widgets btn title w = do {
     on lv_list_get_btn_text (wf_scaned w) [H btn];
     on lv_list_get_btn_text (wf_scaned w) [H btn];
     ibox \<leftarrow> create_with Inputbox lv_layer_top [T title];
     ta \<leftarrow> create_with Inputbox_text ibox [];
     btns \<leftarrow> create_with Inputbox_btns ibox [U [231, 161, 174, 232, 174, 164], U [229, 143, 150, 230, 182, 136]];
     on lv_obj_set_size btns [Pct 50, Pct 15];
     on lv_obj_add_event_cb ibox [Cb ''event_cb'', K LV_EVENT_VALUE_CHANGED, H btn];
     on lv_obj_add_style ibox [Sty style_txt, K LV_PART_MAIN];
     on lv_obj_set_size ibox [Pct 80, Pct 50];
     on lv_obj_align ibox [K LV_ALIGN_TOP_MID, I 0, Pct 15];
     kb \<leftarrow> lv_keyboard_create lv_layer_sys;
     on lv_obj_set_size kb [Pct 100, Pct 30];
     on lv_obj_set_align kb [K LV_ALIGN_BOTTOM_MID];
     on lv_keyboard_set_textarea kb [H ta];
     State_Monad.return (w\<lparr>wf_waiting := False, wf_dialog := Some (ibox, kb, btn)\<rparr>) }"

text \<open>\<open>lv_list_get_btn_text\<close> and \<open>lv_obj_get_user_data\<close> read the button the dialog is for.\<close>

definition event_cb_widgets :: "bool \<Rightarrow> saved_info list \<Rightarrow> wifi_w \<Rightarrow> wifi_w gui" where
  "event_cb_widgets confirm wsi w = (case wf_dialog w of
     None \<Rightarrow> State_Monad.return w
   | Some (ibox, kb, btn) \<Rightarrow> do {
       w \<leftarrow> (if confirm then do {
               on lv_list_get_btn_text (wf_scaned w) [H btn];
               on lv_obj_get_user_data btn [];
               read_saved_widgets wsi w }
             else State_Monad.return w);
       del ibox;
       del kb;
       State_Monad.return (w\<lparr>wf_dialog := None\<rparr>) })"

text \<open>
  \<open>wifi_update\<close>: \<open>saved\<close> are the library's rows if the page finds the connection made; \<open>scan\<close> is
  the result if the server says the scan is done.
\<close>

definition wifi_update_widgets ::
    "saved_info list option \<Rightarrow> (key_mgmt \<times> string) list option option \<Rightarrow> wifi_w \<Rightarrow> wifi_w gui" where
  "wifi_update_widgets saved scan w = do {
     w \<leftarrow> (case saved of None \<Rightarrow> State_Monad.return w | Some wsi \<Rightarrow> read_saved_widgets wsi w);
     (case scan of None \<Rightarrow> State_Monad.return w
      | Some es \<Rightarrow>
          (if wf_waiting w then do {
             anim_del ''icon_anim'';
             icon_anim_end_widgets es (w\<lparr>wf_waiting := False\<rparr>) }
           else State_Monad.return w)) }"

text \<open>
  The events. Presses reach the page only while no dialog is open; the \<open>k\<close>-th button of a list is
  pressed where there is one.
\<close>

datatype wifi_event = Ev_scan | Ev_switch bool | Ev_update "saved_info list option" "(key_mgmt \<times> string) list option option"
  | Ev_angle int | Ev_anim_over | Ev_saved nat | Ev_scaned nat string | Ev_dialog bool "saved_info list"

fun wifi_event_cb :: "wifi_event \<Rightarrow> wifi_w \<Rightarrow> wifi_w gui" where
  "wifi_event_cb Ev_scan w = (if wf_dialog w = None then scan_btn_widgets True w else State_Monad.return w)"
| "wifi_event_cb (Ev_switch en) w =
     (if wf_dialog w = None \<and> en then scan_btn_widgets True w else State_Monad.return w)"
| "wifi_event_cb (Ev_update saved scan) w = wifi_update_widgets saved scan w"
| "wifi_event_cb (Ev_angle v) w = do { on lv_img_set_angle (wf_icon w) [I v]; State_Monad.return w }"
| "wifi_event_cb Ev_anim_over w =
     (if wf_anim w then do { show_scan w; State_Monad.return (w\<lparr>wf_anim := False\<rparr>) } else State_Monad.return w)"
| "wifi_event_cb (Ev_saved k) w =
     (if wf_dialog w = None \<and> k < length (wf_saved_btns w) then connect_saved_widgets (wf_saved_btns w ! k) w
      else State_Monad.return w)"
| "wifi_event_cb (Ev_scaned k title) w =
     (if wf_dialog w = None \<and> k < length (wf_scaned_btns w) then connect_wifi_widgets (wf_scaned_btns w ! k) title w
      else State_Monad.return w)"
| "wifi_event_cb (Ev_dialog confirm wsi) w = event_cb_widgets confirm wsi w"

fun wifi_events :: "wifi_event list \<Rightarrow> wifi_w \<Rightarrow> wifi_w gui" where
  "wifi_events [] w = State_Monad.return w"
| "wifi_events (ev # evs) w = do { w \<leftarrow> wifi_event_cb ev w; wifi_events evs w }"

text \<open>The page can be left only with the dialog closed.\<close>

definition wifi_session :: "nat \<Rightarrow> bool \<Rightarrow> saved_info list \<Rightarrow> wifi_event list \<Rightarrow> unit gui" where
  "wifi_session parent enabled wsi evs = do {
     w \<leftarrow> menu_wifi_widgets parent enabled wsi;
     w \<leftarrow> wifi_events evs w;
     w \<leftarrow> event_cb_widgets False [] w;
     menu_wifi_deinit_widgets w }"

subsection \<open>Trees that lose objects\<close>

lemma not_below: "e x = Some (c, q) \<Longrightarrow> x \<noteq> l \<Longrightarrow> \<not> below e l q \<Longrightarrow> \<not> below e l x"
  by (auto elim: below_cases)

lemma less_not_below: "x < l \<Longrightarrow> \<not> below e l x"
  using below_ge leD by blast

lemma removed_keeps: "e x = Some (c, q) \<Longrightarrow> x \<noteq> l \<Longrightarrow> \<not> below e l q \<Longrightarrow> remove e l x = Some (c, q)"
  using not_below [of e x c q l] by (simp add: remove_def)

lemma cleaned_keeps: "e x = Some (c, q) \<Longrightarrow> x = l \<or> \<not> below e l q \<Longrightarrow> cleaned e l x = Some (c, q)"
  using not_below [of e x c q l] by (auto simp: cleaned_def)

text \<open>A set of objects that goes with everything below them.\<close>

lemma forest_cut:
  assumes f: "forest n e Rt n' e'" and old: "\<And>h. h < n \<Longrightarrow> \<not> P h"
    and down: "\<And>h c q. n \<le> h \<Longrightarrow> e' h = Some (c, q) \<Longrightarrow> P q \<Longrightarrow> P h"
    and gone: "\<And>h. h \<in> Rt \<Longrightarrow> h \<notin> Rt' \<Longrightarrow> P h" and sub: "Rt' \<subseteq> Rt"
  shows "forest n e Rt' n' (\<lambda>x. if P x then None else e' x)"
proof (rule forestI)
  fix h c q
  assume h: "n \<le> h" "(if P h then None else e' h) = Some (c, q)"
  then have nP: "\<not> P h" and e: "e' h = Some (c, q)" by (auto split: if_splits)
  from down [OF h(1) e] nP have "\<not> P q" by blast
  with forest_parent [OF f h(1) e] nP gone [of h] sub
  show "if h \<in> Rt' then q < n \<and> e q \<noteq> None else n \<le> q \<and> q < h \<and> (if P q then None else e' q) \<noteq> None"
    by (auto split: if_splits)
next
  show "(if P h then None else e' h) = e h" if "h < n" for h
    using that old forest_facts(2) [OF f] by simp
  show "fresh_from n' (\<lambda>x. if P x then None else e' x)"
    using forest_facts(3) [OF f] by (simp add: fresh_from_def)
qed (use forest_facts(1,4) [OF f] sub in auto)

lemma forest_down: "forest n e Rt n' e' \<Longrightarrow> n \<le> l \<Longrightarrow> n \<le> h \<Longrightarrow> e' h = Some (c, q) \<Longrightarrow> below e' l q \<Longrightarrow> q < h"
  using forest_parent [of n e Rt n' e' h c q] by (auto split: if_splits)

lemma forest_removed:
  assumes "forest n e Rt n' e'" "n \<le> l"
  shows "forest n e (Rt - {l}) n' (remove e' l)"
  unfolding remove_def
  by (rule forest_cut [OF assms(1)])
    (use assms less_not_below below_step forest_down in \<open>force+\<close>)

lemma forest_cleaned:
  assumes "forest n e Rt n' e'" "n \<le> l"
  shows "forest n e Rt n' (cleaned e' l)"
  unfolding cleaned_def
proof (rule forest_cut [OF assms(1)])
  show "h \<noteq> l \<and> below e' l h" if h: "n \<le> h" "e' h = Some (c, q)" "q \<noteq> l \<and> below e' l q" for h c q
  proof -
    have "q < h" by (rule forest_down [OF assms h(1,2)]) (use h in simp)
    moreover have "l \<le> q" using below_ge h(3) by blast
    ultimately show ?thesis using below_step [of e' h c q l] h(2,3) by simp
  qed
qed (use assms less_not_below in auto)

lemma forest_child:
  assumes f: "forest n e Rt n' e'" and "n \<le> q" "e' q \<noteq> None" "\<And>r. r \<in> Rt \<Longrightarrow> r < n'"
  shows "forest n e Rt (Suc n') (e'(n' \<mapsto> (c, q)))"
proof (rule forestI)
  have qn: "q < n'" using fresh_from_less [OF forest_facts(3) [OF f]] assms(3) by blast
  fix h d x
  assume h: "n \<le> h" "(e'(n' \<mapsto> (c, q))) h = Some (d, x)"
  show "if h \<in> Rt then x < n \<and> e x \<noteq> None else n \<le> x \<and> x < h \<and> (e'(n' \<mapsto> (c, q))) x \<noteq> None"
  proof (cases "h = n'")
    case False
    with h forest_parent [OF f h(1)] show ?thesis by (auto split: if_splits)
  qed (use h qn assms in force)
next
  show "(e'(n' \<mapsto> (c, q))) h = e h" if "h < n" for h
    using that forest_facts(1,2) [OF f] by auto
qed (use forest_facts(1,3,4) [OF f] in \<open>auto intro: fresh_from_Suc\<close>)

lemma forest_root:
  assumes f: "forest n e Rt n' e'" and "q < n" "e q \<noteq> None" "\<And>r. r \<in> Rt \<Longrightarrow> r < n'"
  shows "forest n e (insert n' Rt) (Suc n') (e'(n' \<mapsto> (c, q)))"
proof (rule forestI)
  fix h d x
  assume h: "n \<le> h" "(e'(n' \<mapsto> (c, q))) h = Some (d, x)"
  show "if h \<in> insert n' Rt then x < n \<and> e x \<noteq> None else n \<le> x \<and> x < h \<and> (e'(n' \<mapsto> (c, q))) x \<noteq> None"
  proof (cases "h = n'")
    case False
    with h forest_parent [OF f h(1)] show ?thesis by (auto split: if_splits)
  qed (use h assms in force)
next
  show "(e'(n' \<mapsto> (c, q))) h = e h" if "h < n" for h
    using that forest_facts(1,2) [OF f] by auto
qed (use forest_facts(1,3,4) [OF f] in \<open>auto intro: fresh_from_Suc\<close>)

subsection \<open>The page's objects\<close>

definition dialog_roots :: "wifi_w \<Rightarrow> nat set" where
  "dialog_roots w = (case wf_dialog w of None \<Rightarrow> {} | Some (i, k, b) \<Rightarrow> {i, k})"

text \<open>The parts that stay, by their number from the first.\<close>

definition parts :: "nat \<Rightarrow> nat \<Rightarrow> (nat \<times> cls \<times> nat) list" where
  "parts p n = [(n, Img, p), (n + 1, Obj, n), (n + 3, Switch, n + 1), (n + 5, Obj, n), (n + 7, Obj, n),
     (n + 8, List_w, n + 5), (n + 10, List_w, n + 7), (n + 12, Label, n), (n + 13, Img, n)]"

definition part_handles :: "nat \<Rightarrow> wifi_w \<Rightarrow> bool" where
  "part_handles n w = (wf_bg w = n \<and> wf_switch w = n + 3 \<and> wf_part_scaned w = n + 7 \<and> wf_saved w = n + 8
     \<and> wf_scaned w = n + 10 \<and> wf_scan w = n + 12 \<and> wf_icon w = n + 13)"

text \<open>
  The others: the buttons of the lists, the tag on a saved one, and the dialog, which is for a live
  button of the scanned list and keeps the timer from filling that list again.
\<close>

definition entries :: "nat \<Rightarrow> wifi_w \<Rightarrow> (nat \<times> cls \<times> nat) set" where
  "entries n w = (\<lambda>b. (b, List_btn, n + 8)) ` set (wf_saved_btns w) \<union> (\<lambda>b. (b, List_btn, n + 10)) ` set (wf_scaned_btns w)
     \<union> (case wf_dialog w of None \<Rightarrow> {} | Some (i, k, b) \<Rightarrow> {(i, Inputbox, lv_layer_top), (k, Keyboard, lv_layer_sys)})"

definition tagged :: "nat \<Rightarrow> env \<Rightarrow> nat option \<Rightarrow> bool" where
  "tagged n e t = (case t of None \<Rightarrow> True
     | Some t \<Rightarrow> n + 14 \<le> t \<and> (\<exists>b. n + 14 \<le> b \<and> e t = Some (Label, b) \<and> e b = Some (List_btn, n + 8)))"

definition dialog_ok :: "wifi_w \<Rightarrow> bool" where
  "dialog_ok w = (case wf_dialog w of None \<Rightarrow> True
     | Some (i, k, b) \<Rightarrow> i \<noteq> k \<and> \<not> wf_waiting w \<and> b \<in> set (wf_scaned_btns w))"

definition wifi_ok :: "nat \<Rightarrow> nat \<Rightarrow> env \<Rightarrow> wifi_w \<Rightarrow> nat \<Rightarrow> env \<Rightarrow> bool" where
  "wifi_ok p n e w n' e' = (world n e \<and> p < n \<and> e p \<noteq> None \<and> forest n e (insert n (dialog_roots w)) n' e'
     \<and> part_handles n w \<and> (\<forall>(x, c, q) \<in> set (parts p n). e' x = Some (c, q))
     \<and> (\<forall>(x, c, q) \<in> entries n w. n + 14 \<le> x \<and> e' x = Some (c, q)) \<and> tagged n e' (wf_current w) \<and> dialog_ok w)"

lemma layers_less: "world n e \<Longrightarrow> lv_layer_top < n \<and> lv_layer_sys < n \<and> e lv_layer_top \<noteq> None \<and> e lv_layer_sys \<noteq> None"
  by (meson fresh_from_less not_None_eq world_def)

lemma wifi_roots_less:
  assumes "wifi_ok p n e w n' e'" "r \<in> insert n (dialog_roots w)"
  shows "r < n'"
proof -
  have "e' r \<noteq> None"
    using assms by (auto simp: wifi_ok_def dialog_roots_def entries_def parts_def split: option.splits)
  then show ?thesis using assms(1) unfolding wifi_ok_def by (meson fresh_from_less forest_facts(3) not_None_eq)
qed

lemma tagged_keep: "tagged n e t \<Longrightarrow> (\<And>x c q. e x = Some (c, q) \<Longrightarrow> e2 x = Some (c, q)) \<Longrightarrow> tagged n e2 t"
  unfolding tagged_def by (cases t) (simp, fastforce)

text \<open>Another object below a live one of the page.\<close>

lemma wifi_ok_grow:
  assumes w: "wifi_ok p n e w n' e'" and f: "forest n e (insert n (dialog_roots w)) n2 e2"
    and keep: "\<And>x c q. e' x = Some (c, q) \<Longrightarrow> e2 x = Some (c, q)"
  shows "wifi_ok p n e w n2 e2"
proof -
  have "tagged n e2 (wf_current w)"
    by (rule tagged_keep [of n e']) (use w keep in \<open>simp_all add: wifi_ok_def\<close>)
  moreover have "\<forall>(x, c, q) \<in> set (parts p n). e2 x = Some (c, q)"
    "\<forall>(x, c, q) \<in> entries n w. n + 14 \<le> x \<and> e2 x = Some (c, q)"
    using w keep unfolding wifi_ok_def by blast+
  ultimately show ?thesis using w f unfolding wifi_ok_def by blast
qed

lemma wifi_ok_child:
  assumes w: "wifi_ok p n e w n' e'" and "n \<le> q" "e' q \<noteq> None"
  shows "wifi_ok p n e w (Suc n') (e'(n' \<mapsto> (c, q)))"
proof (rule wifi_ok_grow [OF w])
  have f: "forest n e (insert n (dialog_roots w)) n' e'" using w by (simp add: wifi_ok_def)
  show "forest n e (insert n (dialog_roots w)) (Suc n') (e'(n' \<mapsto> (c, q)))"
    by (rule forest_child [OF f assms(2,3) wifi_roots_less [OF w]])
  show "(e'(n' \<mapsto> (c, q))) x = Some (d, y)" if "e' x = Some (d, y)" for x d y
    using fresh_from_less [OF forest_facts(3) [OF f] that] that by simp
qed

lemma wifi_ok_simps:
  assumes "wifi_ok p n e w n' e'"
  shows "e' (wf_bg w) = Some (Img, p)" "e' (wf_part_scaned w) = Some (Obj, n)" "e' (wf_scan w) = Some (Label, n)"
    "e' (wf_icon w) = Some (Img, n)" "e' (wf_saved w) = Some (List_w, n + 5)" "e' (wf_scaned w) = Some (List_w, n + 7)"
    "e' (wf_switch w) = Some (Switch, n + 1)" "n \<le> wf_saved w" "n \<le> wf_scaned w" "e' n' = None"
  using assms fresh_fromD [OF forest_facts(3) [of n e _ n' e'], of _ n']
  by (auto simp: wifi_ok_def part_handles_def parts_def)

text \<open>Fewer objects: what stays is not below what goes.\<close>

lemma parts_above: "p < n \<Longrightarrow> n + 8 \<le> l \<Longrightarrow> (x, c, q) \<in> set (parts p n) \<Longrightarrow> \<not> below e l q \<and> x < n + 14"
  by (rule conjI, rule less_not_below) (auto simp: parts_def)

lemma wifi_facts:
  assumes "wifi_ok p n e w n' e'"
  shows "world n e" "p < n" "e p \<noteq> None" "forest n e (insert n (dialog_roots w)) n' e'" "part_handles n w"
    "(x, c, q) \<in> set (parts p n) \<Longrightarrow> e' x = Some (c, q)"
    "(x, c, q) \<in> entries n w \<Longrightarrow> n + 14 \<le> x" "(x, c, q) \<in> entries n w \<Longrightarrow> e' x = Some (c, q)"
    "tagged n e' (wf_current w)" "dialog_ok w"
  using assms unfolding wifi_ok_def by blast+

lemma entry_parents:
  assumes w: "wifi_ok p n e w n' e'" and x: "(x, c, q) \<in> entries n w"
  shows "q = n + 8 \<and> x \<in> set (wf_saved_btns w) \<or> q = n + 10 \<and> x \<in> set (wf_scaned_btns w) \<or> q < n"
  using x layers_less [OF wifi_facts(1) [OF w]] by (auto simp: entries_def split: option.splits)

lemma lists_apart:
  assumes w: "wifi_ok p n e w n' e'"
  shows "\<not> below e' (n + 8) (n + 10)"
proof -
  have "(n + 10, List_w, n + 7) \<in> set (parts p n)" by (simp add: parts_def)
  from not_below [of e' "n + 10" List_w "n + 7" "n + 8", OF wifi_facts(6) [OF w this]] less_not_below [of "n + 7" "n + 8" e']
  show ?thesis by simp
qed

lemma parts_cleaned:
  assumes w: "wifi_ok p n e w n' e'" and "n + 8 \<le> l" "(x, c, q) \<in> set (parts p n)"
  shows "cleaned e' l x = Some (c, q)"
  by (rule cleaned_keeps [of e' x c q, OF wifi_facts(6) [OF w assms(3)]]) (use parts_above [OF wifi_facts(2) [OF w] assms(2,3)] in simp)

lemma parts_removed:
  assumes w: "wifi_ok p n e w n' e'" and "n + 14 \<le> l" "(x, c, q) \<in> set (parts p n)"
  shows "remove e' l x = Some (c, q)"
  by (rule removed_keeps [of e' x c q, OF wifi_facts(6) [OF w assms(3)]])
    (use parts_above [OF wifi_facts(2) [OF w] _ assms(3), of l e'] assms(2) in auto)

lemma dialog_ok_simps [simp]:
  "dialog_ok (w\<lparr>wf_current := t\<rparr>) = dialog_ok w" "dialog_ok (w\<lparr>wf_saved_btns := bs\<rparr>) = dialog_ok w"
  "dialog_ok (w\<lparr>wf_anim := b\<rparr>) = dialog_ok w" "wf_dialog w = None \<Longrightarrow> dialog_ok w"
  by (cases "wf_dialog w"; simp add: dialog_ok_def split: prod.split)+

lemma part_handles_simps [simp]:
  "part_handles n (w\<lparr>wf_current := t\<rparr>) = part_handles n w" "part_handles n (w\<lparr>wf_saved_btns := bs\<rparr>) = part_handles n w"
  "part_handles n (w\<lparr>wf_scaned_btns := bs\<rparr>) = part_handles n w" "part_handles n (w\<lparr>wf_anim := b\<rparr>) = part_handles n w"
  "part_handles n (w\<lparr>wf_waiting := b\<rparr>) = part_handles n w" "part_handles n (w\<lparr>wf_dialog := d\<rparr>) = part_handles n w"
  by (simp_all add: part_handles_def)

lemma wifi_okI:
  assumes "world n e" "p < n" "e p \<noteq> None" "forest n e (insert n (dialog_roots w)) n' e'" "part_handles n w"
    "\<And>x c q. (x, c, q) \<in> set (parts p n) \<Longrightarrow> e' x = Some (c, q)"
    "\<And>x c q. (x, c, q) \<in> entries n w \<Longrightarrow> n + 14 \<le> x \<and> e' x = Some (c, q)" "tagged n e' (wf_current w)" "dialog_ok w"
  shows "wifi_ok p n e w n' e'"
  using assms unfolding wifi_ok_def by blast

lemma saved_cleaned:
  assumes w: "wifi_ok p n e w n' e'"
  shows "wifi_ok p n e (w\<lparr>wf_current := None, wf_saved_btns := []\<rparr>) n' (cleaned e' (n + 8))"
proof -
  let ?w = "w\<lparr>wf_current := None, wf_saved_btns := []\<rparr>"
  have "n + 14 \<le> x \<and> cleaned e' (n + 8) x = Some (c, q)" if x: "(x, c, q) \<in> entries n ?w" for x c q
  proof -
    have xw: "(x, c, q) \<in> entries n w" using x by (auto simp: entries_def)
    have "q \<noteq> n + 8" using x layers_less [OF wifi_facts(1) [OF w]] by (auto simp: entries_def split: option.splits)
    with entry_parents [OF w xw] have "q = n + 10 \<or> q < n" by blast
    then have "\<not> below e' (n + 8) q" using lists_apart [OF w] less_not_below [of q "n + 8" e'] by auto
    with cleaned_keeps [of e' x c q, OF wifi_facts(8) [OF w xw]] wifi_facts(7) [OF w xw] show ?thesis by blast
  qed
  moreover have "forest n e (insert n (dialog_roots ?w)) n' (cleaned e' (n + 8))"
    using forest_cleaned [OF wifi_facts(4) [OF w], of "n + 8"] by (simp add: dialog_roots_def)
  ultimately show ?thesis
    by (intro wifi_okI parts_cleaned [OF w]) (use wifi_facts(1,2,3,5,10) [OF w] in \<open>simp_all add: tagged_def\<close>)
qed

lemma tagged_other:
  assumes "tagged n e t" "l \<le> n + 10" "\<not> below e l (n + 8)"
  shows "tagged n (cleaned e l) t"
proof (cases t)
  case (Some x)
  with assms(1) obtain b where b: "n + 14 \<le> x" "n + 14 \<le> b" "e x = Some (Label, b)" "e b = Some (List_btn, n + 8)"
    by (auto simp: tagged_def)
  have "\<not> below e l b" by (rule not_below [of e b List_btn "n + 8", OF b(4)]) (use b(2) assms(2,3) in auto)
  with cleaned_keeps [of e x Label b, OF b(3)] cleaned_keeps [of e b List_btn "n + 8", OF b(4)] assms(3) b Some show ?thesis by (auto simp: tagged_def)
qed (simp add: tagged_def)

lemma scaned_cleaned:
  assumes w: "wifi_ok p n e w n' e'" and d: "wf_dialog w = None"
  shows "wifi_ok p n e (w\<lparr>wf_scaned_btns := []\<rparr>) n' (cleaned e' (n + 10))"
proof -
  let ?w = "w\<lparr>wf_scaned_btns := []\<rparr>"
  have nb: "\<not> below e' (n + 10) (n + 8)" by (rule less_not_below) simp
  have "n + 14 \<le> x \<and> cleaned e' (n + 10) x = Some (c, q)" if x: "(x, c, q) \<in> entries n ?w" for x c q
  proof -
    have xw: "(x, c, q) \<in> entries n w" and "q = n + 8" using x d by (auto simp: entries_def)
    with cleaned_keeps [of e' x c q, OF wifi_facts(8) [OF w xw]] wifi_facts(7) [OF w xw] nb show ?thesis by blast
  qed
  moreover have "forest n e (insert n (dialog_roots ?w)) n' (cleaned e' (n + 10))"
    using forest_cleaned [OF wifi_facts(4) [OF w], of "n + 10"] by (simp add: dialog_roots_def)
  moreover have "tagged n (cleaned e' (n + 10)) (wf_current w)"
    by (rule tagged_other [OF wifi_facts(9) [OF w] _ nb]) simp
  ultimately show ?thesis
    by (intro wifi_okI parts_cleaned [OF w]) (use wifi_facts(1,2,3,5,10) [OF w] d in simp_all)
qed

lemma wifi_next:
  assumes w: "wifi_ok p n e w n' e'"
  shows "n + 14 \<le> n'"
proof -
  have "(n + 13, Img, n) \<in> set (parts p n)" by (simp add: parts_def)
  from fresh_from_less [OF forest_facts(3) [OF wifi_facts(4) [OF w]] wifi_facts(6) [OF w this]] show ?thesis by simp
qed

lemma dialog_entry: "r \<in> dialog_roots w \<Longrightarrow> \<exists>c q. (r, c, q) \<in> entries n w \<and> c \<in> {Inputbox, Keyboard} \<and> q \<in> {lv_layer_top, lv_layer_sys}"
  unfolding dialog_roots_def entries_def by (cases "wf_dialog w") auto

lemma tag_removed:
  assumes w: "wifi_ok p n e w n' e'" and t: "wf_current w = Some t"
  shows "e' t \<noteq> None" "wifi_ok p n e (w\<lparr>wf_current := None\<rparr>) n' (remove e' t)"
proof -
  let ?w = "w\<lparr>wf_current := None\<rparr>"
  from wifi_facts(9) [OF w] t obtain b where b: "n + 14 \<le> t" "e' t = Some (Label, b)" by (auto simp: tagged_def)
  then show "e' t \<noteq> None" by simp
  have other: "x \<noteq> t" if "(x, c, q) \<in> entries n w" for x c q
    using wifi_facts(8) [OF w that] that b(2) by (auto simp: entries_def split: option.splits)
  have "n + 14 \<le> x \<and> remove e' t x = Some (c, q)" if "(x, c, q) \<in> entries n ?w" for x c q
  proof -
    have x: "(x, c, q) \<in> entries n w" using that by (simp add: entries_def)
    have "\<not> below e' t q" by (rule less_not_below) (use entry_parents [OF w x] b(1) in auto)
    with removed_keeps [of e' x c q t, OF wifi_facts(8) [OF w x] other [OF x]] wifi_facts(7) [OF w x] show ?thesis by blast
  qed
  moreover have "insert n (dialog_roots ?w) - {t} = insert n (dialog_roots ?w)"
  proof -
    have "t \<noteq> n" using b(1) by simp
    moreover have "dialog_roots ?w = dialog_roots w" by (simp add: dialog_roots_def)
    then have "t \<notin> dialog_roots ?w" using dialog_entry [of t w n] other by blast
    ultimately show ?thesis by blast
  qed
  moreover have "forest n e (insert n (dialog_roots w) - {t}) n' (remove e' t)"
    by (rule forest_removed [OF wifi_facts(4) [OF w]]) (use b(1) in simp)
  ultimately show "wifi_ok p n e ?w n' (remove e' t)"
    by (intro wifi_okI parts_removed [OF w b(1)])
      (use wifi_facts(1,2,3,5,10) [OF w] in \<open>simp_all add: tagged_def dialog_roots_def\<close>)
qed

lemma saved_added:
  assumes w: "wifi_ok p n e w n' e'"
  shows "wifi_ok p n e (w\<lparr>wf_saved_btns := wf_saved_btns w @ [n']\<rparr>) (Suc n') (e'(n' \<mapsto> (List_btn, wf_saved w)))"
proof -
  let ?e = "e'(n' \<mapsto> (List_btn, wf_saved w))"
  have "wifi_ok p n e w (Suc n') ?e"
    by (rule wifi_ok_child [OF w]) (use wifi_ok_simps [OF w] in simp_all)
  note g = wifi_facts [OF this]
  have "n + 14 \<le> x \<and> ?e x = Some (c, q)" if "(x, c, q) \<in> entries n (w\<lparr>wf_saved_btns := wf_saved_btns w @ [n']\<rparr>)" for x c q
  proof (cases "(x, c, q) \<in> entries n w")
    case True
    from g(7) [OF this] g(8) [OF this] show ?thesis by blast
  next
    case False
    with that have "x = n'" "c = List_btn" "q = n + 8" by (auto simp: entries_def)
    with wifi_next [OF w] g(5) show ?thesis by (simp add: part_handles_def)
  qed
  then show ?thesis
    by (intro wifi_okI g(6)) (use g(1-5,9,10) in \<open>simp_all add: dialog_roots_def\<close>)
qed

lemma tag_added:
  assumes w: "wifi_ok p n e w n' e'" and b: "b \<in> set (wf_saved_btns w)"
  shows "wifi_ok p n e (w\<lparr>wf_current := Some n'\<rparr>) (Suc n') (e'(n' \<mapsto> (Label, b)))"
proof -
  let ?e = "e'(n' \<mapsto> (Label, b))"
  have "(b, List_btn, n + 8) \<in> entries n w" using b by (auto simp: entries_def)
  note b' = wifi_facts(7,8) [OF w this]
  have "wifi_ok p n e w (Suc n') ?e"
    by (rule wifi_ok_child [OF w]) (use b' in simp_all)
  note g = wifi_facts [OF this]
  have "b \<noteq> n'" using b'(2) wifi_ok_simps(10) [OF w] by auto
  then have t: "tagged n ?e (Some n')" using b' wifi_next [OF w] by (simp add: tagged_def)
  show ?thesis
    by (intro wifi_okI g(6)) (use g(1-5,10) g(7,8) t in \<open>auto simp: dialog_roots_def entries_def split: option.splits\<close>)
qed

lemma scaned_added:
  assumes w: "wifi_ok p n e w n' e'"
  shows "wifi_ok p n e (w\<lparr>wf_scaned_btns := wf_scaned_btns w @ [n']\<rparr>) (Suc n') (e'(n' \<mapsto> (List_btn, wf_scaned w)))"
proof -
  let ?e = "e'(n' \<mapsto> (List_btn, wf_scaned w))"
  have "wifi_ok p n e w (Suc n') ?e"
    by (rule wifi_ok_child [OF w]) (use wifi_ok_simps [OF w] in simp_all)
  note g = wifi_facts [OF this]
  have "n + 14 \<le> x \<and> ?e x = Some (c, q)" if "(x, c, q) \<in> entries n (w\<lparr>wf_scaned_btns := wf_scaned_btns w @ [n']\<rparr>)" for x c q
  proof (cases "(x, c, q) \<in> entries n w")
    case True
    from g(7) [OF this] g(8) [OF this] show ?thesis by blast
  next
    case False
    with that have "x = n'" "c = List_btn" "q = n + 10" by (auto simp: entries_def)
    with wifi_next [OF w] g(5) show ?thesis by (simp add: part_handles_def)
  qed
  moreover have "dialog_ok (w\<lparr>wf_scaned_btns := wf_scaned_btns w @ [n']\<rparr>)"
    using g(10) by (cases "wf_dialog w") (auto simp: dialog_ok_def)
  ultimately show ?thesis
    by (intro wifi_okI g(6)) (use g(1-5,9) in \<open>simp_all add: dialog_roots_def\<close>)
qed

lemma below_remove_le: "below (remove e l) h x \<Longrightarrow> below e h x"
proof (induction x rule: less_induct)
  case (less x)
  from less.prems show ?case
  proof (cases rule: below_cases)
    case (2 c q)
    then have "e x = Some (c, q)" by (auto simp: remove_def split: if_splits)
    then show ?thesis by (rule below_step) (use 2 less.IH [of q] in simp_all)
  qed simp
qed

lemma removed_twice:
  assumes x: "e x = Some (c, q)" and "x \<noteq> i" "x \<noteq> k" "\<not> below e i q" "\<not> below e k q"
  shows "remove (remove e i) k x = Some (c, q)"
proof (rule removed_keeps [of _ _ _ q])
  show "remove e i x = Some (c, q)" by (rule removed_keeps [of e x c q, OF x]) (use assms in simp_all)
  show "\<not> below (remove e i) k q" using below_remove_le assms(5) by blast
qed (rule assms(3))

lemma dialog_removed:
  assumes w: "wifi_ok p n e w n' e'" and d: "wf_dialog w = Some (i, k, b)"
  shows "e' i \<noteq> None" "remove e' i k \<noteq> None" "wifi_ok p n e (w\<lparr>wf_dialog := None\<rparr>) n' (remove (remove e' i) k)"
proof -
  let ?w = "w\<lparr>wf_dialog := None\<rparr>" and ?e = "remove (remove e' i) k"
  have ent: "(i, Inputbox, lv_layer_top) \<in> entries n w" "(k, Keyboard, lv_layer_sys) \<in> entries n w"
    using d by (auto simp: entries_def)
  have cls: "e' i = Some (Inputbox, lv_layer_top)" "e' k = Some (Keyboard, lv_layer_sys)"
    by (rule wifi_facts(8) [OF w ent(1)], rule wifi_facts(8) [OF w ent(2)])
  have num: "n + 14 \<le> i" "n + 14 \<le> k" by (rule wifi_facts(7) [OF w ent(1)], rule wifi_facts(7) [OF w ent(2)])
  have ik: "k \<noteq> i" using wifi_facts(10) [OF w] d by (auto simp: dialog_ok_def)
  have low: "\<not> below e' i q \<and> \<not> below e' k q" if "q < n + 14" for q
    using less_not_below num that by (meson order_less_le_trans)
  show "e' i \<noteq> None" using cls by simp
  show "remove e' i k \<noteq> None"
    using removed_keeps [of e' k Keyboard lv_layer_sys i, OF cls(2) ik] low [of lv_layer_sys]
      layers_less [OF wifi_facts(1) [OF w]] by simp
  have btn: "?e x = Some (List_btn, q)" if "e' x = Some (List_btn, q)" "q < n + 14" for x q
    by (rule removed_twice [of e' x List_btn q, OF that(1)]) (use that cls low in auto)
  have "tagged n ?e (wf_current w)"
  proof (cases "wf_current w")
    case (Some t)
    with wifi_facts(9) [OF w] obtain c where c: "n + 14 \<le> t" "n + 14 \<le> c" "e' t = Some (Label, c)" "e' c = Some (List_btn, n + 8)"
      by (auto simp: tagged_def)
    have "c \<noteq> i" "c \<noteq> k" using c(4) cls by auto
    then have "\<not> below e' i c" "\<not> below e' k c"
      using not_below [of e' c List_btn "n + 8", OF c(4)] low [of "n + 8"] by auto
    then have "?e t = Some (Label, c)" by (intro removed_twice [of e' t Label c, OF c(3)]) (use c(3) cls in auto)
    with btn [OF c(4)] c Some show ?thesis by (auto simp: tagged_def)
  qed (simp add: tagged_def)
  moreover have "forest n e (insert n (dialog_roots ?w)) n' ?e"
  proof -
    have "insert n (dialog_roots w) - {i} - {k} = insert n (dialog_roots ?w)"
      using d num by (auto simp: dialog_roots_def)
    with forest_removed [OF forest_removed [OF wifi_facts(4) [OF w], of i], of k] num show ?thesis by simp
  qed
  moreover have "n + 14 \<le> x \<and> ?e x = Some (c, q)" if x: "(x, c, q) \<in> entries n ?w" for x c q
  proof -
    have xw: "(x, c, q) \<in> entries n w" and "c = List_btn" "q < n + 14" using x by (auto simp: entries_def)
    with btn wifi_facts(7,8) [OF w xw] show ?thesis by blast
  qed
  moreover have "?e x = Some (c, q)" if x: "(x, c, q) \<in> set (parts p n)" for x c q
    by (rule removed_twice [of e' x c q, OF wifi_facts(6) [OF w x]])
      (use x num low [of q] wifi_facts(2) [OF w] in \<open>auto simp: parts_def\<close>)
  ultimately show "wifi_ok p n e ?w n' ?e"
    by (intro wifi_okI) (use wifi_facts(1,2,3,5) [OF w] in simp_all)
qed

lemma dialog_added:
  assumes w: "wifi_ok p n e w n' e'" and b: "b \<in> set (wf_scaned_btns w)" and d: "wf_dialog w = None"
  shows "wifi_ok p n e (w\<lparr>wf_waiting := False, wf_dialog := Some (n', n' + 3, b)\<rparr>) (n' + 4)
    (e'(n' \<mapsto> (Inputbox, lv_layer_top), n' + 1 \<mapsto> (Inputbox_text, n'), n' + 2 \<mapsto> (Inputbox_btns, n'),
       n' + 3 \<mapsto> (Keyboard, lv_layer_sys)))"
proof -
  let ?w = "w\<lparr>wf_waiting := False, wf_dialog := Some (n', n' + 3, b)\<rparr>"
  let ?e = "e'(n' \<mapsto> (Inputbox, lv_layer_top), n' + 1 \<mapsto> (Inputbox_text, n'), n' + 2 \<mapsto> (Inputbox_btns, n'),
       n' + 3 \<mapsto> (Keyboard, lv_layer_sys))"
  note l = layers_less [OF wifi_facts(1) [OF w]]
  note n' = wifi_next [OF w]
  have f0: "forest n e {n} n' e'" using wifi_facts(4) [OF w] d by (simp add: dialog_roots_def)
  have f1: "forest n e {n', n} (Suc n') (e'(n' \<mapsto> (Inputbox, lv_layer_top)))"
    by (rule forest_root [OF f0]) (use l n' in auto)
  have f2: "forest n e {n', n} (Suc (Suc n')) (e'(n' \<mapsto> (Inputbox, lv_layer_top), Suc n' \<mapsto> (Inputbox_text, n')))"
    by (rule forest_child [OF f1]) (use n' in auto)
  have f3: "forest n e {n', n} (Suc (Suc (Suc n'))) (e'(n' \<mapsto> (Inputbox, lv_layer_top), Suc n' \<mapsto> (Inputbox_text, n'),
      Suc (Suc n') \<mapsto> (Inputbox_btns, n')))"
    by (rule forest_child [OF f2]) (use n' in auto)
  have "forest n e {n' + 3, n', n} (n' + 4) ?e"
    using forest_root [OF f3, of lv_layer_sys Keyboard] l n' by (fastforce simp: numeral_eq_Suc)
  moreover have "{n' + 3, n', n} = insert n (dialog_roots ?w)" by (auto simp: dialog_roots_def)
  ultimately have f: "forest n e (insert n (dialog_roots ?w)) (n' + 4) ?e" by simp
  have keep: "?e x = Some (c, q)" if "e' x = Some (c, q)" for x c q
  proof -
    have "x < n'" by (rule fresh_from_less [OF forest_facts(3) [OF f0] that])
    with that show ?thesis by simp
  qed
  have ent: "n + 14 \<le> x \<and> ?e x = Some (c, q)" if x: "(x, c, q) \<in> entries n ?w" for x c q
  proof (cases "(x, c, q) \<in> entries n w")
    case True
    from wifi_facts(7) [OF w True] keep [OF wifi_facts(8) [OF w True]] show ?thesis by blast
  next
    case False
    with x d have "(x, c, q) \<in> {(n', Inputbox, lv_layer_top), (n' + 3, Keyboard, lv_layer_sys)}"
      by (auto simp: entries_def)
    with n' show ?thesis by auto
  qed
  have "tagged n ?e (wf_current w)" by (rule tagged_keep [OF wifi_facts(9) [OF w] keep])
  with f ent keep [OF wifi_facts(6) [OF w]] show ?thesis
    by (intro wifi_okI) (use wifi_facts(1,2,3,5) [OF w] b in \<open>simp_all add: dialog_ok_def\<close>)
qed

subsection \<open>Every operation keeps the page\<close>

lemma typed_then: "typed m n e P \<Longrightarrow> (\<And>r n' e'. P r n' e' \<Longrightarrow> typed (f r) n' e' Q) \<Longrightarrow> typed (m \<bind> f) n e Q"
  by (rule typed_bind, rule typed_weaken)

lemma list_entry_typed:
  assumes w: "wifi_ok p n e w n' e'" and "l \<in> {wf_saved w, wf_scaned w}"
  shows "typed (list_entry_btn l cb x) n' e' (\<lambda>b n2 e2. b = n' \<and> n2 = Suc n' \<and> e2 = e'(n' \<mapsto> (List_btn, l)))"
  unfolding list_entry_btn_def
  by (intro typed_rules; use assms(2) wifi_ok_simps [OF w] in \<open>auto simp: class_simps key_mgmt_icon_def\<close>)

lemma btn_add_tag_typed:
  assumes w: "wifi_ok p n e w n' e'" and "b \<in> set (wf_saved_btns w)" "alive_arg e' u"
  shows "typed (btn_add_tag b u) n' e' (\<lambda>t n2 e2. t = n' \<and> n2 = Suc n' \<and> e2 = e'(n' \<mapsto> (Label, b)))"
proof -
  have "(b, List_btn, n + 8) \<in> entries n w" using assms(2) by (auto simp: entries_def)
  note b = wifi_facts(8) [OF w this]
  have "alive_arg (e'(n' \<mapsto> (Label, b))) u" using assms(3) by (cases u) auto
  then show ?thesis
    unfolding btn_add_tag_def
    by (intro typed_rules; use b wifi_ok_simps(10) [OF w] in \<open>auto simp: class_simps\<close>)
qed

abbreviation keeps_dialog :: "nat \<Rightarrow> nat \<Rightarrow> env \<Rightarrow> wifi_w \<Rightarrow> wifi_w \<Rightarrow> nat \<Rightarrow> env \<Rightarrow> bool" where
  "keeps_dialog p n e w v n2 e2 \<equiv> wifi_ok p n e v n2 e2 \<and> wf_dialog v = wf_dialog w \<and> wf_waiting v = wf_waiting w"

lemma saved_rows_typed:
  "wifi_ok p n e w n' e' \<Longrightarrow> typed (saved_rows rs w) n' e' (keeps_dialog p n e w)"
proof (induction rs arbitrary: w n' e')
  case Nil
  then show ?case by (simp add: typed_return)
next
  case (Cons r rs)
  show ?case
  proof (cases "is_ssid_row r")
    case True
    with Cons show ?thesis by simp
  next
    case False
    let ?v = "w\<lparr>wf_saved_btns := wf_saved_btns w @ [n']\<rparr>" and ?e = "e'(n' \<mapsto> (List_btn, wf_saved w))"
    note v = saved_added [OF Cons.prems]
    have t: "typed (btn_add_tag n' u \<bind> (\<lambda>t. saved_rows rs (?v\<lparr>wf_current := Some t\<rparr>))) (Suc n') ?e (keeps_dialog p n e w)"
      if "alive_arg ?e u" for u
    proof (rule typed_then [OF btn_add_tag_typed [OF v _ that]])
      fix t n2 e2
      assume "t = Suc n' \<and> n2 = Suc (Suc n') \<and> e2 = ?e(Suc n' \<mapsto> (Label, n'))"
      with tag_added [OF v, of n'] have "wifi_ok p n e (?v\<lparr>wf_current := Some t\<rparr>) n2 e2" by simp
      from Cons.IH [OF this] show "typed (saved_rows rs (?v\<lparr>wf_current := Some t\<rparr>)) n2 e2 (keeps_dialog p n e w)" by simp
    qed simp
    have "typed (saved_rows (r # rs) w) n' e' (keeps_dialog p n e w) =
        typed (list_entry_btn (wf_saved w) ''connect_saved_wifi'' (entry_of r) \<bind> (\<lambda>btn.
          let v = w\<lparr>wf_saved_btns := wf_saved_btns w @ [btn]\<rparr> in
          if sv_state r = ''[CURRENT]'' then btn_add_tag btn (U [229, 183, 178, 232, 191, 158, 230, 142, 165]) \<bind>
            (\<lambda>t. saved_rows rs (v\<lparr>wf_current := Some t\<rparr>)) else saved_rows rs v)) n' e' (keeps_dialog p n e w)"
      using False by simp
    also have "\<dots>"
    proof (rule typed_then [OF list_entry_typed [OF Cons.prems]])
      fix b n2 e2
      assume "b = n' \<and> n2 = Suc n' \<and> e2 = e'(n' \<mapsto> (List_btn, wf_saved w))"
      then have b: "b = n'" "n2 = Suc n'" "e2 = ?e" by simp_all
      show "typed (let v = w\<lparr>wf_saved_btns := wf_saved_btns w @ [b]\<rparr> in
          if sv_state r = ''[CURRENT]'' then btn_add_tag b (U [229, 183, 178, 232, 191, 158, 230, 142, 165]) \<bind>
            (\<lambda>t. saved_rows rs (v\<lparr>wf_current := Some t\<rparr>)) else saved_rows rs v) n2 e2 (keeps_dialog p n e w)"
        unfolding b Let_def
      proof (rule typed_if)
        show "typed (saved_rows rs ?v) (Suc n') ?e (keeps_dialog p n e w)"
          by (rule typed_weaken [OF Cons.IH [OF v]]) simp
      qed (rule t, simp)
    qed simp
    finally show ?thesis .
  qed
qed

lemma scaned_rows_typed:
  "wifi_ok p n e w n' e' \<Longrightarrow> typed (scaned_rows es w) n' e' (keeps_dialog p n e w)"
proof (induction es arbitrary: w n' e')
  case Nil
  then show ?case by (simp add: typed_return)
next
  case (Cons x es)
  show ?case
    unfolding scaned_rows.simps
  proof (rule typed_then [OF list_entry_typed [OF Cons.prems]])
    fix b n2 e2
    assume "b = n' \<and> n2 = Suc n' \<and> e2 = e'(n' \<mapsto> (List_btn, wf_scaned w))"
    with scaned_added [OF Cons.prems] have "wifi_ok p n e (w\<lparr>wf_scaned_btns := wf_scaned_btns w @ [b]\<rparr>) n2 e2" by simp
    from Cons.IH [OF this] show "typed (scaned_rows es (w\<lparr>wf_scaned_btns := wf_scaned_btns w @ [b]\<rparr>)) n2 e2 (keeps_dialog p n e w)"
      by simp
  qed simp
qed

lemma read_saved_typed:
  assumes w: "wifi_ok p n e w n' e'"
  shows "typed (read_saved_widgets wsi w) n' e' (keeps_dialog p n e w)"
proof -
  let ?w = "w\<lparr>wf_current := None, wf_saved_btns := []\<rparr>"
  have s: "wf_saved w = n + 8" using wifi_facts(5) [OF w] by (simp add: part_handles_def)
  note c = saved_cleaned [OF w]
  show ?thesis
    unfolding read_saved_widgets_def
  proof (rule typed_if, rule typed_return)
    assume "\<not> (length wsi < 1 \<or> is_ssid_row (hd wsi) \<and> length wsi \<le> 1)"
    show "typed (obj_clean (wf_saved w) \<bind> (\<lambda>_. saved_rows (drop (if is_ssid_row (hd wsi) then 1 else 0) wsi) ?w \<bind> (\<lambda>w.
        on lv_obj_refr_size (wf_part_scaned w) [] \<bind> (\<lambda>_. on lv_obj_refr_pos (wf_part_scaned w) [] \<bind> (\<lambda>_.
        on lv_obj_align_to (wf_scan w) [H (wf_part_scaned w), K LV_ALIGN_OUT_TOP_RIGHT, I 0, I 0] \<bind> (\<lambda>_.
        on lv_obj_align_to (wf_icon w) [H (wf_scan w), K LV_ALIGN_CENTER, I 0, I 0] \<bind> (\<lambda>_. State_Monad.return w)))))))
      n' e' (keeps_dialog p n e w)"
    proof (rule typed_bind, rule typed_clean)
      show "e' (wf_saved w) \<noteq> None" using wifi_ok_simps(5) [OF w] by simp
      show "typed (saved_rows (drop (if is_ssid_row (hd wsi) then 1 else 0) wsi) ?w \<bind> (\<lambda>w.
          on lv_obj_refr_size (wf_part_scaned w) [] \<bind> (\<lambda>_. on lv_obj_refr_pos (wf_part_scaned w) [] \<bind> (\<lambda>_.
          on lv_obj_align_to (wf_scan w) [H (wf_part_scaned w), K LV_ALIGN_OUT_TOP_RIGHT, I 0, I 0] \<bind> (\<lambda>_.
          on lv_obj_align_to (wf_icon w) [H (wf_scan w), K LV_ALIGN_CENTER, I 0, I 0] \<bind> (\<lambda>_. State_Monad.return w))))))
        n' (cleaned e' (wf_saved w)) (keeps_dialog p n e w)"
        unfolding s
      proof (rule typed_then [OF saved_rows_typed [OF c]])
        fix v n2 e2
        assume v: "keeps_dialog p n e ?w v n2 e2"
        note f = wifi_ok_simps [OF conjunct1 [OF v]]
        show "typed (on lv_obj_refr_size (wf_part_scaned v) [] \<bind> (\<lambda>_. on lv_obj_refr_pos (wf_part_scaned v) [] \<bind> (\<lambda>_.
            on lv_obj_align_to (wf_scan v) [H (wf_part_scaned v), K LV_ALIGN_OUT_TOP_RIGHT, I 0, I 0] \<bind> (\<lambda>_.
            on lv_obj_align_to (wf_icon v) [H (wf_scan v), K LV_ALIGN_CENTER, I 0, I 0] \<bind> (\<lambda>_. State_Monad.return v)))))
          n2 e2 (keeps_dialog p n e w)"
          by (intro typed_rules; use f v in \<open>simp add: class_simps\<close>)
      qed
    qed
  qed (use w in simp)
qed

lemma wifi_ok_flags:
  assumes w: "wifi_ok p n e w n' e'"
  shows "wifi_ok p n e (w\<lparr>wf_anim := a\<rparr>) n' e'" "wifi_ok p n e (w\<lparr>wf_waiting := False\<rparr>) n' e'"
    "wf_dialog w = None \<Longrightarrow> wifi_ok p n e (w\<lparr>wf_anim := a, wf_waiting := b\<rparr>) n' e'"
proof -
  have "dialog_ok (w\<lparr>wf_waiting := False\<rparr>)"
    using wifi_facts(10) [OF w] by (cases "wf_dialog w") (auto simp: dialog_ok_def)
  then show "wifi_ok p n e (w\<lparr>wf_anim := a\<rparr>) n' e'" "wifi_ok p n e (w\<lparr>wf_waiting := False\<rparr>) n' e'"
    "wf_dialog w = None \<Longrightarrow> wifi_ok p n e (w\<lparr>wf_anim := a, wf_waiting := b\<rparr>) n' e'"
    using w unfolding wifi_ok_def by (simp_all add: dialog_roots_def entries_def)
qed

lemma show_scan_typed: "wifi_ok p n e w n' e' \<Longrightarrow> typed (show_scan w) n' e' (\<lambda>_ n2 e2. n2 = n' \<and> e2 = e')"
  unfolding show_scan_def by (intro typed_rules; simp add: wifi_ok_simps class_simps)

lemma scan_btn_typed:
  assumes w: "wifi_ok p n e w n' e'" "wf_dialog w = None"
  shows "typed (scan_btn_widgets i w) n' e' (\<lambda>v n2 e2. wifi_ok p n e v n2 e2 \<and> wf_dialog v = None)"
  unfolding scan_btn_widgets_def
  by (intro typed_rules typed_weaken [OF show_scan_typed [OF w(1)]];
      use w wifi_ok_flags(3) [OF w] wifi_ok_simps [OF w(1)] in \<open>auto intro!: typed_rules simp: class_simps\<close>)

lemma icon_anim_end_typed:
  assumes w: "wifi_ok p n e w n' e'" "wf_dialog w = None"
  shows "typed (icon_anim_end_widgets es w) n' e' (wifi_ok p n e)"
  unfolding icon_anim_end_widgets_def
proof (rule typed_then [OF show_scan_typed [OF w(1)]])
  fix r n2 e2
  assume r: "n2 = n' \<and> e2 = e'"
  show "typed (case es of None \<Rightarrow> State_Monad.return w
      | Some es \<Rightarrow> obj_clean (wf_scaned w) \<bind> (\<lambda>_. scaned_rows es (w\<lparr>wf_scaned_btns := []\<rparr>))) n2 e2 (wifi_ok p n e)"
  proof (cases es)
    case (Some xs)
    have s: "wf_scaned w = n + 10" using wifi_facts(5) [OF w(1)] by (simp add: part_handles_def)
    have "typed (obj_clean (n + 10) \<bind> (\<lambda>_. scaned_rows xs (w\<lparr>wf_scaned_btns := []\<rparr>))) n' e' (wifi_ok p n e)"
      by (rule typed_bind, rule typed_clean)
        (use s wifi_ok_simps(6) [OF w(1)] in \<open>auto intro!: typed_weaken [OF scaned_rows_typed [OF scaned_cleaned [OF w]]]\<close>)
    then show ?thesis using r Some s by simp
  qed (use r w in \<open>simp add: typed_return\<close>)
qed

lemma wifi_update_typed:
  assumes w: "wifi_ok p n e w n' e'"
  shows "typed (wifi_update_widgets saved scan w) n' e' (wifi_ok p n e)"
  unfolding wifi_update_widgets_def
proof (rule typed_then [where P = "keeps_dialog p n e w"])
  show "typed (case saved of None \<Rightarrow> State_Monad.return w | Some wsi \<Rightarrow> read_saved_widgets wsi w) n' e' (keeps_dialog p n e w)"
    using w read_saved_typed [OF w] by (cases saved) (simp_all add: typed_return)
next
  fix v n2 e2
  assume v: "keeps_dialog p n e w v n2 e2"
  show "typed (case scan of None \<Rightarrow> State_Monad.return v | Some es \<Rightarrow> (if wf_waiting v then
      anim_del ''icon_anim'' \<bind> (\<lambda>_. icon_anim_end_widgets es (v\<lparr>wf_waiting := False\<rparr>)) else State_Monad.return v)) n2 e2 (wifi_ok p n e)"
  proof (cases "scan = None \<or> \<not> wf_waiting v")
    case True
    with v show ?thesis by (cases scan) (simp_all add: typed_return)
  next
    case False
    then obtain es where es: "scan = Some es" "wf_waiting v" by auto
    with wifi_facts(10) [OF conjunct1 [OF v]] have "wf_dialog v = None"
      by (cases "wf_dialog v") (auto simp: dialog_ok_def)
    then have "typed (icon_anim_end_widgets es (v\<lparr>wf_waiting := False\<rparr>)) n2 e2 (wifi_ok p n e)"
      by (intro icon_anim_end_typed wifi_ok_flags(2)) (use v in simp_all)
    then have "typed (anim_del ''icon_anim'' \<bind> (\<lambda>_. icon_anim_end_widgets es (v\<lparr>wf_waiting := False\<rparr>))) n2 e2 (wifi_ok p n e)"
      by (intro typed_bind typed_anim_del)
    with es show ?thesis by simp
  qed
qed

lemma connect_saved_typed:
  assumes w: "wifi_ok p n e w n' e'" and b: "b \<in> set (wf_saved_btns w)"
  shows "typed (connect_saved_widgets b w) n' e' (wifi_ok p n e)"
proof -
  have tag: "typed (btn_add_tag b (U x) \<bind> (\<lambda>t. State_Monad.return (w\<lparr>wf_current := Some t\<rparr>))) n' e2 (wifi_ok p n e)"
    if v: "wifi_ok p n e (w\<lparr>wf_current := t\<rparr>) n' e2" for t e2 x
  proof (rule typed_then [OF btn_add_tag_typed [OF v]])
    fix s n3 e3
    assume "s = n' \<and> n3 = Suc n' \<and> e3 = e2(n' \<mapsto> (Label, b))"
    with tag_added [OF v, of b] b show "typed (State_Monad.return (w\<lparr>wf_current := Some s\<rparr>)) n3 e3 (wifi_ok p n e)"
      by (simp add: typed_return)
  qed (use b in simp_all)
  have "(b, List_btn, n + 8) \<in> entries n w" using b by (auto simp: entries_def)
  note b' = wifi_facts(8) [OF w this]
  have old: "typed ((case wf_current w of None \<Rightarrow> State_Monad.return () | Some t \<Rightarrow> del t) \<bind> (\<lambda>_.
      btn_add_tag b (U x) \<bind> (\<lambda>t. State_Monad.return (w\<lparr>wf_current := Some t\<rparr>)))) n' e' (wifi_ok p n e)" for x
  proof (cases "wf_current w")
    case None
    then have "w\<lparr>wf_current := None\<rparr> = w" by (cases w) simp
    with w have "wifi_ok p n e (w\<lparr>wf_current := None\<rparr>) n' e'" by simp
    with None show ?thesis using tag [of None e'] by simp
  next
    case (Some t)
    note r = tag_removed [OF w Some]
    show ?thesis unfolding Some option.case by (intro typed_bind typed_del tag [OF r(2)] r(1))
  qed
  show ?thesis
    unfolding connect_saved_widgets_def
    by (intro typed_bind [of "on lv_list_get_btn_text _ _"] typed_bind [of "on lv_obj_get_user_data _ _"] typed_on old)
      (use b' wifi_ok_simps [OF w] in \<open>simp_all add: class_simps\<close>)
qed

lemma connect_wifi_typed:
  assumes w: "wifi_ok p n e w n' e'" and b: "b \<in> set (wf_scaned_btns w)" and d: "wf_dialog w = None"
  shows "typed (connect_wifi_widgets b t w) n' e' (wifi_ok p n e)"
proof -
  note l = layers_less [OF wifi_facts(1) [OF w]]
  note f = wifi_facts(4) [OF w]
  have new: "e' x = None" if "n' \<le> x" for x by (rule fresh_fromD [OF forest_facts(3) [OF f] that])
  have lay: "e' lv_layer_top = e lv_layer_top" "e' lv_layer_sys = e lv_layer_sys"
    using forest_facts(2) [OF f] l by auto
  have "(b, List_btn, n + 10) \<in> entries n w" using b by (auto simp: entries_def)
  note b' = wifi_facts(8) [OF w this]
  have less: "b < n'" "lv_layer_top < n'" "lv_layer_sys < n'"
    using fresh_from_less [OF forest_facts(3) [OF f] b'] l wifi_next [OF w] by simp_all
  show ?thesis
    unfolding connect_wifi_widgets_def
    by (intro typed_rules)
      (use dialog_added [OF w b d] l lay b' new less wifi_ok_simps [OF w] in \<open>auto simp: class_simps numeral_eq_Suc\<close>)
qed

lemma event_cb_typed:
  assumes w: "wifi_ok p n e w n' e'"
  shows "typed (event_cb_widgets confirm wsi w) n' e' (\<lambda>v n2 e2. wifi_ok p n e v n2 e2 \<and> wf_dialog v = None)"
proof (cases "wf_dialog w")
  case None
  with w show ?thesis by (simp add: event_cb_widgets_def typed_return)
next
  case (Some d)
  obtain i k b where d: "d = (i, k, b)" by (cases d)
  have "b \<in> set (wf_scaned_btns w)" using wifi_facts(10) [OF w] Some d by (simp add: dialog_ok_def)
  then have "(b, List_btn, n + 10) \<in> entries n w" by (auto simp: entries_def)
  note b = wifi_facts(8) [OF w this]
  have close: "typed (del i \<bind> (\<lambda>_. del k \<bind> (\<lambda>_. State_Monad.return (v\<lparr>wf_dialog := None\<rparr>)))) n2 e2
      (\<lambda>v n2 e2. wifi_ok p n e v n2 e2 \<and> wf_dialog v = None)" if v: "keeps_dialog p n e w v n2 e2" for v n2 e2
  proof -
    have "wf_dialog v = Some (i, k, b)" using v Some d by simp
    from dialog_removed [OF conjunct1 [OF v] this] show ?thesis
      by (intro typed_bind typed_del typed_return) simp_all
  qed
  have body: "typed (if confirm then on lv_list_get_btn_text (wf_scaned w) [H b] \<bind> (\<lambda>_. on lv_obj_get_user_data b [] \<bind> (\<lambda>_.
      read_saved_widgets wsi w)) else State_Monad.return w) n' e' (keeps_dialog p n e w)"
    by (intro typed_if typed_bind typed_on read_saved_typed [OF w] typed_return)
      (use b w wifi_ok_simps [OF w] in \<open>simp_all add: class_simps\<close>)
  show ?thesis
    unfolding event_cb_widgets_def Some d option.case prod.case by (rule typed_then [OF body close])
qed

lemma wifi_event_typed:
  assumes w: "wifi_ok p n e w n' e'"
  shows "typed (wifi_event_cb ev w) n' e' (wifi_ok p n e)"
proof (cases ev)
  case (Ev_update saved scan)
  then show ?thesis using wifi_update_typed [OF w] by simp
next
  case (Ev_angle v)
  then show ?thesis using w wifi_ok_simps(4) [OF w]
    by (auto intro!: typed_bind typed_on typed_return simp: class_simps)
next
  case Ev_anim_over
  then show ?thesis using w wifi_ok_flags(1) [OF w]
    by (auto intro!: typed_then [OF show_scan_typed [OF w]] typed_return)
next
  case (Ev_saved k)
  then show ?thesis using w connect_saved_typed [OF w, of "wf_saved_btns w ! k"] by (simp add: typed_return)
next
  case (Ev_scaned k t)
  then show ?thesis using w connect_wifi_typed [OF w, of "wf_scaned_btns w ! k" t] by (simp add: typed_return)
next
  case (Ev_dialog confirm wsi)
  then show ?thesis using typed_weaken [OF event_cb_typed [OF w]] by simp
qed (use w in \<open>auto intro!: typed_return typed_weaken [OF scan_btn_typed [OF w]]\<close>)

lemma wifi_events_typed: "wifi_ok p n e w n' e' \<Longrightarrow> typed (wifi_events evs w) n' e' (wifi_ok p n e)"
proof (induction evs arbitrary: w n' e')
  case (Cons ev evs)
  show ?case unfolding wifi_events.simps by (rule typed_then [OF wifi_event_typed [OF Cons.prems] Cons.IH])
qed (simp add: typed_return)

text \<open>The parts, with the two buttons that stand in for an empty list.\<close>

definition parts_env :: "nat \<Rightarrow> nat \<Rightarrow> env \<Rightarrow> env" where
  "parts_env p n e = e(n \<mapsto> (Img, p), n + 1 \<mapsto> (Obj, n), n + 2 \<mapsto> (Label, n + 1), n + 3 \<mapsto> (Switch, n + 1),
     n + 4 \<mapsto> (Label, n), n + 5 \<mapsto> (Obj, n), n + 6 \<mapsto> (Label, n), n + 7 \<mapsto> (Obj, n), n + 8 \<mapsto> (List_w, n + 5),
     n + 9 \<mapsto> (List_btn, n + 8), n + 10 \<mapsto> (List_w, n + 7), n + 11 \<mapsto> (List_btn, n + 10), n + 12 \<mapsto> (Label, n),
     n + 13 \<mapsto> (Img, n))"

lemma parts_forest:
  assumes "fresh_from n e" "e p \<noteq> None" "p < n"
  shows "forest n e {n} (n + 14) (parts_env p n e)"
proof (rule forestI)
  show "parts_env p n e h = e h" if "h < n" for h using that by (simp add: parts_env_def)
  show "fresh_from (n + 14) (parts_env p n e)"
    using assms(1) by (auto simp: fresh_from_def parts_env_def)
  fix h c q
  assume h: "n \<le> h" "parts_env p n e h = Some (c, q)"
  have "e h = None" using fresh_fromD [OF assms(1) h(1)] .
  with h have "(h = n \<and> q = p) \<or> (h \<noteq> n \<and> n \<le> q \<and> q < h \<and> q \<in> {n, n + 1, n + 5, n + 7, n + 8, n + 10})"
    by (simp add: parts_env_def split: if_splits)
  with assms show "if h \<in> {n} then q < n \<and> e q \<noteq> None else n \<le> q \<and> q < h \<and> parts_env p n e q \<noteq> None"
    by (auto simp: parts_env_def)
qed simp_all

lemma wifi_parts_typed:
  assumes w: "world n e" and p: "e p \<noteq> None"
  shows "typed (wifi_parts p enabled) n e (\<lambda>w n' e'. wifi_ok p n e w n' e' \<and> wf_dialog w = None)"
proof -
  have fr: "fresh_from n e" using w by (simp add: world_def)
  have pn: "p < n" using fresh_from_less [OF fr] p by blast
  have new: "e x = None" if "n \<le> x" for x by (rule fresh_fromD [OF fr that])
  have "typed (wifi_parts p enabled) n e (\<lambda>w n' e'. part_handles n w \<and> wf_dialog w = None \<and> wf_current w = None
      \<and> wf_saved_btns w = [] \<and> wf_scaned_btns w = [] \<and> n' = n + 14 \<and> e' = parts_env p n e)"
    unfolding wifi_parts_def
    by (intro typed_rules)
      (use p pn new in \<open>simp_all add: class_simps part_handles_def parts_env_def numeral_eq_Suc split: option.split\<close>)
  then show ?thesis
  proof (rule typed_weaken)
    fix v n' e'
    assume v: "part_handles n v \<and> wf_dialog v = None \<and> wf_current v = None
      \<and> wf_saved_btns v = [] \<and> wf_scaned_btns v = [] \<and> n' = n + 14 \<and> e' = parts_env p n e"
    have "wifi_ok p n e v (n + 14) (parts_env p n e)"
    proof (rule wifi_okI [OF w pn p])
      show "forest n e (insert n (dialog_roots v)) (n + 14) (parts_env p n e)"
        using parts_forest [OF fr p pn] v by (simp add: dialog_roots_def)
      show "parts_env p n e x = Some (c, q)" if "(x, c, q) \<in> set (parts p n)" for x c q
        using that by (auto simp: parts_def parts_env_def)
    qed (use v in \<open>auto simp: entries_def tagged_def\<close>)
    with v show "wifi_ok p n e v n' e' \<and> wf_dialog v = None" by simp
  qed
qed

lemma menu_wifi_typed:
  assumes w: "world n e" and p: "e p \<noteq> None"
  shows "typed (menu_wifi_widgets p enabled wsi) n e (wifi_ok p n e)"
  unfolding menu_wifi_widgets_def
proof (rule typed_then [OF wifi_parts_typed [OF assms]], rule typed_if)
  fix v n' e'
  assume v: "wifi_ok p n e v n' e' \<and> wf_dialog v = None"
  then show "typed (State_Monad.return v) n' e' (wifi_ok p n e)" by (simp add: typed_return)
  show "typed (read_saved_widgets wsi v \<bind> scan_btn_widgets False) n' e' (wifi_ok p n e)"
    by (rule typed_then [OF read_saved_typed [OF conjunct1 [OF v]]], rule typed_weaken [OF scan_btn_typed]) (use v in auto)
qed

text \<open>C18. The WiFi page gives back every widget. Whatever networks are saved and found, however the
  timer, the animation and the presses interleave, every call acts on a live object of its class,
  also the one that reads the button a password dialog was opened for, and leaving the page deletes
  exactly what it made.\<close>

theorem wifi_page_restores:
  assumes "world n e" "e parent \<noteq> None"
  shows "typed (wifi_session parent enabled wsi evs) n e (\<lambda>_ _ e'. e' = e)"
  unfolding wifi_session_def
proof (rule typed_then [OF menu_wifi_typed [OF assms]], rule typed_then [OF wifi_events_typed], assumption,
    rule typed_then [OF event_cb_typed], assumption)
  fix w n' e'
  assume w: "wifi_ok parent n e w n' e' \<and> wf_dialog w = None"
  note f = wifi_facts [OF conjunct1 [OF w]]
  have "forest n e {n} n' e'" using f(4) w by (simp add: dialog_roots_def)
  from forest_removed [OF this, of n] have "remove e' n = e"
    using forest_empty [of n e n' "remove e' n"] f(1) by (simp add: world_def)
  moreover have "wf_bg w = n" "e' n \<noteq> None"
    using f(5) f(6) [of n Img parent] by (simp_all add: part_handles_def parts_def)
  ultimately show "typed (menu_wifi_deinit_widgets w) n' e' (\<lambda>_ _ e'. e' = e)"
    unfolding menu_wifi_deinit_widgets_def by (intro typed_bind typed_anim_del typed_del) simp_all
qed

lemma wifi_page_restores_witness:
  "typed (wifi_session 0 True [header_row, home_row]
     [Ev_update None (Some (Some [(WPA, ''cafe'')])), Ev_saved 0, Ev_scaned 0 ''cafe'',
      Ev_update (Some [home_row]) (Some (Some [])), Ev_dialog True [home_row], Ev_scan]) 3
     [0 \<mapsto> (Obj, 0), 1 \<mapsto> (Obj, 1), 2 \<mapsto> (Obj, 2)] (\<lambda>_ _ e'. e' = [0 \<mapsto> (Obj, 0), 1 \<mapsto> (Obj, 1), 2 \<mapsto> (Obj, 2)])"
  by (rule wifi_page_restores) (simp_all add: world_def fresh_from_def lv_scr_act_def lv_layer_top_def lv_layer_sys_def)

end
