(* ===== verification/UI_Asr.thy ===== *)
theory UI_Asr
  imports UI_Base Asr
begin

text \<open>
  The recogniser's logo and its two labels (\<open>asr.c\<close>): their widgets, the animations that move them
  and the timer that shows and hides them, with the variables of \<open>Asr\<close>.
\<close>

subsection \<open>Animations\<close>

text \<open>
  A descriptor: what \<open>lv_anim_set_...\<close> put into it. \<open>None\<close> is what \<open>lv_anim_init\<close> left there. To
  start one is a call on the object it animates.
\<close>

record anim =
  an_var :: nat
  an_values :: "int \<times> int"
  an_time :: int
  an_delay :: "int option"
  an_exec :: string
  an_path :: string
  an_repeat :: "sym option"
  an_early :: "int option"

definition num_arg :: "int option \<Rightarrow> arg" where
  "num_arg x = (case x of None \<Rightarrow> Nul | Some i \<Rightarrow> I i)"

definition start :: "anim \<Rightarrow> unit gui" where
  "start a = on lv_anim_start (an_var a) [I (fst (an_values a)), I (snd (an_values a)), I (an_time a),
     num_arg (an_delay a), Cb (an_exec a), Cb (an_path a),
     (case an_repeat a of None \<Rightarrow> Nul | Some k \<Rightarrow> K k), num_arg (an_early a)]"

record icon_ui =
  ic_icon :: nat
  ic_label0 :: nat
  ic_label1 :: nat
  logo_anim :: anim
  label0_anim :: anim
  label1_anim :: anim
  label2_anim :: anim

definition dialog_anim :: "nat \<Rightarrow> int \<times> int \<Rightarrow> int option \<Rightarrow> string \<Rightarrow> anim" where
  "dialog_anim h vs delay cb = \<lparr>an_var = h, an_values = vs, an_time = 200, an_delay = delay, an_exec = cb,
     an_path = ''lv_anim_path_overshoot'', an_repeat = None, an_early = Some 0\<rparr>"

definition asr_icon_create :: "nat \<Rightarrow> icon_ui gui" where
  "asr_icon_create parent = do {
     icon \<leftarrow> lv_img_create parent;
     on lv_obj_align icon [K LV_ALIGN_BOTTOM_LEFT, I 50, I (-50)];
     on lv_img_set_src icon [Dsc ''asr_logo''];
     on lv_obj_add_flag icon [K LV_OBJ_FLAG_HIDDEN];
     label0 \<leftarrow> lv_label_create parent;
     on lv_obj_align label0 [K LV_ALIGN_BOTTOM_RIGHT, I (-50), I (-100)];
     on lv_obj_add_style label0 [Sty style_asr, K LV_PART_MAIN];
     on lv_obj_add_flag label0 [K LV_OBJ_FLAG_HIDDEN];
     label1 \<leftarrow> lv_label_create parent;
     on lv_obj_align label1 [K LV_ALIGN_BOTTOM_LEFT, I 180, I (-50)];
     on lv_obj_add_style label1 [Sty style_asr, K LV_PART_MAIN];
     on lv_obj_add_flag label1 [K LV_OBJ_FLAG_HIDDEN];
     State_Monad.return \<lparr>ic_icon = icon, ic_label0 = label0, ic_label1 = label1,
       logo_anim = \<lparr>an_var = icon, an_values = (0, 30), an_time = 2000, an_delay = None, an_exec = ''logo_anim_cb'',
         an_path = ''lv_anim_path_ease_in_out'', an_repeat = Some LV_ANIM_REPEAT_INFINITE, an_early = None\<rparr>,
       label0_anim = dialog_anim label0 (-20, -50) (Some 300) ''label0_anim_cb'',
       label1_anim = dialog_anim label1 (-20, -50) None ''label1_anim_cb'',
       label2_anim = dialog_anim label0 (-51, -100) None ''label2_anim_cb''\<rparr> }"

text \<open>What LVGL calls at every step \<open>v\<close> of an animation; \<open>var\<close> is the object it animates.\<close>

definition logo_anim_cb :: "nat \<Rightarrow> int \<Rightarrow> unit gui" where
  "logo_anim_cb var v = (let v = (if v > 15 then 30 - v else v) in
     on lv_obj_align var [K LV_ALIGN_BOTTOM_LEFT, I 50, I (-50 - v)])"

definition label0_anim_cb :: "nat \<Rightarrow> int \<Rightarrow> icon_ui \<Rightarrow> icon_ui gui" where
  "label0_anim_cb var v w = do {
     on lv_obj_add_flag (ic_label1 w) [K LV_OBJ_FLAG_HIDDEN];
     on lv_obj_clear_flag var [K LV_OBJ_FLAG_HIDDEN];
     on lv_obj_align var [K LV_ALIGN_BOTTOM_RIGHT, I (-50), I v];
     (if v = -50 then do {
        let w = w\<lparr>label1_anim := (label1_anim w)\<lparr>an_delay := Some 200\<rparr>,
                  label2_anim := (label2_anim w)\<lparr>an_delay := Some 200\<rparr>\<rparr>;
        start (label1_anim w);
        start (label2_anim w);
        State_Monad.return w }
      else State_Monad.return w) }"

definition label1_anim_cb :: "nat \<Rightarrow> int \<Rightarrow> unit gui" where
  "label1_anim_cb var v = do {
     on lv_obj_clear_flag var [K LV_OBJ_FLAG_HIDDEN];
     on lv_obj_align var [K LV_ALIGN_BOTTOM_LEFT, I 180, I v] }"

definition label2_anim_cb :: "nat \<Rightarrow> int \<Rightarrow> unit gui" where
  "label2_anim_cb var v = on lv_obj_align var [K LV_ALIGN_BOTTOM_RIGHT, I (-50), I v]"

subsection \<open>The timer\<close>

definition label_anims_del :: "unit gui" where
  "label_anims_del = do { anim_del ''label0_anim''; anim_del ''label1_anim''; anim_del ''label2_anim'' }"

text \<open>\<open>None\<close> is a command or an answer outside its table.\<close>

definition timer_cb_widgets :: "asr \<Rightarrow> icon_ui \<Rightarrow> asr option gui" where
  "timer_cb_widgets s w = do {
     s \<leftarrow> (if ar_wakeup s then
             (if \<not> ar_show s then do {
                start (logo_anim w);
                on lv_obj_clear_flag (ic_icon w) [K LV_OBJ_FLAG_HIDDEN];
                label_anims_del;
                State_Monad.return (s\<lparr>ar_show := True\<rparr>) }
              else State_Monad.return s)
           else
             (if ar_show s then do {
                on lv_obj_add_flag (ic_icon w) [K LV_OBJ_FLAG_HIDDEN];
                on lv_obj_add_flag (ic_label0 w) [K LV_OBJ_FLAG_HIDDEN];
                on lv_obj_add_flag (ic_label1 w) [K LV_OBJ_FLAG_HIDDEN];
                label_anims_del;
                State_Monad.return (s\<lparr>ar_show := False\<rparr>) }
              else State_Monad.return s));
     (if \<not> ar_wake_update s then State_Monad.return (Some s)
      else do {
        on lv_obj_add_flag (ic_label0 w) [K LV_OBJ_FLAG_HIDDEN];
        on lv_obj_add_flag (ic_label1 w) [K LV_OBJ_FLAG_HIDDEN];
        (case rd cmds (ar_wakeid s) of
           None \<Rightarrow> State_Monad.return None
         | Some c \<Rightarrow> do {
             on lv_label_set_text (ic_label0 w) [T (cm_en c)];
             (case rd answer_txt (cm_ans c) of
                None \<Rightarrow> State_Monad.return None
              | Some a \<Rightarrow> do {
                  on lv_label_set_text (ic_label1 w) [T a];
                  label_anims_del;
                  start (label0_anim w);
                  State_Monad.return (Some (s\<lparr>ar_wake_update := False\<rparr>)) }) }) }) }"

definition asr_icon_destroy :: "icon_ui \<Rightarrow> unit gui" where
  "asr_icon_destroy w = do {
     label_anims_del;
     anim_del ''logo_anim'';
     del (ic_label0 w);
     del (ic_label1 w);
     del (ic_icon w) }"

text \<open>
  The events: the recogniser's number, the timer, and a step of an animation with any value. LVGL
  passes the object an animation was started for.
\<close>

datatype icon_event = Heard int | Timer | Logo_step int | Label0_step int | Label1_step int | Label2_step int

fun icon_step :: "icon_event \<Rightarrow> asr \<times> icon_ui \<Rightarrow> (asr \<times> icon_ui) option gui" where
  "icon_step (Heard k) (s, w) = State_Monad.return (map_option (\<lambda>(_, s'). (s', w)) (asr_update k s))"
| "icon_step Timer (s, w) = do {
     r \<leftarrow> timer_cb_widgets s w; State_Monad.return (map_option (\<lambda>s. (s, w)) r) }"
| "icon_step (Logo_step v) (s, w) = do {
     logo_anim_cb (an_var (logo_anim w)) v; State_Monad.return (Some (s, w)) }"
| "icon_step (Label0_step v) (s, w) = do {
     w \<leftarrow> label0_anim_cb (an_var (label0_anim w)) v w; State_Monad.return (Some (s, w)) }"
| "icon_step (Label1_step v) (s, w) = do {
     label1_anim_cb (an_var (label1_anim w)) v; State_Monad.return (Some (s, w)) }"
| "icon_step (Label2_step v) (s, w) = do {
     label2_anim_cb (an_var (label2_anim w)) v; State_Monad.return (Some (s, w)) }"

fun icon_run :: "icon_event list \<Rightarrow> asr \<times> icon_ui \<Rightarrow> (asr \<times> icon_ui) option gui" where
  "icon_run [] x = State_Monad.return (Some x)"
| "icon_run (ev # evs) x = do {
     r \<leftarrow> icon_step ev x;
     (case r of None \<Rightarrow> State_Monad.return None | Some y \<Rightarrow> icon_run evs y) }"

subsection \<open>Properties\<close>

text \<open>The hidden flag of an object, by the calls recorded; a new object is shown.\<close>

fun hidden :: "call list \<Rightarrow> nat \<Rightarrow> bool" where
  "hidden [] h = False"
| "hidden (Create c p as x # cs) h = (x \<noteq> h \<and> hidden cs h)"
| "hidden (On f x as # cs) h =
     (if x = h \<and> as = [K LV_OBJ_FLAG_HIDDEN] \<and> f = lv_obj_add_flag then True
      else if x = h \<and> as = [K LV_OBJ_FLAG_HIDDEN] \<and> f = lv_obj_clear_flag then False
      else hidden cs h)"
| "hidden (_ # cs) h = hidden cs h"

definition icon_objs :: "icon_ui \<Rightarrow> bool" where
  "icon_objs w = (distinct [ic_icon w, ic_label0 w, ic_label1 w] \<and> an_var (logo_anim w) = ic_icon w
     \<and> an_var (label0_anim w) = ic_label0 w \<and> an_var (label1_anim w) = ic_label1 w
     \<and> an_var (label2_anim w) = ic_label0 w)"

definition icon_inv :: "asr \<Rightarrow> icon_ui \<Rightarrow> ui \<Rightarrow> bool" where
  "icon_inv s w u = (icon_objs w \<and> hidden (ui.log u) (ic_icon w) = (\<not> ar_show s))"

lemmas icon_run_simps = State_Monad.bind_def State_Monad.return_def on_def create_with_def anim_del_def del_def
  start_def label_anims_del_def

lemma icon_create_inv:
  assumes "run_state (asr_icon_create p) u = (w, u')" "\<not> ar_show s"
  shows "icon_inv s w u'"
  using assms by (auto simp: asr_icon_create_def icon_run_simps icon_inv_def icon_objs_def dialog_anim_def)

lemma timer_cb_state: "fst (run_state (timer_cb_widgets s w) u) = map_option snd (timer_cb s)"
  by (simp add: timer_cb_widgets_def timer_cb_def icon_run_simps Let_def split: option.splits)

lemma timer_cb_inv:
  assumes "run_state (timer_cb_widgets s w) u = (Some s', u')" "icon_inv s w u"
  shows "icon_inv s' w u' \<and> ar_show s' = ar_wakeup s' \<and> ar_wakeup s' = ar_wakeup s"
  using assms
  by (auto simp: timer_cb_widgets_def icon_run_simps icon_inv_def icon_objs_def split: if_splits option.splits)

lemma icon_step_inv:
  assumes "run_state (icon_step ev (s, w)) u = (Some (s', w'), u')" "icon_inv s w u"
  shows "icon_inv s' w' u'"
proof (cases ev)
  case (Heard k)
  with assms show ?thesis
    by (auto simp: icon_run_simps icon_inv_def asr_update_def split: if_splits option.splits)
next
  case Timer
  with assms show ?thesis
    by (auto simp: State_Monad.bind_def State_Monad.return_def dest: timer_cb_inv split: prod.splits)
qed (use assms in \<open>auto simp: icon_run_simps icon_inv_def icon_objs_def logo_anim_cb_def label0_anim_cb_def
  label1_anim_cb_def label2_anim_cb_def Let_def split: if_splits\<close>)

lemma icon_step_None:
  assumes "asr_ok s" "run_state (icon_step ev (s, w)) u = (r, u')"
  shows "(r = None) = (ev = Heard 22) \<and> (r = Some (s', w') \<longrightarrow> asr_ok s')"
proof (cases ev)
  case (Heard k)
  with assms show ?thesis
    using asr_update_ok [OF assms(1), of k] asr_update_None [of k s]
    by (auto simp: State_Monad.return_def split: prod.splits)
next
  case Timer
  obtain q v where q: "run_state (timer_cb_widgets s w) u = (q, v)" by fastforce
  with timer_cb_state [of s w u] timer_cb_ok [OF assms(1)] obtain c s1 where "q = Some s1" "asr_ok s1"
    by auto
  with q assms(2) Timer show ?thesis by (auto simp: State_Monad.bind_def State_Monad.return_def)
qed (use assms in \<open>auto simp: State_Monad.bind_def State_Monad.return_def split: prod.splits\<close>)

definition icon_after :: "icon_event list \<Rightarrow> (asr \<times> icon_ui) option \<times> ui \<Rightarrow> bool" where
  "icon_after evs x = (case x of
     (None, u) \<Rightarrow> Heard 22 \<in> set evs
   | (Some (s, w), u) \<Rightarrow> Heard 22 \<notin> set evs \<and> asr_ok s \<and> icon_inv s w u)"

lemma icon_run_inv:
  "asr_ok s \<Longrightarrow> icon_inv s w u \<Longrightarrow> icon_after evs (run_state (icon_run evs (s, w)) u)"
proof (induction evs arbitrary: s w u)
  case Nil
  then show ?case by (simp add: icon_after_def State_Monad.return_def)
next
  case (Cons ev evs)
  obtain r v where r: "run_state (icon_step ev (s, w)) u = (r, v)" by fastforce
  show ?case
  proof (cases r)
    case None
    with icon_step_None [OF Cons.prems(1) r] r show ?thesis
      by (simp add: icon_after_def State_Monad.bind_def State_Monad.return_def)
  next
    case (Some x)
    obtain s1 w1 where x: "x = (s1, w1)" by (cases x)
    have "asr_ok s1" "ev \<noteq> Heard 22"
      using icon_step_None [OF Cons.prems(1) r, of s1 w1] Some x by auto
    moreover have "icon_inv s1 w1 v" by (rule icon_step_inv [OF _ Cons.prems(2)]) (use r Some x in simp)
    ultimately show ?thesis using Cons.IH [of s1 w1 v] r
      by (auto simp: Some x icon_after_def State_Monad.bind_def split: option.splits prod.splits)
  qed
qed

lemma icon_run_append:
  "icon_run (evs @ evs') x = icon_run evs x \<bind> (\<lambda>r. case r of None \<Rightarrow> State_Monad.return None | Some y \<Rightarrow> icon_run evs' y)"
proof (induction evs arbitrary: x)
  case (Cons ev evs)
  show ?case
    by (simp add: Cons.IH State_Monad.bind_def State_Monad.return_def fun_eq_iff split: option.splits prod.splits)
qed (simp add: State_Monad.bind_def State_Monad.return_def)

text \<open>C38. The logo follows the recogniser: whatever it heard, in whatever order the timer and the
  steps of the animations ran, right after the timer the logo is shown exactly while the recogniser
  is awake. The only way not to get there is the command 22, which is outside the table.\<close>

theorem asr_icon_follows_wakeup:
  "case run_state (asr_icon_create p \<bind> (\<lambda>w. icon_run (evs @ [Timer]) (asr_boot, w))) u of
     (None, u') \<Rightarrow> Heard 22 \<in> set evs
   | (Some (s, w), u') \<Rightarrow> Heard 22 \<notin> set evs \<and> hidden (ui.log u') (ic_icon w) = (\<not> ar_wakeup s)"
proof -
  obtain w1 u1 where w1: "run_state (asr_icon_create p) u = (w1, u1)" by fastforce
  have "icon_inv asr_boot w1 u1" by (rule icon_create_inv [OF w1]) (simp add: asr_boot_def)
  note run = icon_run_inv [OF asr_boot_ok this, of evs]
  obtain r u2 where r: "run_state (icon_run evs (asr_boot, w1)) u1 = (r, u2)" by fastforce
  show ?thesis
  proof (cases r)
    case None
    with run r w1 show ?thesis
      by (simp add: icon_run_append icon_after_def State_Monad.bind_def State_Monad.return_def)
  next
    case (Some x)
    obtain s w where x: "x = (s, w)" by (cases x)
    with run r Some have i: "asr_ok s" "icon_inv s w u2" "Heard 22 \<notin> set evs" by (auto simp: icon_after_def)
    obtain q u3 where q: "run_state (timer_cb_widgets s w) u2 = (q, u3)" by fastforce
    with timer_cb_state [of s w u2] timer_cb_ok [OF i(1)] obtain s1 where s1: "q = Some s1" by auto
    from timer_cb_inv [OF _ i(2)] q s1 have "icon_inv s1 w u3" "ar_show s1 = ar_wakeup s1" by auto
    with w1 r q s1 i(3) show ?thesis
      by (simp add: icon_run_append Some x icon_inv_def State_Monad.bind_def State_Monad.return_def)
  qed
qed

subsection \<open>The widgets\<close>

definition asr_ctx :: "icon_ui \<Rightarrow> ctx" where
  "asr_ctx w = [(ic_label1 w, [(ic_label1 w, Label)]), (ic_label0 w, [(ic_label0 w, Label)]),
     (ic_icon w, [(ic_icon w, Img)])]"

definition icon_vars :: "icon_ui \<Rightarrow> bool" where
  "icon_vars w = (an_var (logo_anim w) = ic_icon w \<and> an_var (label0_anim w) = ic_label0 w
     \<and> an_var (label1_anim w) = ic_label1 w \<and> an_var (label2_anim w) = ic_label0 w)"

lemma makes_anim_del: "makes F (anim_del a) (\<lambda>_. True) (\<lambda>_. F)"
  by (rule makesI, rule typed_anim_del) simp

lemma makes_dels: "makes F label_anims_del (\<lambda>_. True) (\<lambda>_. F)"
  unfolding label_anims_del_def by (intro makes_bind [OF makes_anim_del] makes_anim_del)

lemma makes_start: "allowed F (an_var a) (\<lambda>_. True) \<Longrightarrow> makes F (start a) (\<lambda>_. True) (\<lambda>_. F)"
  unfolding start_def by (intro ends; simp add: makes_simps num_arg_def split: option.split)

lemma asr_icon_makes: "makes F (asr_icon_create lv_layer_sys) icon_vars (\<lambda>w. asr_ctx w @ F)"
  unfolding asr_icon_create_def
  by (intro steps ends; simp add: makes_simps icon_vars_def asr_ctx_def dialog_anim_def)

lemma asr_ctx_allowed:
  "allowed (asr_ctx w @ F) (ic_icon w) (\<lambda>_. True)"
  "allowed (asr_ctx w @ F) (ic_label0 w) (\<lambda>_. True)" "allowed (asr_ctx w @ F) (ic_label1 w) (\<lambda>_. True)"
  "allowed (asr_ctx w @ F) (ic_label0 w) (fits lv_label_set_text)"
  "allowed (asr_ctx w @ F) (ic_label1 w) (fits lv_label_set_text)"
  by (simp_all add: asr_ctx_def makes_simps)

lemma makes_finish: "makes F (State_Monad.return x) (\<lambda>_. True) (\<lambda>_. F)"
  by (rule makes_done) simp_all

lemma timer_makes:
  assumes "icon_vars w"
  shows "makes (asr_ctx w @ F) (timer_cb_widgets s w) (\<lambda>_. True) (\<lambda>_. asr_ctx w @ F)"
proof -
  let ?keeps = "\<lambda>m. makes (asr_ctx w @ F) m (\<lambda>_. True) (\<lambda>_. asr_ctx w @ F)"
  note a = asr_ctx_allowed [of w F]
  have l: "?keeps (start (logo_anim w))" "?keeps (start (label0_anim w))"
    using assms a by (simp_all add: makes_start icon_vars_def)
  have c: "?keeps (on lv_obj_add_flag h [K k])" "?keeps (on lv_obj_clear_flag h [K k])"
    if "h \<in> {ic_icon w, ic_label0 w, ic_label1 w}" for h k
    using that a by (auto intro!: makes_on simp: fits_any)
  have t: "?keeps (on lv_label_set_text h [T x])" if "h \<in> {ic_label0 w, ic_label1 w}" for h x
    using that a by (auto intro!: makes_on)
  have show_hide: "?keeps (if ar_wakeup s then
        (if \<not> ar_show s then do {
           start (logo_anim w); on lv_obj_clear_flag (ic_icon w) [K LV_OBJ_FLAG_HIDDEN];
           label_anims_del; State_Monad.return (s\<lparr>ar_show := True\<rparr>) } else State_Monad.return s)
      else (if ar_show s then do {
           on lv_obj_add_flag (ic_icon w) [K LV_OBJ_FLAG_HIDDEN]; on lv_obj_add_flag (ic_label0 w) [K LV_OBJ_FLAG_HIDDEN];
           on lv_obj_add_flag (ic_label1 w) [K LV_OBJ_FLAG_HIDDEN];
           label_anims_del; State_Monad.return (s\<lparr>ar_show := False\<rparr>) } else State_Monad.return s))"
    by (intro makes_if makes_bind [OF l(1)] makes_bind [OF c(1)] makes_bind [OF c(2)] makes_bind [OF makes_dels]
      makes_finish) simp_all
  show ?thesis
    unfolding timer_cb_widgets_def
    by (rule makes_bind [OF show_hide], rule makes_if, rule makes_finish)
      (intro makes_bind [OF c(1)], auto split: option.splits
        intro!: makes_bind [OF t] makes_bind [OF makes_dels] makes_bind [OF l(2)] makes_finish)
qed

lemma icon_step_makes:
  assumes "icon_vars w"
  shows "makes (asr_ctx w @ F) (icon_step ev (s, w))
    (\<lambda>r. case r of None \<Rightarrow> True | Some (s', w') \<Rightarrow> asr_ctx w' = asr_ctx w \<and> icon_vars w') (\<lambda>_. asr_ctx w @ F)"
proof (cases ev)
  case (Heard k)
  then show ?thesis using assms by (auto intro!: makes_done split: option.splits)
next
  case Timer
  then show ?thesis using assms by (auto intro!: makes_bind [OF timer_makes] makes_done split: option.splits)
next
  case (Label0_step v)
  note a = asr_ctx_allowed [of w F]
  have v: "an_var (label0_anim w) = ic_label0 w" using assms by (simp add: icon_vars_def)
  have st: "makes (asr_ctx w @ F) (start x) (\<lambda>_. True) (\<lambda>_. asr_ctx w @ F)"
    if "an_var x \<in> {ic_label0 w, ic_label1 w}" for x
    using that a by (auto intro: makes_start)
  have c: "makes (asr_ctx w @ F) (on f h as) (\<lambda>_. True) (\<lambda>_. asr_ctx w @ F)"
    if "h \<in> {ic_label0 w, ic_label1 w}" "fits f = (\<lambda>_. True)" "list_all (ok_arg (asr_ctx w @ F)) as" for f h as
    using that a by (auto intro!: makes_on)
  have "makes (asr_ctx w @ F) (label0_anim_cb (an_var (label0_anim w)) v w)
      (\<lambda>w'. asr_ctx w' = asr_ctx w \<and> icon_vars w') (\<lambda>_. asr_ctx w @ F)"
    unfolding label0_anim_cb_def Let_def v
    by (intro makes_bind [OF c] makes_if makes_bind [OF st] makes_done;
        use assms in \<open>simp add: icon_vars_def asr_ctx_def fits_any\<close>)
  then show ?thesis unfolding Label0_step icon_step.simps
    by (rule makes_bind) (auto intro!: makes_done)
qed (use assms asr_ctx_allowed [of w F] in \<open>auto simp: logo_anim_cb_def label1_anim_cb_def label2_anim_cb_def Let_def
  icon_vars_def makes_simps fits_any intro!: makes_assoc makes_bind [OF makes_on] makes_done\<close>)

lemma icon_run_makes:
  "icon_vars w \<Longrightarrow> makes (asr_ctx w @ F) (icon_run evs (s, w)) (\<lambda>_. True) (\<lambda>_. asr_ctx w @ F)"
proof (induction evs arbitrary: s w)
  case (Cons ev evs)
  show ?case
    unfolding icon_run.simps
  proof (rule makes_bind [OF icon_step_makes [OF Cons.prems]])
    fix r :: "(asr \<times> icon_ui) option"
    assume "case r of None \<Rightarrow> True | Some (s', w') \<Rightarrow> asr_ctx w' = asr_ctx w \<and> icon_vars w'"
    then show "makes (asr_ctx w @ F) (case r of None \<Rightarrow> State_Monad.return None | Some y \<Rightarrow> icon_run evs y)
        (\<lambda>_. True) (\<lambda>_. asr_ctx w @ F)"
      using Cons.IH by (cases r) (fastforce intro: makes_finish split: prod.splits)+
  qed
qed (simp add: makes_finish)

definition icon_session :: "icon_event list \<Rightarrow> unit gui" where
  "icon_session evs = do {
     w \<leftarrow> asr_icon_create lv_layer_sys;
     r \<leftarrow> icon_run evs (asr_boot, w);
     asr_icon_destroy w }"

text \<open>Creating the logo, any run of its timer and animations, and destroying it acts on live objects
  only and gives back its three widgets.\<close>

theorem asr_icon_restores:
  assumes "world n e"
  shows "typed (icon_session evs) n e (\<lambda>_ _ e'. e' = e)"
proof -
  have d: "makes [] (icon_session evs) (\<lambda>_. True) (\<lambda>_. [])"
    unfolding icon_session_def
  proof (rule makes_bind [OF asr_icon_makes [of "[]"]])
    fix w
    assume w: "icon_vars w"
    have "makes (asr_ctx w @ []) (asr_icon_destroy w) (\<lambda>_. True) (\<lambda>_. [])"
      unfolding asr_icon_destroy_def
      by (intro makes_bind [OF makes_dels] makes_bind [OF makes_anim_del])
        (simp add: asr_ctx_def makes_bind [OF makes_del_old] makes_bind [OF makes_del] makes_del)
    then show "makes (asr_ctx w @ []) (icon_run evs (asr_boot, w) \<bind> (\<lambda>r. asr_icon_destroy w)) (\<lambda>_. True) (\<lambda>_. [])"
      by (rule makes_bind [OF icon_run_makes [OF w]])
  qed
  from makes_nothing [OF this assms] show ?thesis by simp
qed

lemma asr_icon_restores_witness:
  "typed (icon_session [Heard 0, Timer, Logo_step 3, Label0_step (-50), Label1_step (-50), Heard (-1), Timer]) 3
     [0 \<mapsto> (Obj, 0), 1 \<mapsto> (Obj, 1), 2 \<mapsto> (Obj, 2)] (\<lambda>_ _ e'. e' = [0 \<mapsto> (Obj, 0), 1 \<mapsto> (Obj, 1), 2 \<mapsto> (Obj, 2)])"
  by (rule asr_icon_restores) (simp add: world_def fresh_from_def lv_scr_act_def lv_layer_top_def lv_layer_sys_def)

text \<open>
  The timer hides the labels when the recogniser falls asleep, but \<open>lv_anim_del\<close> is given the
  address of a descriptor, which no animation has as its object: an animation that still runs
  shows its label again.
\<close>

lemma label_shown_asleep:
  assumes "icon_objs w" "ar_show s" "\<not> ar_wakeup s" "\<not> ar_wake_update s" "v \<noteq> -50"
  shows "case run_state (icon_run [Timer] (s, w)) u of
      (_, u') \<Rightarrow> hidden (ui.log u') (ic_icon w) \<and> hidden (ui.log u') (ic_label0 w) \<and> hidden (ui.log u') (ic_label1 w)"
    and "case run_state (icon_run [Timer, Label0_step v] (s, w)) u of
      (_, u') \<Rightarrow> hidden (ui.log u') (ic_icon w) \<and> \<not> hidden (ui.log u') (ic_label0 w)"
  using assms by (auto simp: icon_objs_def timer_cb_widgets_def label0_anim_cb_def icon_run_simps)

end
