(* ===== verification/Call_Stream.thy ===== *)
theory Call_Stream
  imports Audio_Call
begin

text \<open>
  A call from end to end: what the caller's capture thread writes to the socket
  (\<open>rockit/audio_client.c\<close>, \<open>audio_in.c\<close>) and what the callee's server plays of it
  (\<open>rockit/audio_server.c\<close>, \<open>audio_out.c\<close>). Between them is a TCP connection: the segments that
  arrive are the bytes written, in order, cut anywhere.
\<close>

subsection \<open>The caller\<close>

text \<open>\<open>ai_write\<close>: the bytes sent and the value returned. \<open>num\<close> is the result of \<open>write\<close>, which sent that
  many bytes of the buffer; a null buffer is refused with 0.\<close>

fun ai_write :: "u8 list option \<Rightarrow> int \<Rightarrow> u8 list \<times> int" where
  "ai_write None num = ([], 0)"
| "ai_write (Some buf) num = (take (nat num) buf, num)"

text \<open>
  The loop of \<open>do_cap\<close> while its state is running. A turn is the result of \<open>GetStream\<close>, the frame
  where its address is not null, and the result of \<open>write\<close>.
\<close>

type_synonym cap_turn_in = "int \<times> u8 list option \<times> int"

fun do_cap_sent :: "cap_turn_in list \<Rightarrow> u8 list list" where
  "do_cap_sent [] = []"
| "do_cap_sent ((get, frame, num) # turns) =
     (case ai_write frame num of
        (bytes, hook) \<Rightarrow>
          (let sent = (if get = 0 \<and> frame \<noteq> None then [bytes] else [])
           in if fst (ai_fetch get frame hook) = -1 then sent else sent @ do_cap_sent turns))"

subsection \<open>The callee\<close>

lemma ao_read_split:
  "ao_read (\<lambda>_. True) k n segs = (Some buf, rest) \<Longrightarrow> concat segs = buf @ concat rest \<and> length buf = n"
proof (induction n arbitrary: k segs buf rest rule: less_induct)
  case (less n)
  show ?case
  proof (cases "n = 0")
    case True
    with less.prems show ?thesis by (simp add: ao_read.simps [of _ _ 0])
  next
    case False
    obtain d segs' where d: "sock_read n segs = (d, segs')" by fastforce
    note s = sock_read_split [OF d]
    obtain q r where q: "ao_read (\<lambda>_. True) (Suc k) (n - length d) segs' = (q, r)" by fastforce
    have "d \<noteq> []" using less.prems False d by (subst (asm) ao_read.simps) auto
    moreover from this obtain b where "q = Some b" "buf = d @ b" "rest = r"
      using less.prems False d q by (subst (asm) ao_read.simps) auto
    ultimately show ?thesis using less.IH [of "n - length d" "Suc k" segs' b r] q s False by simp
  qed
qed

lemma ao_read_shorter:
  assumes "(Some buf, rest) = ao_read (\<lambda>_. True) 0 1024 segs"
  shows "length (concat rest) < length (concat segs)"
  using ao_read_split [OF assms [symmetric]] by simp

text \<open>
  The loop of the session while its state is running: \<open>sent k\<close> is the result of the \<open>k\<close>-th
  \<open>SendStream\<close>.
\<close>

function (sequential) session_plays :: "(nat \<Rightarrow> int) \<Rightarrow> nat \<Rightarrow> u8 list list \<Rightarrow> push_state \<Rightarrow> frame list" where
  "session_plays sent k segs p =
     (case ao_read (\<lambda>_. True) 0 1024 segs of
        (None, rest) \<Rightarrow> []
      | (Some buf, rest) \<Rightarrow>
          (case ao_push (Some buf) (sent k) p of
             (fs, r, p') \<Rightarrow> if r = -1 then fs else fs @ session_plays sent (Suc k) rest p'))"
  by pat_completeness auto
termination
  by (relation "measure (\<lambda>(sent, k, segs, p). length (concat segs))")
    (simp, simp only: in_measure prod.case, erule ao_read_shorter)

declare session_plays.simps [simp del]

fun frame_bytes :: "frame \<Rightarrow> u8 list" where
  "frame_bytes (Frame buf t c) = buf"

fun frame_time :: "frame \<Rightarrow> nat" where
  "frame_time (Frame buf t c) = t"

subsection \<open>Properties\<close>

lemma ao_read_no_empty:
  "[] \<notin> set segs \<Longrightarrow> [] \<notin> set (snd (ao_read (\<lambda>_. True) k n segs))"
proof (induction n arbitrary: k segs rule: less_induct)
  case (less n)
  show ?case
  proof (cases "n = 0")
    case True
    with less.prems show ?thesis by (simp add: ao_read.simps [of _ _ 0])
  next
    case False
    obtain d segs' where d: "sock_read n segs = (d, segs')" by fastforce
    from sock_read_progress [OF d _ less.prems] False have "[] \<notin> set segs'" by simp
    with less.IH [of "n - length d" segs' "Suc k"] d False show ?thesis
      by (subst ao_read.simps) (auto split: prod.splits)
  qed
qed

lemma session_plays_stream:
  assumes "[] \<notin> set segs" "\<And>k. sent k \<noteq> -1"
  shows "concat (map frame_bytes (session_plays sent k segs p)) =
      take (1024 * (length (concat segs) div 1024)) (concat segs)
    \<and> length (session_plays sent k segs p) = length (concat segs) div 1024
    \<and> map frame_time (session_plays sent k segs p) = [ps_time p ..< ps_time p + length (concat segs) div 1024]"
  using assms(1)
proof (induction "length (concat segs)" arbitrary: k segs p rule: less_induct)
  case less
  obtain q rest where q: "ao_read (\<lambda>_. True) 0 1024 segs = (q, rest)" by fastforce
  note a = ao_read_next_block [OF less.prems, of 0 1024, unfolded q fst_conv snd_conv]
  show ?case
  proof (cases "1024 \<le> length (concat segs)")
    case False
    with a q show ?thesis by (simp add: session_plays.simps [of _ _ segs])
  next
    case True
    let ?S = "concat segs"
    from a True have q': "q = Some (take 1024 ?S)" "concat rest = drop 1024 ?S" by simp_all
    have ne: "[] \<notin> set rest" using ao_read_no_empty [OF less.prems, of 0 1024] q by simp
    let ?p = "p\<lparr>ps_time := ps_time p + 1, ps_count := ps_count p + 1\<rparr>"
    have f: "session_plays sent k segs p =
        Frame (take 1024 ?S) (ps_time p) (ps_count p + 1) # session_plays sent (Suc k) rest ?p"
      using q q'(1) assms(2) [of k] by (subst session_plays.simps) (simp add: ao_push_def)
    have L: "length ?S div 1024 = Suc (length (concat rest) div 1024)"
      using True by (simp add: q'(2) le_div_geq)
    have "length (concat rest) < length ?S" using True q'(2) by simp
    from less.hyps [OF this ne, of "Suc k" ?p] have
      IH: "concat (map frame_bytes (session_plays sent (Suc k) rest ?p)) =
          take (1024 * (length (concat rest) div 1024)) (drop 1024 ?S)"
        "length (session_plays sent (Suc k) rest ?p) = length (concat rest) div 1024"
        "map frame_time (session_plays sent (Suc k) rest ?p) =
          [Suc (ps_time p) ..< Suc (ps_time p) + length (concat rest) div 1024]"
      by (simp_all add: q'(2))
    have "take (1024 * (length ?S div 1024)) ?S =
        take 1024 ?S @ take (1024 * (length (concat rest) div 1024)) (drop 1024 ?S)"
      unfolding L by (simp add: take_add)
    with IH L show ?thesis unfolding f by (simp add: upt_conv_Cons)
  qed
qed

lemma do_cap_sent_full:
  "\<forall>(get, frame, num) \<in> set turns. \<exists>buf. get = 0 \<and> frame = Some buf \<and> buf \<noteq> [] \<and> num = int (length buf) \<Longrightarrow>
    do_cap_sent turns = map (\<lambda>(get, frame, num). the frame) turns"
  by (induction turns rule: do_cap_sent.induct) (auto simp: ai_fetch_def)


definition tone :: "u8 list" where
  "tone = replicate 512 7"


text \<open>
  A \<open>write\<close> that takes only a part of a frame is a success for \<open>ai_fetch\<close>: the rest is lost and
  the capture goes on, so the sound after it is out of step with the blocks.
\<close>

lemma partial_write_loses:
  assumes "0 < n" "n < length buf"
  shows "do_cap_sent ((0, Some buf, int n) # turns) = take n buf # do_cap_sent turns"
  using assms by (simp add: ai_fetch_def)

end
