(* ===== verification/Main_Loop.thy ===== *)
theory Main_Loop
  imports Backlight Pages
begin

text \<open>
  The program from start to end: \<open>main\<close> of \<open>main.c\<close>, with the backlight and the pages running
  under LVGL's loop. What one call of \<open>lv_task_handler\<close> runs, and the signals, are inputs. LVGL
  hands a press to the program only while its input devices are enabled, and it is the
  backlight that disables them, so the two components meet here.
\<close>

subsection \<open>Fonts and styles\<close>

datatype lv_color = Lv_color_black

definition style_init :: "'f \<Rightarrow> 'f \<Rightarrow> 'f \<Rightarrow> (string \<times> 'f \<times> lv_color) list" where
  "style_init font_s font_m font_l =
     [(''style_txt_s'', font_s, Lv_color_black), (''style_txt_m'', font_m, Lv_color_black),
      (''style_txt_l'', font_l, Lv_color_black)]"

text \<open>\<open>ft\<close> is the font that \<open>lv_ft_font_init\<close> makes for a weight.\<close>

definition app_init :: "(int \<Rightarrow> 'f) \<Rightarrow> (int \<Rightarrow> int) \<Rightarrow> int \<Rightarrow> int \<Rightarrow> (string \<times> 'f \<times> lv_color) list" where
  "app_init ft lv_pct scr_w scr_h =
     (case font_init lv_pct scr_w scr_h of (s, m, l) \<Rightarrow> style_init (ft s) (ft m) (ft l))"

subsection \<open>What runs in a turn of the loop\<close>

text \<open>The build and the machine: its switches, what the system calls return, and LVGL's event codes.\<close>

record board =
  rockit_en :: bool
  wifibt_en :: bool
  sched_ret :: int
  has_lsensor :: bool
  has_psensor :: bool
  node_fd :: int
  indevs :: nat
  ev_pressed :: int
  ev_released :: int

text \<open>\<open>pg_calls\<close> collects the calls of the backlight.\<close>

record prog =
  pg_quit :: bool
  pg_bk :: backlight
  pg_calls :: "bk_call list"
  pg_nav :: nav

text \<open>
  A press on a page, a choice of the screen timeout on the settings page, a press that LVGL
  reports to the driver's feedback, the timers of the sensors and of the backlight, and the
  timer of the home page that takes the snapshot.
\<close>

datatype task =
    T_click nav_event bool
  | T_timeout int
  | T_touch u32 int
  | T_sensor bk_event
  | T_snapshot bool

definition input_on :: "prog \<Rightarrow> bool" where
  "input_on s = snd (panel (pg_calls s) (0, True))"

definition run_bk :: "board \<Rightarrow> bk_event \<Rightarrow> prog \<Rightarrow> prog option" where
  "run_bk b e s = (case bk_handle (ev_pressed b) (ev_released b) e (pg_bk s) of
       None \<Rightarrow> None
     | Some (c, bk) \<Rightarrow> Some (s\<lparr>pg_bk := bk, pg_calls := pg_calls s @ c\<rparr>))"

fun task_run :: "board \<Rightarrow> config \<Rightarrow> task \<Rightarrow> prog \<Rightarrow> prog option" where
  "task_run b cf (T_click ev ok) s =
     Some (if input_on s then s\<lparr>pg_nav := nav_step cf (ev, ok) (pg_nav s)\<rparr> else s)"
| "task_run b cf (T_timeout sel) s =
     (if input_on s \<and> nv_main (pg_nav s) Settings > 0 then run_bk b (Ev_timeout sel) s else Some s)"
| "task_run b cf (T_touch tick code) s =
     (if input_on s then run_bk b (Ev_touch tick code) s else Some s)"
| "task_run b cf (T_sensor e) s = run_bk b e s"
| "task_run b cf (T_snapshot ok) s = Some (s\<lparr>pg_nav := nav_step cf (N_snapshot, ok) (pg_nav s)\<rparr>)"

text \<open>\<open>lv_task_handler\<close>: the tasks that are due, one after the other. \<open>None\<close> where one does not return.\<close>

fun lv_task_handler :: "board \<Rightarrow> config \<Rightarrow> task list \<Rightarrow> prog \<Rightarrow> prog option" where
  "lv_task_handler b cf [] s = Some s"
| "lv_task_handler b cf (t # ts) s = Option.bind (task_run b cf t s) (lv_task_handler b cf ts)"

subsection \<open>The program\<close>

text \<open>
  A signal that arrives during a turn. Only that for \<open>SIGINT\<close> has a handler, the other ends the
  process at once, the action the system has for it.
\<close>

datatype signal = SIGINT | SIGTERM

type_synonym turn = "task list \<times> signal option"

definition sigterm_handler :: "prog \<Rightarrow> prog" where
  "sigterm_handler s = s\<lparr>pg_quit := True\<rparr>"

text \<open>\<open>Looping\<close>: still in the loop when the given turns are over. \<open>Stuck\<close>: in a task.\<close>

datatype outcome = Returned prog | Killed prog | Looping prog | Stuck

fun main_loop :: "board \<Rightarrow> config \<Rightarrow> turn list \<Rightarrow> prog \<Rightarrow> outcome" where
  "main_loop b cf turns s =
     (if pg_quit s then Returned s
      else case turns of
          [] \<Rightarrow> Looping s
        | (ts, sg) # rest \<Rightarrow>
            (case lv_task_handler b cf ts s of
               None \<Rightarrow> Stuck
             | Some s' \<Rightarrow>
                 (case sg of
                    None \<Rightarrow> main_loop b cf rest s'
                  | Some SIGINT \<Rightarrow> main_loop b cf rest (sigterm_handler s')
                  | Some SIGTERM \<Rightarrow> Killed s')))"

declare main_loop.simps [simp del]

datatype main_call =
    Install_handler signal | Set_scheduler | Perror | Sys_init | Run_wifibt_server | Lvgl_init
  | App_init | Rk_demo_init | Sys_exit

definition start_calls :: "board \<Rightarrow> main_call list" where
  "start_calls b =
     [Install_handler SIGINT, Set_scheduler] @ (if sched_ret b = -1 then [Perror] else [])
     @ (if rockit_en b then [Sys_init] else []) @ (if wifibt_en b then [Run_wifibt_server] else [])
     @ [Lvgl_init, App_init, Rk_demo_init]"

definition main :: "board \<Rightarrow> config \<Rightarrow> turn list \<Rightarrow> main_call list \<times> outcome" where
  "main b cf turns =
     (case lvgl_init (has_lsensor b) (has_psensor b) (node_fd b) (indevs b) bk_boot of
        None \<Rightarrow> (start_calls b, Stuck)
      | Some (c, bk) \<Rightarrow>
          (let out = main_loop b cf turns \<lparr>pg_quit = False, pg_bk = bk, pg_calls = c, pg_nav = rk_demo_init\<rparr>
           in case out of
                Returned s \<Rightarrow> (start_calls b @ (if rockit_en b then [Sys_exit] else []), out)
              | _ \<Rightarrow> (start_calls b, out)))"

subsection \<open>Invariant\<close>

text \<open>One page, and a history of the backlight.\<close>

definition prog_ok :: "board \<Rightarrow> config \<Rightarrow> prog \<Rightarrow> bool" where
  "prog_ok b cf s \<longleftrightarrow>
     (\<exists>p. shows_page cf p (pg_nav s)) \<and> bk_reach (ev_pressed b) (ev_released b) (pg_calls s) (pg_bk s)"

lemma run_bk_ok: "prog_ok b cf s \<Longrightarrow> run_bk b e s = Some s' \<Longrightarrow> prog_ok b cf s'"
  by (auto simp: prog_ok_def run_bk_def intro: bk_reach.step split: option.splits prod.splits)

lemma nav_ok: "prog_ok b cf s \<Longrightarrow> prog_ok b cf (s\<lparr>pg_nav := nav_step cf e (pg_nav s)\<rparr>)"
  by (simp add: prog_ok_def) (blast intro: nav_step_page)

lemma task_ok: "prog_ok b cf s \<Longrightarrow> task_run b cf t s = Some s' \<Longrightarrow> prog_ok b cf s'"
  by (cases t) (auto split: if_splits intro: run_bk_ok nav_ok)

lemma tasks_ok: "prog_ok b cf s \<Longrightarrow> lv_task_handler b cf ts s = Some s' \<Longrightarrow> prog_ok b cf s'"
  by (induction ts arbitrary: s) (auto simp: bind_eq_Some_conv intro: task_ok)

lemma main_loop_ok:
  assumes "prog_ok b cf s" "main_loop b cf turns s \<in> {Returned s', Killed s', Looping s'}"
  shows "prog_ok b cf s'"
  using assms
proof (induction turns arbitrary: s)
  case Nil
  then show ?case by (auto simp: main_loop.simps [of _ _ "[]"] split: if_splits)
next
  case (Cons t rest)
  obtain ts sg where t: "t = (ts, sg)" by fastforce
  show ?case
  proof (cases "pg_quit s \<or> lv_task_handler b cf ts s = None")
    case True
    with Cons.prems show ?thesis by (subst (asm) main_loop.simps) (auto simp: t split: if_splits)
  next
    case False
    then obtain s1 where s1: "lv_task_handler b cf ts s = Some s1" by blast
    from tasks_ok [OF Cons.prems(1) s1] have ok: "prog_ok b cf s1" "prog_ok b cf (sigterm_handler s1)"
      by (simp_all add: prog_ok_def sigterm_handler_def)
    from Cons.prems(2) False s1 Cons.IH [OF ok(1)] Cons.IH [OF ok(2)] ok(1) show ?thesis
      by (subst (asm) main_loop.simps) (auto simp: t split: option.splits signal.splits)
  qed
qed

lemma input_on_iff:
  assumes "prog_ok b cf s" shows "input_on s \<longleftrightarrow> bk_cur_en (pg_bk s) \<noteq> 0"
  using assms bk_reach_inv [of "ev_pressed b" "ev_released b" "pg_calls s" "pg_bk s" "(0, True)"]
    u8_of_level [of "bk_cur_value (pg_bk s)"]
  by (auto simp: prog_ok_def input_on_def bk_inv_def shows_last_def)

subsection \<open>Tasks that return\<close>

text \<open>
  A light level inside the table (smaller ones are clamped), a choice of the list of timeouts,
  and a press that ends or lasts longer than the wait for its release.
\<close>

fun bk_returns :: "bk_event \<Rightarrow> bool" where
  "bk_returns (Ev_timer tick elaps devs) = (poll_indevs devs \<noteq> None)"
| "bk_returns (Ev_light (continue_reading, key)) = (continue_reading \<or> key \<le> 7)"
| "bk_returns (Ev_timeout sel) = (0 \<le> sel \<and> sel < 5)"
| "bk_returns _ = True"

fun task_returns :: "task \<Rightarrow> bool" where
  "task_returns (T_timeout sel) = bk_returns (Ev_timeout sel)"
| "task_returns (T_sensor e) = bk_returns e"
| "task_returns _ = True"

lemma level_in_table: "l \<le> 7 \<Longrightarrow> \<exists>v. level_to_brightness l = Some v"
  by (simp add: level_to_brightness_def brightness_def rd_def)

lemma backlight_cb_returns:
  assumes "bk_level s \<le> 7" "poll_indevs devs \<noteq> None"
  shows "\<exists>c s'. backlight_cb tick elaps devs s = Some (c, s') \<and> bk_level s' \<le> 7"
proof -
  obtain v where v: "level_to_brightness (bk_level s) = Some v" using level_in_table [OF assms(1)] by blast
  let ?s1 = "fade_enable tick elaps (s\<lparr>bk_cur_value := fade_value v (bk_cur_value s)\<rparr>)"
  obtain c1 s2 where u1: "update_backlight (bk_cur_en ?s1) (bk_cur_value ?s1) ?s1 = (c1, s2)" by fastforce
  obtain c2 s3 where u2: "update_backlight 1 (bk_cur_value s2) (s2\<lparr>bk_cur_en := 1\<rparr>) = (c2, s3)" by fastforce
  from update_backlight_other [OF u1] update_backlight_other [OF u2] assms(1)
  have "bk_level s2 \<le> 7" "bk_level s3 \<le> 7" by simp_all
  with assms(2) v u1 u2 show ?thesis
    by (auto simp: backlight_cb_def Let_def split: option.splits bool.splits)
qed

lemma run_bk_returns:
  assumes "bk_level (pg_bk s) \<le> 7" "bk_returns e"
  shows "\<exists>s'. run_bk b e s = Some s' \<and> bk_level (pg_bk s') \<le> 7"
proof (cases e)
  case (Ev_timer tick elaps devs)
  with assms backlight_cb_returns [of "pg_bk s" devs tick elaps] show ?thesis by (auto simp: run_bk_def)
next
  case (Ev_timeout sel)
  then have "0 \<le> sel" "sel < 5" using assms(2) by simp_all
  with assms(1) Ev_timeout show ?thesis
    by (auto simp: run_bk_def screen_timeout_cb_def timeout_value_def rd_def backlight_set_timeout_def)
qed (use assms in \<open>auto simp: run_bk_def lsensor_cb_def psensor_cb_def touchpad_feedback_def split: prod.splits\<close>)

lemma task_run_returns:
  assumes "bk_level (pg_bk s) \<le> 7" "task_returns t"
  shows "\<exists>s'. task_run b cf t s = Some s' \<and> bk_level (pg_bk s') \<le> 7"
  using assms run_bk_returns [of s _ b] by (cases t) auto

lemma tasks_return:
  assumes "bk_level (pg_bk s) \<le> 7" "\<forall>t \<in> set ts. task_returns t"
  shows "\<exists>s'. lv_task_handler b cf ts s = Some s' \<and> bk_level (pg_bk s') \<le> 7"
  using assms
proof (induction ts arbitrary: s)
  case (Cons t ts)
  from task_run_returns [of s t b cf] Cons.prems obtain s1
    where "task_run b cf t s = Some s1" "bk_level (pg_bk s1) \<le> 7" by auto
  with Cons.IH [of s1] Cons.prems(2) show ?case by simp
qed simp

fun first_signal :: "turn list \<Rightarrow> signal option" where
  "first_signal [] = None"
| "first_signal ((ts, None) # rest) = first_signal rest"
| "first_signal ((ts, Some sg) # rest) = Some sg"

lemma main_loop_quit: "pg_quit s \<Longrightarrow> main_loop b cf turns s = Returned s"
  by (simp add: main_loop.simps)

lemma task_keeps_quit: "task_run b cf t s = Some s' \<Longrightarrow> pg_quit s' = pg_quit s"
  by (cases t) (auto simp: run_bk_def split: if_splits option.splits)

lemma tasks_keep_quit: "lv_task_handler b cf ts s = Some s' \<Longrightarrow> pg_quit s' = pg_quit s"
  by (induction ts arbitrary: s) (auto simp: bind_eq_Some_conv dest!: task_keeps_quit)

lemma main_loop_ends:
  assumes "\<not> pg_quit s" "bk_level (pg_bk s) \<le> 7" "\<forall>(ts, sg) \<in> set turns. \<forall>t \<in> set ts. task_returns t"
  shows "\<exists>s'. main_loop b cf turns s = (case first_signal turns of
      None \<Rightarrow> Looping s' | Some SIGINT \<Rightarrow> Returned s' | Some SIGTERM \<Rightarrow> Killed s')"
  using assms
proof (induction turns arbitrary: s)
  case Nil
  then show ?case by (simp add: main_loop.simps)
next
  case (Cons t rest)
  obtain ts sg where t: "t = (ts, sg)" by fastforce
  from Cons.prems t tasks_return [of s ts b cf] obtain s1
    where s1: "lv_task_handler b cf ts s = Some s1" "bk_level (pg_bk s1) \<le> 7" by auto
  show ?case
  proof (cases "sg = None")
    case True
    have "pg_quit s1 = pg_quit s" using s1(1) by (rule tasks_keep_quit)
    with True Cons.IH [of s1] Cons.prems s1 t show ?thesis by (subst main_loop.simps) simp
  next
    case False
    then obtain g where g: "sg = Some g" by blast
    with t s1(1) Cons.prems(1) show ?thesis
      by (cases g; subst main_loop.simps; simp add: main_loop_quit sigterm_handler_def)
  qed
qed

subsection \<open>Properties\<close>

text \<open>The start: \<open>lvgl_init\<close> succeeds from the initial values, and the home page is shown.\<close>

lemma lvgl_init_boot:
  "\<exists>c bk. lvgl_init l p fd n bk_boot = Some (c, bk) \<and> bk_level bk = 7"
  by (auto simp: lvgl_init_def bk_boot_def brightness_def rd_def update_backlight_def Let_def split: prod.splits)

lemma rk_demo_init_page: "shows_page cf Home rk_demo_init"
  by (auto simp: page_defs rk_demo_init_def home_ui_init_def fun_eq_iff)



definition a_board :: board where
  "a_board = \<lparr>rockit_en = True, wifibt_en = True, sched_ret = 0, has_lsensor = True, has_psensor = True,
     node_fd = 4, indevs = 1, ev_pressed = 1, ev_released = 8\<rparr>"

text \<open>A press on the second button of the home page, the backlight's timer, and \<open>Ctrl-C\<close>.\<close>

definition a_run :: "turn list" where
  "a_run = [([T_click (N_home 1) True, T_sensor (Ev_timer 7 (\<lambda>t. 7 - t) [(False, [])])], None), ([], Some SIGINT)]"


text \<open>Here nobody stands before the screen, the timeout runs out and the screen goes dark.\<close>

definition a_pause :: "turn list" where
  "a_pause = [([T_sensor (Ev_timer 7 (\<lambda>t. 0) [(False, [])]), T_sensor (Ev_timer 9 (\<lambda>t. 6000) [(False, [])])], None)]"


end
