(* ===== verification/Music_Server.thy ===== *)
theory Music_Server
  imports App_Music
begin

text \<open>
  The music tile, the command channel and the Bluetooth server together: \<open>smart_home/app_music.c\<close>
  runs on the thread of LVGL, \<open>wifibt/bt_server.c\<close> on its own, and the library's state callback on
  a third. Every callback of the tile first asks for \<open>BT_INFO\<close> and sleeps until it is answered,
  and may then send commands without waiting. The interleaving of the threads is a list of steps.
\<close>

subsection \<open>State and steps\<close>

datatype callback = C_btn int | C_pos | C_bt

text \<open>\<open>ts_info\<close> is \<open>new_info\<close>; \<open>ts_asking\<close> the callback that sleeps in \<open>bt_query_wait\<close>, if one does.\<close>

record tile_sys =
  ts_music :: music
  ts_info :: bt_info
  ts_chan :: "bt chan"
  ts_asking :: "callback option"

definition tile_boot :: tile_sys where
  "tile_boot = \<lparr>ts_music = music_boot, ts_info = bt_info bt_boot, ts_chan = chan_boot bt_boot, ts_asking = None\<rparr>"

fun with_info :: "callback \<Rightarrow> bt_info \<Rightarrow> music_event" where
  "with_info (C_btn idx) info = Btn info idx"
| "with_info C_pos info = Pos_tick info"
| "with_info C_bt info = Bt_tick info"

text \<open>The records sent. The argument of the commands without one is what was left in \<open>cmdarg\<close>, which
  the server does not read; it is 0 here.\<close>

fun sent :: "music_call list \<Rightarrow> cmdarg list" where
  "sent [] = []"
| "sent (Send k v # cs) = \<lparr>ca_cmd = k, ca_val = word_of_int v, ca_wait = False\<rparr> # sent cs"
| "sent (_ # cs) = sent cs"

abbreviation bt_query :: "int \<Rightarrow> cmdarg \<Rightarrow> bt chan \<Rightarrow> int \<times> bt chan" where
  "bt_query \<equiv> chan_query"

abbreviation bt_query_wait :: "int \<Rightarrow> cmdarg \<Rightarrow> bt chan \<Rightarrow> int \<times> bt chan" where
  "bt_query_wait \<equiv> chan_query_wait"

text \<open>A turn of the loop of \<open>bt_server\<close>.\<close>

abbreviation bt_serve :: "bt_env \<Rightarrow> bt chan \<Rightarrow> (bt_call list \<times> bt chan) option" where
  "bt_serve e \<equiv> chan_serve (bt_handle e)"

definition rest_of_callback :: "callback \<Rightarrow> tile_sys \<Rightarrow> tile_sys" where
  "rest_of_callback cb s =
     (let (cs, m) = music_step (with_info cb (ts_info s)) (ts_music s)
      in s\<lparr>ts_music := m, ts_asking := None,
           ts_chan := fold (\<lambda>m c. snd (bt_query 24 m c)) (sent cs) (ts_chan s)\<rparr>)"

text \<open>\<open>case BT_INFO\<close> copies the server's record to where the client's pointer says.\<close>

fun copied :: "bt_call list \<Rightarrow> bt_info \<Rightarrow> bt_info" where
  "copied [] i = i"
| "copied (Copy_info i' # cs) i = copied cs i'"
| "copied (_ # cs) i = copied cs i"

text \<open>
  \<open>Ui\<close>: LVGL runs a callback, up to the sleep. \<open>Server\<close>: a turn of the server's loop. \<open>Wake\<close>: the
  rest of the callback. \<open>Lib\<close>: the library calls the state callback. A step that cannot be taken
  changes nothing.
\<close>

datatype act = Ui callback | Server | Wake | Lib "bt_dev option" rk_bt_state

fun tile_step :: "bt_env \<Rightarrow> act \<Rightarrow> tile_sys \<Rightarrow> bt_call list \<times> tile_sys" where
  "tile_step e (Ui cb) s =
     (if ts_asking s \<noteq> None then ([], s)
      else (case bt_query_wait 24 (cmd 12 True) (ts_chan s) of
              (r, c) \<Rightarrow> ([], if r \<le> 0 then rest_of_callback cb s else s\<lparr>ts_chan := c, ts_asking := Some cb\<rparr>)))"
| "tile_step e Server s =
     (case bt_serve e (ts_chan s) of
        None \<Rightarrow> ([], s)
      | Some (cs, c) \<Rightarrow> (cs, s\<lparr>ts_chan := c, ts_info := copied cs (ts_info s)\<rparr>))"
| "tile_step e Wake s =
     (case ts_asking s of
        None \<Rightarrow> ([], s)
      | Some cb \<Rightarrow>
          (case chan_wake (ts_chan s) of
             None \<Rightarrow> ([], s)
           | Some c \<Rightarrow> ([], rest_of_callback cb (s\<lparr>ts_chan := c\<rparr>))))"
| "tile_step e (Lib rdev st) s =
     (case bt_test_state_cb rdev st (ch_srv (ts_chan s)) of
        None \<Rightarrow> ([], s)
      | Some (cs, bt) \<Rightarrow> (cs, s\<lparr>ts_chan := ts_chan s\<lparr>ch_srv := bt\<rparr>\<rparr>))"

fun tile_run :: "bt_env \<Rightarrow> act list \<Rightarrow> tile_sys \<Rightarrow> bt_call list \<times> tile_sys" where
  "tile_run e [] s = ([], s)"
| "tile_run e (a # as) s = (let (c, s1) = tile_step e a s; (d, s2) = tile_run e as s1 in (c @ d, s2))"

lemma tile_run_append:
  "tile_run e (as @ bs) s = (let (c, s1) = tile_run e as s; (d, s2) = tile_run e bs s1 in (c @ d, s2))"
  by (induction as arbitrary: s) (simp_all add: Let_def split: prod.splits)

lemma after_append: "snd (tile_run e (as @ bs) s) = snd (tile_run e bs (snd (tile_run e as s)))"
  by (simp add: tile_run_append split_beta Let_def)

subsection \<open>The thread of LVGL asleep for ever\<close>

definition frozen :: "callback \<Rightarrow> tile_sys \<Rightarrow> bool" where
  "frozen cb s \<longleftrightarrow> ts_asking s = Some cb \<and> ch_pipe (ts_chan s) = [] \<and> ch_sem (ts_chan s) = 0"

lemma frozen_step: "frozen cb s \<Longrightarrow> frozen cb (snd (tile_step e a s)) \<and> ts_music (snd (tile_step e a s)) = ts_music s"
  by (cases a) (auto simp: frozen_def chan_serve_def chan_wake_def split: option.splits)

lemma frozen_run: "frozen cb s \<Longrightarrow> frozen cb (snd (tile_run e as s)) \<and> ts_music (snd (tile_run e as s)) = ts_music s"
proof (induction as arbitrary: s)
  case (Cons a as)
  obtain c s1 where "tile_step e a s = (c, s1)" by fastforce
  with frozen_step [OF Cons.prems, of e a] Cons.IH [of s1]
  show ?case by (simp add: Let_def split_beta)
qed simp

lemma asks_behind:
  assumes "ts_asking s = None" "ch_listening (ts_chan s)" "ch_sem (ts_chan s) = 0"
    and "ch_pipe (ts_chan s) = concat (map cmdarg_bytes ms)" "ms \<noteq> []" "length ms \<le> 41" "\<not> ca_wait (hd ms)"
  shows "frozen cb (snd (tile_run e [Ui cb, Server] s)) \<and> ts_music (snd (tile_run e [Ui cb, Server] s)) = ts_music s"
proof -
  let ?ms = "ms @ [(cmd 12 True)\<lparr>ca_wait := True\<rparr>]"
  let ?c = "ts_chan s\<lparr>ch_pipe := concat (map cmdarg_bytes ?ms), ch_waiting := ch_waiting (ts_chan s) + 1\<rparr>"
  have q: "chan_query_wait 24 (cmd 12 True) (ts_chan s) = (24, ?c)"
    using assms(2,4) by (simp add: chan_query_wait_def)
  obtain cs srv where h: "bt_handle e (hd ms) (ch_srv (ts_chan s)) = (cs, srv)" by fastforce
  have "ch_listening ?c" "ch_pipe ?c = concat (map cmdarg_bytes ?ms)" "?ms \<noteq> []" "length ?ms \<le> 42"
    "bt_handle e (hd ?ms) (ch_srv ?c) = (cs, srv)" using assms h by simp_all
  from chan_serve_queue [where c = ?c and ms = ?ms and handle = "bt_handle e" and cs = cs and srv = srv, OF this]
  obtain buf where "chan_serve (bt_handle e) ?c = Some (cs, ?c\<lparr>ch_pipe := [], ch_buf := buf, ch_srv := srv, ch_sem := 0\<rparr>)"
    using assms(3,5,7) by (auto simp: hd_append)
  with assms(1,3) q show ?thesis by (simp add: frozen_def)
qed

subsection \<open>A server that is in time\<close>

text \<open>Nobody sleeps and no command is waiting.\<close>

definition drained :: "tile_sys \<Rightarrow> bool" where
  "drained s \<longleftrightarrow> ts_asking s = None \<and> chan_idle (ts_chan s)"

lemma sent_async: "m \<in> set (sent cs) \<Longrightarrow> \<not> ca_wait m"
  by (induction cs rule: sent.induct) auto

lemma sent_from: "m \<in> set (sent cs) \<Longrightarrow> \<exists>k v. Send k v \<in> set cs \<and> m = \<lparr>ca_cmd = k, ca_val = word_of_int v, ca_wait = False\<rparr>"
  by (induction cs rule: sent.induct) auto

lemma at_most_two: "length (sent (fst (music_step ev m))) \<le> 2"
  by (cases ev) (auto simp: music_defs)

lemma fold_query:
  assumes "\<forall>m \<in> set ms. \<not> ca_wait m" "ch_listening c"
  shows "fold (\<lambda>m c. snd (chan_query 24 m c)) ms c = c\<lparr>ch_pipe := ch_pipe c @ concat (map cmdarg_bytes ms)\<rparr>"
  using assms
proof (induction ms arbitrary: c)
  case (Cons m ms)
  have "cmdarg_bytes (m\<lparr>ca_wait := False\<rparr>) = cmdarg_bytes m" using Cons.prems(1) by (simp add: cmdarg_bytes_def)
  with Cons show ?case by (simp add: chan_query_def)
qed simp

text \<open>A callback that is answered: it works on the server's record, and what it sends is in the pipe.\<close>

lemma tile_answered:
  assumes "drained s" "i = bt_info (ch_srv (ts_chan s))"
    and "music_step (with_info cb i) (ts_music s) = (cs, m)"
  shows "\<exists>b. tile_run e [Ui cb, Server, Wake] s = ([Copy_info i], s\<lparr>ts_info := i, ts_music := m, ts_asking := None,
    ts_chan := (ts_chan s)\<lparr>ch_buf := b, ch_pipe := concat (map cmdarg_bytes (sent cs))\<rparr>\<rparr>)"
proof -
  let ?c = "ts_chan s"
  let ?q = "(cmd 12 True)\<lparr>ca_wait := True\<rparr>"
  let ?c1 = "?c\<lparr>ch_pipe := cmdarg_bytes ?q, ch_waiting := 1\<rparr>"
  have idle: "ch_listening ?c" "ch_pipe ?c = []" "ch_sem ?c = 0" "ch_waiting ?c = 0" "ts_asking s = None"
    using assms(1) by (simp_all add: drained_def chan_idle_def)
  have h: "bt_handle e ?q (ch_srv ?c) = ([Copy_info i], ch_srv ?c)"
    using assms(2) by (simp add: bt_handle_def cmd_def Let_def)
  obtain b where serve: "chan_serve (bt_handle e) ?c1 =
      Some ([Copy_info i], ?c1\<lparr>ch_pipe := [], ch_buf := b, ch_srv := ch_srv ?c, ch_sem := 1\<rparr>)"
    using chan_serve_queue [of ?c1 "[?q]" "bt_handle e" "[Copy_info i]" "ch_srv ?c"] idle h by auto
  let ?c2 = "?c\<lparr>ch_buf := b\<rparr>"
  have wake: "chan_wake (?c1\<lparr>ch_pipe := [], ch_buf := b, ch_srv := ch_srv ?c, ch_sem := 1\<rparr>) = Some ?c2"
    using idle by (simp add: chan_wake_def)
  show ?thesis
    using idle serve wake assms(3) fold_query [of "sent cs" ?c2] sent_async [of _ cs]
    by (auto simp: chan_query_wait_def rest_of_callback_def)
qed

lemma tile_round:
  assumes "drained s" "srv = ch_srv (ts_chan s)" "i = bt_info srv"
    and "music_step (with_info cb i) (ts_music s) = (cs, m)"
    and "(ds, srv') = (case sent cs of [] \<Rightarrow> ([], srv) | q # _ \<Rightarrow> bt_handle e q srv)"
  shows "\<exists>s'. tile_run e [Ui cb, Server, Wake, Server] s = (Copy_info i # ds, s') \<and> drained s'
    \<and> ts_music s' = m \<and> ch_srv (ts_chan s') = srv'"
proof -
  have idle: "ch_listening (ts_chan s)" "ch_sem (ts_chan s) = 0" "ch_waiting (ts_chan s) = 0" "ts_asking s = None"
    "ch_pipe (ts_chan s) = []" using assms(1) by (simp_all add: drained_def chan_idle_def)
  from tile_answered [OF assms(1) _ assms(4), of e] assms(2,3) obtain b where
    three: "tile_run e [Ui cb, Server, Wake] s = ([Copy_info i], s\<lparr>ts_info := i, ts_music := m, ts_asking := None,
      ts_chan := (ts_chan s)\<lparr>ch_buf := b, ch_pipe := concat (map cmdarg_bytes (sent cs))\<rparr>\<rparr>)" by auto
  let ?c3 = "(ts_chan s)\<lparr>ch_buf := b, ch_pipe := concat (map cmdarg_bytes (sent cs))\<rparr>"
  note run = tile_run_append [of e "[Ui cb, Server, Wake]" "[Server]" s]
  show ?thesis
  proof (cases "sent cs")
    case Nil
    then have "chan_serve (bt_handle e) ?c3 = None" by (simp add: chan_serve_def)
    with three Nil idle assms(2,5) run show ?thesis by (simp add: drained_def chan_idle_def)
  next
    case (Cons q qs)
    have "length (sent cs) \<le> 42" using at_most_two [of "with_info cb i" "ts_music s"] assms(4) by simp
    moreover have "\<not> ca_wait q" using sent_async [of q cs] Cons by simp
    ultimately obtain b' where "chan_serve (bt_handle e) ?c3 =
        Some (ds, ?c3\<lparr>ch_pipe := [], ch_buf := b', ch_srv := srv', ch_sem := 0\<rparr>)"
      using chan_serve_queue [of ?c3 "sent cs" "bt_handle e" ds srv'] idle assms(2,5) Cons by auto
    with three idle run show ?thesis by (simp add: drained_def chan_idle_def)
  qed
qed

text \<open>Calls of the library that set the volume.\<close>

lemma cb_no_volume: "bt_test_state_cb rdev st b = Some (cs, b') \<Longrightarrow> Set_volume v \<notin> set cs"
  by (cases st) (auto simp: bt_test_state_cb_def cb_defs split: option.splits)

lemma enable_no_volume: "Set_volume v \<notin> set (fst (bt_enable e b))"
  by (auto simp: bt_enable_def bt_ble_init_def create_bt_conf_def Let_def split: prod.splits)

lemma handle_volume:
  assumes "Set_volume v \<in> set (fst (bt_handle e q b))"
  shows "v = 0 \<or> ca_cmd q = 8 \<and> v = sint (ca_val q)"
  using assms enable_no_volume [of v e b] by (auto simp: bt_handle_def Let_def split: if_splits)

definition volume_ok :: "int \<Rightarrow> bool" where
  "volume_ok v \<longleftrightarrow> 0 \<le> v \<and> v \<le> 100"

definition tile_ok :: "tile_sys \<Rightarrow> bool" where
  "tile_ok s \<longleftrightarrow> drained s \<and> volume_ok (mu_volume (ts_music s))"

lemma lib_ok:
  assumes "tile_ok s"
  shows "tile_ok (snd (tile_step e (Lib d st) s)) \<and> Set_volume v \<notin> set (fst (tile_step e (Lib d st) s))"
  using assms cb_no_volume [of d st "ch_srv (ts_chan s)"]
  by (auto simp: tile_ok_def drained_def chan_idle_def split: option.splits)

lemma libs_ok:
  assumes "tile_ok s" "tile_run e (map (\<lambda>(d, st). Lib d st) libs) s = (cs, s')"
  shows "tile_ok s' \<and> Set_volume v \<notin> set cs"
  using assms
proof (induction libs arbitrary: s cs)
  case (Cons l libs)
  obtain d st where l: "l = (d, st)" by fastforce
  obtain c s1 where 1: "tile_step e (Lib d st) s = (c, s1)" by fastforce
  from Cons.prems(2) l 1 obtain ds where "tile_run e (map (\<lambda>(d, st). Lib d st) libs) s1 = (ds, s')" "cs = c @ ds"
    by (auto simp: Let_def split: prod.splits)
  with Cons.IH [of s1 ds] lib_ok [OF Cons.prems(1), of e d st v] 1 show ?case by auto
qed simp

lemma round_ok:
  assumes "tile_ok s" "tile_run e [Ui cb, Server, Wake, Server] s = (cs, s')"
  shows "tile_ok s' \<and> (\<forall>v. Set_volume v \<in> set cs \<longrightarrow> volume_ok v)"
proof -
  let ?srv = "ch_srv (ts_chan s)"
  obtain ms m where step: "music_step (with_info cb (bt_info ?srv)) (ts_music s) = (ms, m)" by fastforce
  obtain ds srv' where ds: "(ds, srv') = (case sent ms of [] \<Rightarrow> ([], ?srv) | q # _ \<Rightarrow> bt_handle e q ?srv)"
    by (metis surj_pair)
  from assms(1) have d: "drained s" and v: "0 \<le> mu_volume (ts_music s)" "mu_volume (ts_music s) \<le> 100"
    by (simp_all add: tile_ok_def volume_ok_def)
  note range = music_step_volume [OF step v]
  from tile_round [OF d refl refl step ds] assms(2)
  have s': "drained s'" "ts_music s' = m" "cs = Copy_info (bt_info ?srv) # ds" by auto
  have "volume_ok w" if "Set_volume w \<in> set ds" for w
  proof (cases "sent ms")
    case (Cons q qs)
    with ds that have "Set_volume w \<in> set (fst (bt_handle e q ?srv))" by (simp add: prod_eq_iff)
    then have w: "w = 0 \<or> ca_cmd q = 8 \<and> w = sint (ca_val q)" by (rule handle_volume)
    from Cons sent_from [of q ms] obtain k u where q: "Send k u \<in> set ms" "ca_cmd q = k" "ca_val q = word_of_int u"
      by auto
    have "sint (word_of_int u :: 64 word) = u" if "0 \<le> u" "u \<le> 100"
      using that by (simp add: signed_of_int signed_take_bit_int_eq_self)
    with w q range show ?thesis by (auto simp: volume_ok_def)
  qed (use ds that in simp)
  with s' range show ?thesis by (auto simp: tile_ok_def volume_ok_def)
qed

text \<open>
  A server in time: calls of the library, then a callback, whose question is answered and whose
  commands are read before the next callback.
\<close>

definition in_time :: "((bt_dev option \<times> rk_bt_state) list \<times> callback) list \<Rightarrow> act list" where
  "in_time rounds = concat (map (\<lambda>(libs, cb). map (\<lambda>(d, st). Lib d st) libs @ [Ui cb, Server, Wake, Server]) rounds)"

lemma in_time_ok:
  assumes "tile_ok s" "tile_run e (in_time rounds) s = (cs, s')"
  shows "tile_ok s' \<and> (\<forall>v. Set_volume v \<in> set cs \<longrightarrow> volume_ok v)"
  using assms
proof (induction rounds arbitrary: s cs)
  case Nil
  then show ?case by (simp add: in_time_def)
next
  case (Cons r rounds)
  obtain libs cb where r: "r = (libs, cb)" by fastforce
  let ?libs = "map (\<lambda>(d, st). Lib d st) libs" and ?ui = "[Ui cb, Server, Wake, Server]"
  obtain c1 s1 where 1: "tile_run e ?libs s = (c1, s1)" by fastforce
  obtain c2 s2 where 2: "tile_run e ?ui s1 = (c2, s2)" by fastforce
  obtain c3 where 3: "tile_run e (in_time rounds) s2 = (c3, s')" "cs = c1 @ c2 @ c3"
    using Cons.prems(2) 1 2 tile_run_append [of e "?libs @ ?ui" "in_time rounds" s] tile_run_append [of e ?libs ?ui s]
    by (simp add: in_time_def r Let_def split: prod.splits)
  have a: "tile_ok s1" "\<And>v. Set_volume v \<notin> set c1" using libs_ok [OF Cons.prems(1) 1] by blast+
  from round_ok [OF a(1) 2] have b: "tile_ok s2" "\<forall>v. Set_volume v \<in> set c2 \<longrightarrow> volume_ok v" by blast+
  from Cons.IH [OF b(1) 3(1)] a(2) b(2) 3(2) show ?case by auto
qed

lemma tile_boot_ok: "tile_ok tile_boot"
  by (simp add: tile_ok_def volume_ok_def drained_def tile_boot_def music_boot_def)

subsection \<open>Properties\<close>

text \<open>C5. While the server is in time the tile never hangs: after every callback nobody sleeps, no
  command is waiting, and whatever buttons, timers and reports came, the library is told only
  volumes between 0 and 100.\<close>

theorem music_server_in_time:
  "case tile_run e (in_time rounds) tile_boot of
     (calls, s) \<Rightarrow> ts_asking s = None \<and> chan_idle (ts_chan s)
       \<and> (\<forall>v. Set_volume v \<in> set calls \<longrightarrow> 0 \<le> v \<and> v \<le> 100)"
proof -
  obtain cs s where r: "tile_run e (in_time rounds) tile_boot = (cs, s)" by fastforce
  from in_time_ok [OF tile_boot_ok r] show ?thesis unfolding r by (simp add: tile_ok_def drained_def volume_ok_def)
qed

text \<open>C25. A late server freezes the screen. If a callback of the tile sends a command and the next one
  runs before the server has read it, the server reads the command and the next question at
  once, handles the first record alone, and never answers: the thread of LVGL sleeps for ever,
  whatever any thread does.\<close>

theorem late_server_freezes:
  assumes "ts_asking s = None" "chan_idle (ts_chan s)"
    and "sent (fst (music_step (with_info cb1 (bt_info (ch_srv (ts_chan s)))) (ts_music s))) \<noteq> []"
  shows "ts_asking (snd (tile_run e ([Ui cb1, Server, Wake, Ui cb2, Server] @ later) s)) = Some cb2"
proof -
  let ?i = "bt_info (ch_srv (ts_chan s))"
  obtain cs m where step: "music_step (with_info cb1 ?i) (ts_music s) = (cs, m)" by fastforce
  have d: "drained s" using assms(1,2) by (simp add: drained_def)
  from tile_answered [OF d refl step] obtain b where
    1: "tile_run e [Ui cb1, Server, Wake] s = ([Copy_info ?i], s\<lparr>ts_info := ?i, ts_music := m, ts_asking := None,
      ts_chan := (ts_chan s)\<lparr>ch_buf := b, ch_pipe := concat (map cmdarg_bytes (sent cs))\<rparr>\<rparr>)" (is "_ = (_, ?s1)") by blast
  have "ts_asking ?s1 = None" "ch_listening (ts_chan ?s1)" "ch_sem (ts_chan ?s1) = 0"
    "ch_pipe (ts_chan ?s1) = concat (map cmdarg_bytes (sent cs))" "sent cs \<noteq> []" "length (sent cs) \<le> 41"
    "\<not> ca_wait (hd (sent cs))"
    using assms(2,3) step sent_async [of _ cs] at_most_two [of "with_info cb1 ?i" "ts_music s"]
    by (simp_all add: chan_idle_def)
  from asks_behind [OF this, of cb2 e] obtain ds s2 where
    2: "tile_run e [Ui cb2, Server] ?s1 = (ds, s2)" "frozen cb2 s2" by (metis prod.collapse)
  from frozen_run [OF 2(2), of e later] have "ts_asking (snd (tile_run e later s2)) = Some cb2"
    by (simp add: frozen_def)
  moreover have "snd (tile_run e (([Ui cb1, Server, Wake] @ [Ui cb2, Server]) @ later) s) = snd (tile_run e later s2)"
    unfolding after_append 1 snd_conv 2(1) by (rule refl)
  ultimately show ?thesis by (simp only: append.simps)
qed

definition an_env :: bt_env where
  "an_env = \<lparr>be_is_open = True, be_file = None, be_rnd = (\<lambda>_. 0), be_after = [], be_conf = True, be_up = (\<lambda>_. True)\<rparr>"

text \<open>A phone connects and the button that lowers the volume is pressed.\<close>

definition a_press :: "act list" where
  "a_press = in_time [([(Some phone, RK_BT_STATE_CONNECTED_ALREADY)], C_btn 3)]"

lemma a_press_volume: "Set_volume 90 \<in> set (fst (tile_run an_env a_press tile_boot))"
proof -
  define s where "s = snd (tile_run an_env [Lib (Some phone) RK_BT_STATE_CONNECTED_ALREADY] tile_boot)"
  note eval = s_def tile_boot_def bt_test_state_cb_def cb_defs
  let ?srv = "bt_boot\<lparr>bt_info := (bt_info bt_boot)\<lparr>bi_state := BT_STATE_CONNECTED\<rparr>\<rparr>"
  have s: "drained s" "?srv = ch_srv (ts_chan s)" "ts_music s = music_boot"
    by (simp_all add: eval drained_def chan_idle_def chan_boot_def set_state_def)
  have "music_step (with_info (C_btn 3) (bt_info ?srv)) (ts_music s) = ([Send 8 90], music_boot\<lparr>mu_volume := 90\<rparr>)"
    by (simp add: s(3) music_defs music_boot_def)
  moreover have "([Set_volume 90], ?srv) = (case sent [Send 8 90] of [] \<Rightarrow> ([], ?srv) | q # _ \<Rightarrow> bt_handle an_env q ?srv)"
    by (simp add: bt_handle_def)
  ultimately obtain s' where "tile_run an_env [Ui (C_btn 3), Server, Wake, Server] s = ([Copy_info (bt_info ?srv), Set_volume 90], s')"
    using tile_round [OF s(1,2) refl] by blast
  then show ?thesis
    using tile_run_append [of an_env "[Lib (Some phone) RK_BT_STATE_CONNECTED_ALREADY]" "[Ui (C_btn 3), Server, Wake, Server]" tile_boot]
    by (simp add: a_press_def in_time_def s_def split_beta Let_def del: tile_step.simps)
qed

lemma music_server_in_time_witness:
  "case tile_run an_env a_press tile_boot of (calls, s) \<Rightarrow> ts_asking s = None \<and> Set_volume 90 \<in> set calls \<and> (90 :: int) \<le> 100"
  using music_server_in_time [of an_env "[([(Some phone, RK_BT_STATE_CONNECTED_ALREADY)], C_btn 3)]"] a_press_volume
  by (simp add: a_press_def split_beta)

text \<open>It is reached from the start: the phone reports a position, and two ticks of the timer find the
  server late.\<close>

lemma late_server_freezes_witness:
  "ts_asking (snd (tile_run an_env ([Ui C_pos, Server, Wake, Ui C_pos, Server] @ [Server, Wake, Lib None RK_BT_STATE_SINK_PLAY])
     (snd (tile_run an_env [Lib (Some phone) RK_BT_STATE_SINK_POSITION] tile_boot)))) = Some C_pos"
proof -
  define s where "s = snd (tile_run an_env [Lib (Some phone) RK_BT_STATE_SINK_POSITION] tile_boot)"
  note eval = s_def tile_boot_def bt_test_state_cb_def cb_defs phone_def
  have srv: "ch_srv (ts_chan s) = bt_boot\<lparr>bt_info := (bt_info bt_boot)\<lparr>bi_pos := 0, bi_dur := 1000, bi_pos_changed := True\<rparr>\<rparr>"
    by (simp add: eval)
  have "ts_asking s = None" "chan_idle (ts_chan s)" "ts_music s = music_boot"
    by (simp_all add: eval chan_idle_def chan_boot_def)
  then show ?thesis unfolding s_def [symmetric]
    by (intro late_server_freezes) (simp_all add: srv music_defs music_boot_def bt_boot_def)
qed

text \<open>
  Even in time, the second of the two commands a callback sends at once is lost: a new track and
  a new position together leave the server's track flag set.
\<close>

lemma track_clear_lost:
  assumes "drained s" "bi_pos_changed (bt_info (ch_srv (ts_chan s)))" "bi_track_changed (bt_info (ch_srv (ts_chan s)))"
  shows "let i = bt_info (ch_srv (ts_chan (snd (tile_run e [Ui C_pos, Server, Wake, Server] s)))) in
    \<not> bi_pos_changed i \<and> bi_track_changed i"
proof -
  let ?srv = "ch_srv (ts_chan s)"
  obtain ms m where step: "music_step (with_info C_pos (bt_info ?srv)) (ts_music s) = (ms, m)" by fastforce
  with assms(2,3) have "\<exists>q qs. sent ms = q # qs \<and> ca_cmd q = 11" by (auto simp: pos_timer_cb_def Let_def split: if_splits)
  then obtain q qs where q: "sent ms = q # qs" "ca_cmd q = 11" by blast
  let ?srv' = "?srv\<lparr>bt_info := (bt_info ?srv)\<lparr>bi_pos_changed := False\<rparr>\<rparr>"
  have "([], ?srv') = (case sent ms of [] \<Rightarrow> ([], ?srv) | q # _ \<Rightarrow> bt_handle e q ?srv)"
    using q by (simp add: bt_handle_def Let_def)
  from tile_round [OF assms(1) refl refl step this] assms(3) show ?thesis by auto
qed

end
