(* ===== verification/Spec2Isabelle.thy ===== *)
theory Spec2Isabelle
  imports Btn_Matrix Pagination Backlight Toast Wifi_Server Wifi_UI Bt_Server App_Music Media Audio_Call
    Asr Player_UI Monitor_UI Setting_UI Local_IP Pages Rkaudio_Param UI_Menus UI_Tour UI_Wifi UI_Asr
    Call_Stream Main_Loop Music_Server
begin

text \<open>
  A verification development of the Rockchip LVGL demo (\<open>src/rk_demo\<close>), a touch-screen
  application in C on top of LVGL, the Rockchip media library (RK MPI, RKADK), the Bluetooth and
  WiFi libraries and ALSA.

  \<^bold>\<open>The program\<close>. \<open>main.c\<close> sets up the screen, the backlight and the servers and runs LVGL's loop.
  The pages (\<open>home\<close>, \<open>smart_home\<close>, \<open>furniture_control\<close>, \<open>intercom_homepage\<close>, \<open>setting\<close>) are
  modules with file-level state whose callbacks LVGL calls; they lay out their buttons with
  \<open>ui_btnmatrix.c\<close> and \<open>layout/tile_layout.c\<close>. Behind them run threads: the WiFi and
  Bluetooth servers (\<open>wifibt\<close>), which take commands from the pages through a pipe and a
  semaphore; the intercom's server and client (\<open>rockit\<close>), which move audio between sockets and
  the media library; the voice recogniser's capture and playback (\<open>asr\<close>); and the players of the
  video and monitor pages.

  \<^bold>\<open>The form of the model\<close>. Definitions follow the C functions of the same name. The static
  variables of a module are a record that its operations take and return; what an operation asks
  LVGL or a library to do is a list of calls it gives back; what a library answers is a
  parameter. \<open>None\<close> as the value of an operation is a fault: an access outside an array, a null
  pointer, a buffer overrun. Threads, timers and callbacks are interleaved as explicit events, in
  step functions folded over a list of events or in inductive step relations. Bytes, ticks and
  handles are words of their width; other integers are \<open>int\<close>. Floating point is \<open>C_Float\<close>:
  rounding to the 24 or 53 bits of \<open>float\<close> and \<open>double\<close>, on rationals, ties to even, without
  overflow and subnormals, which the sizes of a screen do not reach.

  \<^bold>\<open>The theories\<close>.

  \<^item> \<open>RK_Prelude\<close>: checked array accesses, early-exit loops, C division, C strings.
  \<^item> \<open>C_Float\<close>: rounding; the locale \<open>rounding\<close>, interpreted on both formats, proves that a
    quotient of exact integers rounds to the integer division.
  \<^item> \<open>Grid_Alloc\<close>: the interfaces \<open>grid\<close> and \<open>placer\<close> of a cell map that is searched for a free
    rectangle, with first fit and disjointness proved once. Interpreted by the next two.
  \<^item> \<open>Btn_Matrix\<close> (\<open>ui_btnmatrix.c\<close>): memory safety of the map, no two buttons on a cell, unit
    buttons row by row.
  \<^item> \<open>Tile_Layout\<close> (\<open>layout/tile_layout.c\<close>): the bit map with its macros as they expand, safety at
    any width, first fit up to eight columns and its failure beyond, the dimensions computed in
    floating point.
  \<^item> \<open>Pagination\<close> (the page loops of \<open>smart_home_ui.c\<close> and \<open>ui_intercom_homepage.c\<close>): the outer
    loop takes fuel, one unit a page. As many units as applications are enough when all fit, and
    no fuel is enough when one does not.
  \<^item> \<open>Backlight\<close> (\<open>main.c\<close>, the timeout of \<open>wallpaper_ui.c\<close>): reachable states and the device they
    drive, when the screen goes off, how fast the brightness settles (nine runs of the timer).
  \<^item> \<open>Toast\<close> (\<open>lv_toast.c\<close>, \<open>lv_toast.h\<close>): the envelope of the fade; showing again; the fields that can be
    set, as the locale \<open>toast_field\<close>.
  \<^item> \<open>Cmd_Channel\<close> (the pipe and semaphore of both servers): the record as bytes; the locale
    \<open>wire\<close>; calls that wait refine direct calls of the handler; commands read together are lost.
  \<^item> \<open>Wifi_Server\<close>, \<open>Wifi_UI\<close> (\<open>wifi_server.c\<close>, \<open>wifibt.c\<close>, \<open>wifi_ui.c\<close>): what the accessors say of
    the history of events; the lists of networks.
  \<^item> \<open>Bt_Base\<close>, \<open>Bt_Server\<close> (\<open>bt_server.c\<close>, \<open>RkBtBase.h\<close>): HCI commands as bytes and the lookup
    of a link, the state callback and what the state told stands for, the start of the stack. The
    loop that waits for the stack takes its three turns as fuel.
  \<^item> \<open>App_Music\<close> (\<open>app_music.c\<close>, \<open>bt_ui.c\<close>): the range of the volume; what the tile sends.
    \<open>Music_Server\<close>: tile, channel and server under every interleaving of their threads; a server
    in time, and one that is late.
  \<^item> \<open>Media\<close> (\<open>audio_in.c\<close>, \<open>audio_out.c\<close>): the locale \<open>endpoint\<close> of a path of resources,
    interpreted on capture and playback: every error path releases what it holds.
  \<^item> \<open>Audio_Call\<close> (\<open>audio_server.c\<close>, \<open>audio_client.c\<close>, \<open>ui_intercom_call.c\<close>): frames cut from a
    stream, the server's and client's state machines, hanging up. \<open>Call_Stream\<close>: a call from end to end.
  \<^item> \<open>Asr\<close> (\<open>asr.c\<close>, \<open>audio.c\<close>): the tables of commands and answers, the listening window, playback.
  \<^item> \<open>Rkadk\<close>, \<open>Player_UI\<close>, \<open>Monitor_UI\<close> (\<open>player_ui.c\<close>, \<open>ui_monitor.c\<close>): players created and
    destroyed, the files offered, the area of the picture, the thread of the monitor page under
    every interleaving, and a state it cannot leave.
  \<^item> \<open>Setting_UI\<close> (\<open>setting_ui.c\<close>, \<open>language_and_date_ui.c\<close>): the submenus; the choice of a time.
  \<^item> \<open>Local_IP\<close> (\<open>local_ip.c\<close>), \<open>Pages\<close> (\<open>home_ui.c\<close> and the jumps of every page): one page at
    a time, with its timer, background, recogniser and snapshot.
  \<^item> \<open>Main_Loop\<close> (\<open>main()\<close> of \<open>main.c\<close>): start, loop and signals; backlight and pages together. The
    turns of the loop are a list, and the result says when the program is still looping at its end.
  \<^item> \<open>Rkaudio_Param\<close> (\<open>rkaudio_preprocess.h\<close>): the parameter blocks of the audio library on a heap
    of blocks, each allocated once, hooked up and freed once; the tables the initialisers copy.
  \<^item> \<open>Widgets\<close>: a state monad that logs the LVGL calls of a constructor or callback, the classes of
    the objects and which call is for which class. A log checks when every call acts on a live
    object of the right class; \<open>typed\<close> is the Hoare triple of that check.
  \<^item> \<open>Widget_Logic\<close>: triples over forests of widgets. \<open>makes F m A D\<close> says that \<open>m\<close>, run while the
    trees \<open>F\<close> are there, checks and leaves the trees \<open>D r\<close>; its rules follow the monad's operators.
  \<^item> \<open>UI_Base\<close>, \<open>UI_Tiles\<close>, \<open>UI_Menus\<close>, \<open>UI_Home\<close>, \<open>UI_Panels\<close>, \<open>UI_Setting\<close>, \<open>UI_Monitor\<close>: the
    widgets of the tiles, the submenus and all pages, call by call, with the callbacks that change
    them: each constructor makes one tree and each callback leaves the trees as they were.
  \<^item> \<open>UI_Wifi\<close>: the WiFi page, whose lists are emptied and filled while it is open. Emptying a list
    takes parents, which the trees above do not keep, so its invariant lists the page's objects
    with theirs.
  \<^item> \<open>UI_Asr\<close>: the recogniser's logo, its labels, animations and timer; the logo is shown exactly
    while the recogniser is awake.
  \<^item> \<open>UI_Tour\<close>: walks over the pages give back every widget, and what is left when one does not.

  Each property stands after a text with its number, in the theory of its component; beside them
  are lemmas on concrete runs that show where the code departs from what it means to do.

  \<^bold>\<open>Not modelled\<close>. What LVGL draws from the calls: pixels, glyphs, coordinates, scrolling, and when a
  step of an animation is due: its steps are events that may come at any time with any value. The
  set-up of the shared styles outside \<open>main.c\<close> and \<open>lv_toast.c\<close>. Image data
  (\<open>asr_logo.c\<close>, \<open>wifi_*.c\<close> icons); log output; the vendor's headers beyond the types used
  (\<open>include\<close>); the stand-alone tests at the end of \<open>audio_in.c\<close> and \<open>audio_out.c\<close>. Memory that
  runs out is modelled only where the code tests for it.
\<close>

end
